(* ===== verification/Prelude.thy ===== *)
theory Prelude
  imports Main "HOL-Library.Word"
begin

text \<open>
  Shared vocabulary of the development: Go's two error-return conventions as combinators over
  sums and options, the loops that stop at the first error, and the arithmetic of
  \<^verbatim>\<open>time.Time\<close> and \<^verbatim>\<open>time.Duration\<close>.
  The lemmas of \<open>result_simps\<close> let \<open>simp\<close> and \<open>auto\<close> run through an
  early-return pipeline one guard at a time.
\<close>

named_theorems result_simps "inversion of the error-return combinators"
named_theorems env_simps "evaluation of the sample environment used by the witnesses"

section \<open>Bytes\<close>

type_synonym byte = "8 word"
type_synonym bytes = "byte list"

text \<open>
  A Go string is a byte sequence; it is a HOL \<open>string\<close> whose characters are those bytes.
  \<open>bytes_of\<close> is the conversion \<^verbatim>\<open>[]byte(s)\<close>.
\<close>

definition bytes_of :: "string \<Rightarrow> bytes" where
  "bytes_of s = map of_char s"

section \<open>Error returns\<close>

text \<open>
  \<open>bindE m k\<close> is \<^verbatim>\<open>x, err := m; if err != nil { return err }; k(x)\<close>;
  \<open>checkE e k\<close> is \<^verbatim>\<open>if err := e; err != nil { return err }; k\<close> before a value
  is returned; \<open>seqE e k\<close> is the same in a function that returns only an error.
\<close>

fun bindE :: "'e + 'a \<Rightarrow> ('a \<Rightarrow> 'e + 'b) \<Rightarrow> 'e + 'b" where
  "bindE (Inl e) k = Inl e"
| "bindE (Inr x) k = k x"

fun checkE :: "'e option \<Rightarrow> 'e + 'b \<Rightarrow> 'e + 'b" where
  "checkE (Some e) k = Inl e"
| "checkE None k = k"

fun seqE :: "'e option \<Rightarrow> 'e option \<Rightarrow> 'e option" where
  "seqE (Some e) k = Some e"
| "seqE None k = k"

fun mapErr :: "('e \<Rightarrow> 'f) \<Rightarrow> 'e + 'a \<Rightarrow> 'f + 'a" where
  "mapErr f (Inl e) = Inl (f e)"
| "mapErr f (Inr x) = Inr x"

text \<open>The loop \<^verbatim>\<open>for _, x := range xs { y, err := f(x); if err != nil { return err }; ys = append(ys, y) }\<close>.\<close>

fun mapE :: "('a \<Rightarrow> 'e + 'b) \<Rightarrow> 'a list \<Rightarrow> 'e + 'b list" where
  "mapE f [] = Inr []"
| "mapE f (x # xs) = bindE (f x) (\<lambda>y. bindE (mapE f xs) (\<lambda>ys. Inr (y # ys)))"

fun is_ok :: "'e + 'a \<Rightarrow> bool" where
  "is_ok (Inl e) = False"
| "is_ok (Inr x) = True"

lemma bindE_Inr [result_simps]: "bindE m k = Inr y \<longleftrightarrow> (\<exists>x. m = Inr x \<and> k x = Inr y)"
  by (cases m) auto

lemma bindE_Inl [result_simps]:
  "bindE m k = Inl e \<longleftrightarrow> m = Inl e \<or> (\<exists>x. m = Inr x \<and> k x = Inl e)"
  by (cases m) auto

lemma checkE_Inr [result_simps]: "checkE c k = Inr y \<longleftrightarrow> c = None \<and> k = Inr y"
  by (cases c) auto

lemma checkE_Inl [result_simps]:
  "checkE c k = Inl e \<longleftrightarrow> c = Some e \<or> (c = None \<and> k = Inl e)"
  by (cases c) auto

lemma seqE_None [result_simps]: "seqE c k = None \<longleftrightarrow> c = None \<and> k = None"
  by (cases c) auto

lemma seqE_Some [result_simps]:
  "seqE c k = Some e \<longleftrightarrow> c = Some e \<or> (c = None \<and> k = Some e)"
  by (cases c) auto

lemma mapErr_Inr [result_simps]: "mapErr f m = Inr x \<longleftrightarrow> m = Inr x"
  by (cases m) auto

lemma mapErr_Inl [result_simps]: "mapErr f m = Inl e \<longleftrightarrow> (\<exists>c. m = Inl c \<and> e = f c)"
  by (cases m) auto

lemma mapE_Inr [result_simps]: "mapE f xs = Inr ys \<longleftrightarrow> list_all2 (\<lambda>x y. f x = Inr y) xs ys"
proof (induction xs arbitrary: ys)
  case Nil
  then show ?case by auto
next
  case (Cons x xs)
  then show ?case by (cases ys) (auto simp: bindE_Inr)
qed

lemma mapE_Inl_ex: "mapE f xs = Inl e \<Longrightarrow> \<exists>x \<in> set xs. f x = Inl e"
  by (induction xs) (auto simp: result_simps)

lemma mapE_all_ok: "(\<And>x. x \<in> set xs \<Longrightarrow> f x = Inr (g x)) \<Longrightarrow> mapE f xs = Inr (map g xs)"
  by (induction xs) auto

lemma is_ok_iff: "is_ok m \<longleftrightarrow> (\<exists>x. m = Inr x)"
  by (cases m) auto

section \<open>64-bit integers\<close>

text \<open>Two's-complement wrap-around of Go's \<^verbatim>\<open>int64\<close> (and \<^verbatim>\<open>int\<close>), written out on \<open>int\<close>.\<close>

definition max_int64 :: int where
  "max_int64 = 9223372036854775807"

definition min_int64 :: int where
  "min_int64 = -9223372036854775808"

definition wrap64 :: "int \<Rightarrow> int" where
  "wrap64 x = (x + 9223372036854775808) mod 18446744073709551616 - 9223372036854775808"

definition in_int64 :: "int \<Rightarrow> bool" where
  "in_int64 x \<longleftrightarrow> min_int64 \<le> x \<and> x \<le> max_int64"

lemma wrap64_id: "in_int64 x \<Longrightarrow> wrap64 x = x"
  by (simp add: in_int64_def min_int64_def max_int64_def wrap64_def)

lemma wrap64_over:
  assumes "max_int64 < x" and "x < 27670116110564327424"
  shows "wrap64 x = x - 18446744073709551616"
proof -
  have "(x + 9223372036854775808) mod 18446744073709551616 = x - 9223372036854775808"
    using assms minus_mod_self2 [of "x + 9223372036854775808" 18446744073709551616]
    by (simp add: max_int64_def)
  then show ?thesis by (simp add: wrap64_def)
qed

lemma wrap64_range: "in_int64 (wrap64 x)"
  using pos_mod_bound [of 18446744073709551616 "x + 9223372036854775808"]
    pos_mod_sign [of 18446744073709551616 "x + 9223372036854775808"]
  by (simp add: in_int64_def min_int64_def max_int64_def wrap64_def)

section \<open>Instants and durations\<close>

text \<open>
  A \<^verbatim>\<open>time.Time\<close> is its instant in nanoseconds since the Unix epoch, a
  \<^verbatim>\<open>time.Duration\<close> is an \<^verbatim>\<open>int64\<close> count of nanoseconds. \<^verbatim>\<open>t.Sub(u)\<close> saturates at
  the ends of the duration range; sums of durations wrap. \<^verbatim>\<open>t.Unix()\<close> rounds down to
  seconds. A \<^verbatim>\<open>Time\<close> keeps its seconds since year 1 in an \<^verbatim>\<open>int64\<close>, so the conversions
  from and to Unix seconds wrap; \<open>go_time\<close> holds of the instants a \<^verbatim>\<open>Time\<close> can be. The zero \<^verbatim>\<open>Time\<close> is January 1 of year 1, UTC.
\<close>

type_synonym time = int
type_synonym duration = int

definition second :: duration where "second = 1000000000"
definition minute :: duration where "minute = 60 * second"

definition time_sub :: "time \<Rightarrow> time \<Rightarrow> duration" where
  "time_sub t u = max min_int64 (min max_int64 (t - u))"

definition duration_add :: "duration \<Rightarrow> duration \<Rightarrow> duration" where
  "duration_add a b = wrap64 (a + b)"

definition duration_neg :: "duration \<Rightarrow> duration" where
  "duration_neg d = wrap64 (- d)"

definition unixToInternal :: int where "unixToInternal = 62135596800"

definition time_unix :: "time \<Rightarrow> int" where
  "time_unix t = wrap64 (t div second)"

definition unix_time :: "int \<Rightarrow> time" where
  "unix_time s = (wrap64 (s + unixToInternal) - unixToInternal) * second"

definition go_time :: "time \<Rightarrow> bool" where
  "go_time t \<longleftrightarrow> in_int64 (t div second + unixToInternal)"

definition zero_time :: time where
  "zero_time = unix_time (-62135596800)"

lemma time_sub_gt_iff:
  "min_int64 \<le> d \<Longrightarrow> d < max_int64 \<Longrightarrow> time_sub t u > d \<longleftrightarrow> t - u > d"
  by (auto simp: time_sub_def min_int64_def max_int64_def)

lemma time_sub_mono: "t \<le> t' \<Longrightarrow> time_sub t u \<le> time_sub t' u"
  by (auto simp: time_sub_def)

lemma wrap64_wrap64: "wrap64 (wrap64 x + y) = wrap64 (x + y)"
  using mod_add_left_eq [of "x + 9223372036854775808" 18446744073709551616 y]
  by (simp add: wrap64_def algebra_simps)

text \<open>Unix seconds and back is the instant rounded down to a second, for every \<^verbatim>\<open>Time\<close>.\<close>

lemma unix_time_unix: "go_time t \<Longrightarrow> unix_time (time_unix t) = t div second * second"
  by (simp add: unix_time_def time_unix_def wrap64_wrap64 go_time_def wrap64_id)

lemma unix_time_le: "go_time t \<Longrightarrow> unix_time (time_unix t) \<le> t"
  and unix_time_gt: "go_time t \<Longrightarrow> t < unix_time (time_unix t) + second"
  using pos_mod_bound [of second t] pos_mod_sign [of second t]
    div_mult_mod_eq [of t second]
  by (simp_all add: unix_time_unix) (simp_all add: second_def)

lemma unix_time_small:
  "- 9000000000000000000 \<le> s \<Longrightarrow> s \<le> 9000000000000000000 \<Longrightarrow> unix_time s = s * second"
  by (simp add: unix_time_def wrap64_id in_int64_def min_int64_def max_int64_def unixToInternal_def)

end
