(* ===== verification/Exceptions.thy ===== *)
theory Exceptions
  imports Prelude
begin

text \<open>
  Package \<^verbatim>\<open>exceptions\<close>: the typed errors, and the universe of error values the other
  packages return. A value of Go's interface \<^verbatim>\<open>error\<close> is a \<open>goerror\<close>; \<open>Typed\<close> holds an
  \<^verbatim>\<open>*exceptions.Error\<close>, \<open>ErrorString\<close> a value made by \<^verbatim>\<open>errors.New\<close>, \<open>FmtError\<close> one
  made by \<^verbatim>\<open>fmt.Errorf\<close> (format, arguments and the cause of a \<^verbatim>\<open>%w\<close>), and the remaining
  constructors the struct types the sources declare. Errors made inside a library are
  \<open>ErrorString\<close> or \<open>FmtError\<close> values the model's environment supplies.
\<close>

section \<open>Error values\<close>

datatype web_error = WebError
    (Code: string) (Message: string) (HTTPStatus: int) (Err: "goerror option")
  and goerror =
    Typed web_error
  | ErrorString string
  | FmtError string "string list" "goerror option"
  | JoinError "goerror list"
  | HostMismatchError
  | ResponderNotAllowed
  | PartialVerifiedFinalize
  | InvalidP1363Length int int

type_synonym 'a result = "goerror + 'a"

definition StatusCode :: "web_error \<Rightarrow> int" where
  "StatusCode e = HTTPStatus e"

definition SafeError :: "web_error \<Rightarrow> string" where
  "SafeError e = Message e"

definition Unwrap :: "web_error \<Rightarrow> goerror option" where
  "Unwrap e = Err e"

text \<open>The log text of an error; \<open>text\<close> renders the cause.\<close>

definition Error :: "(goerror \<Rightarrow> string) \<Rightarrow> web_error \<Rightarrow> string" where
  "Error text e = ''webeid: '' @ Code e @ '': '' @ Message e @
     (case Err e of None \<Rightarrow> [] | Some c \<Rightarrow> '': '' @ text c)"

definition withCause :: "web_error \<Rightarrow> goerror option \<Rightarrow> web_error" where
  "withCause e cause = WebError (Code e) (Message e) (HTTPStatus e) cause"

definition newError :: "string \<Rightarrow> string \<Rightarrow> int \<Rightarrow> web_error" where
  "newError code message status = WebError code message status None"

definition Wrap :: "web_error option \<Rightarrow> goerror option \<Rightarrow> web_error option" where
  "Wrap base cause = (case base of None \<Rightarrow> None | Some b \<Rightarrow> Some (withCause b cause))"

text \<open>\<open>wrapped b c\<close> is \<^verbatim>\<open>exceptions.Wrap(b, c)\<close> as an \<^verbatim>\<open>error\<close>, for the sentinels, which are never nil.\<close>

definition wrapped :: "web_error \<Rightarrow> goerror \<Rightarrow> goerror" where
  "wrapped b c = Typed (the (Wrap (Some b) (Some c)))"

text \<open>\<^verbatim>\<open>errors.Is\<close>: the error or something it wraps is the target.\<close>

fun errors_Is :: "goerror \<Rightarrow> goerror \<Rightarrow> bool" where
  "errors_Is (Typed (WebError c m s (Some x))) t =
     (Typed (WebError c m s (Some x)) = t \<or> errors_Is x t)"
| "errors_Is (FmtError f a (Some x)) t = (FmtError f a (Some x) = t \<or> errors_Is x t)"
| "errors_Is (JoinError es) t = (JoinError es = t \<or> (\<exists>e \<in> set es. errors_Is e t))"
| "errors_Is e t = (e = t)"

section \<open>Sentinels\<close>

definition ErrTokenParse :: web_error where
  "ErrTokenParse = newError ''TOKEN_PARSE'' ''authentication token is malformed'' 400"

definition ErrTokenUnsupportedFormat :: web_error where
  "ErrTokenUnsupportedFormat =
     newError ''TOKEN_UNSUPPORTED_FORMAT'' ''authentication token format is not supported'' 400"

definition ErrTokenSignatureInvalid :: web_error where
  "ErrTokenSignatureInvalid =
     newError ''TOKEN_SIGNATURE_INVALID'' ''authentication token signature is invalid'' 401"

definition ErrChallengeNonceExpired :: web_error where
  "ErrChallengeNonceExpired =
     newError ''CHALLENGE_NONCE_EXPIRED'' ''challenge nonce has expired'' 401"

definition ErrChallengeNonceNotFound :: web_error where
  "ErrChallengeNonceNotFound =
     newError ''CHALLENGE_NONCE_NOT_FOUND'' ''challenge nonce was not found'' 401"

definition ErrCertificateExpired :: web_error where
  "ErrCertificateExpired = newError ''CERTIFICATE_EXPIRED'' ''user certificate has expired'' 401"

definition ErrCertificateNotYetValid :: web_error where
  "ErrCertificateNotYetValid =
     newError ''CERTIFICATE_NOT_YET_VALID'' ''user certificate is not yet valid'' 401"

definition ErrCertificateNotTrusted :: web_error where
  "ErrCertificateNotTrusted =
     newError ''CERTIFICATE_NOT_TRUSTED'' ''user certificate is not trusted'' 401"

definition ErrCertificateRevoked :: web_error where
  "ErrCertificateRevoked =
     newError ''CERTIFICATE_REVOKED'' ''user certificate has been revoked'' 401"

definition ErrCertificateDisallowedPolicy :: web_error where
  "ErrCertificateDisallowedPolicy =
     newError ''CERTIFICATE_DISALLOWED_POLICY'' ''user certificate policy is not allowed'' 401"

definition ErrUserCertificateWrongPurpose :: web_error where
  "ErrUserCertificateWrongPurpose =
     newError ''USER_CERTIFICATE_WRONG_PURPOSE'' ''user certificate has wrong key usage'' 401"

definition ErrSigningCertificateInvalid :: web_error where
  "ErrSigningCertificateInvalid =
     newError ''SIGNING_CERTIFICATE_INVALID'' ''signing certificate is invalid'' 422"

definition ErrOCSPRequestFailed :: web_error where
  "ErrOCSPRequestFailed =
     newError ''OCSP_REQUEST_FAILED'' ''certificate revocation check failed'' 502"

definition ErrNoSupportedHashFunction :: web_error where
  "ErrNoSupportedHashFunction =
     newError ''NO_SUPPORTED_HASH_FUNCTION'' ''no supported hash function available'' 422"

definition ErrSignatureValueInvalid :: web_error where
  "ErrSignatureValueInvalid =
     newError ''SIGNATURE_VALUE_INVALID'' ''signature value does not verify against the digest'' 422"

definition ErrIdentityBindingMismatch :: web_error where
  "ErrIdentityBindingMismatch =
     newError ''IDENTITY_BINDING_MISMATCH''
       ''authentication and signing certificates belong to different persons'' 422"

section \<open>Instances of a sentinel\<close>

text \<open>
  An error reports as the sentinel \<open>b\<close> when it is \<open>b\<close> or \<open>b\<close> wrapped around a cause:
  code, client message and status are those of \<open>b\<close>.
\<close>

definition reports :: "goerror \<Rightarrow> web_error \<Rightarrow> bool" where
  "reports e b \<longleftrightarrow> (\<exists>cause. e = Typed (withCause b cause))"

lemma withCause_simps [simp]:
  "Code (withCause e c) = Code e" "Message (withCause e c) = Message e"
  "HTTPStatus (withCause e c) = HTTPStatus e" "Err (withCause e c) = c"
  by (simp_all add: withCause_def)

lemma withCause_newError [simp]: "withCause (newError c m s) None = newError c m s"
  by (simp add: withCause_def newError_def)

lemma wrapped_Typed: "wrapped b c = Typed (withCause b (Some c))"
  by (simp add: wrapped_def Wrap_def)

lemmas sentinel_defs =
  ErrTokenParse_def ErrTokenUnsupportedFormat_def ErrTokenSignatureInvalid_def
  ErrChallengeNonceExpired_def ErrChallengeNonceNotFound_def ErrCertificateExpired_def
  ErrCertificateNotYetValid_def ErrCertificateNotTrusted_def ErrCertificateRevoked_def
  ErrCertificateDisallowedPolicy_def ErrUserCertificateWrongPurpose_def
  ErrSigningCertificateInvalid_def ErrOCSPRequestFailed_def ErrNoSupportedHashFunction_def
  ErrSignatureValueInvalid_def ErrIdentityBindingMismatch_def

lemma reports_wrapped [simp, intro]: "reports (wrapped b c) b"
  by (auto simp: reports_def wrapped_Typed)

lemma reports_sentinel [simp]:
  "reports (Typed ErrTokenParse) ErrTokenParse"
  "reports (Typed ErrTokenUnsupportedFormat) ErrTokenUnsupportedFormat"
  "reports (Typed ErrTokenSignatureInvalid) ErrTokenSignatureInvalid"
  "reports (Typed ErrChallengeNonceExpired) ErrChallengeNonceExpired"
  "reports (Typed ErrChallengeNonceNotFound) ErrChallengeNonceNotFound"
  "reports (Typed ErrCertificateExpired) ErrCertificateExpired"
  "reports (Typed ErrCertificateNotYetValid) ErrCertificateNotYetValid"
  "reports (Typed ErrCertificateNotTrusted) ErrCertificateNotTrusted"
  "reports (Typed ErrCertificateRevoked) ErrCertificateRevoked"
  "reports (Typed ErrCertificateDisallowedPolicy) ErrCertificateDisallowedPolicy"
  "reports (Typed ErrUserCertificateWrongPurpose) ErrUserCertificateWrongPurpose"
  "reports (Typed ErrSigningCertificateInvalid) ErrSigningCertificateInvalid"
  "reports (Typed ErrOCSPRequestFailed) ErrOCSPRequestFailed"
  "reports (Typed ErrNoSupportedHashFunction) ErrNoSupportedHashFunction"
  "reports (Typed ErrSignatureValueInvalid) ErrSignatureValueInvalid"
  "reports (Typed ErrIdentityBindingMismatch) ErrIdentityBindingMismatch"
  by (unfold reports_def sentinel_defs, (rule exI [of _ None], simp)+)

end
