(* ===== verification/Go_Strings.thy ===== *)
theory Go_Strings
  imports Prelude
begin

text \<open>
  The part of Go's \<^verbatim>\<open>strings\<close>, \<^verbatim>\<open>strconv\<close> and \<^verbatim>\<open>unicode/utf8\<close> packages that the
  sources use, on byte strings. UTF-8 decoding (as in \<^verbatim>\<open>for _, r := range s\<close>), its
  replacement of malformed bytes by U+FFFD, and ASCII case mapping are defined; the Unicode
  tables above U+007F are the fields of the record \<open>unicode\<close>.
\<close>

section \<open>Runes\<close>

type_synonym rune = nat

record unicode =
  uni_ToUpper :: "rune \<Rightarrow> rune"
  uni_ToLower :: "rune \<Rightarrow> rune"
  uni_IsSpace :: "rune \<Rightarrow> bool"
  uni_Fold :: "rune \<Rightarrow> rune \<Rightarrow> bool"

definition byte_at :: "string \<Rightarrow> nat \<Rightarrow> nat" where
  "byte_at s i = (if i < length s then of_char (s ! i) else 0)"

definition in_range :: "nat \<Rightarrow> nat \<Rightarrow> nat \<Rightarrow> bool" where
  "in_range lo hi b \<longleftrightarrow> lo \<le> b \<and> b \<le> hi"

abbreviation cont_byte :: "nat \<Rightarrow> bool" where
  "cont_byte b \<equiv> in_range 128 191 b"

definition rune_error :: rune where "rune_error = 65533"

text \<open>\<^verbatim>\<open>utf8.DecodeRuneInString\<close> on a non-empty string: the rune and the bytes it takes.\<close>

definition decode_rune :: "string \<Rightarrow> rune \<times> nat" where
  "decode_rune s =
     (let b0 = byte_at s 0; b1 = byte_at s 1; b2 = byte_at s 2; b3 = byte_at s 3 in
      if b0 < 128 then (b0, 1)
      else if in_range 194 223 b0 \<and> cont_byte b1
        then ((b0 - 192) * 64 + (b1 - 128), 2)
      else if in_range 224 239 b0 \<and>
              in_range (if b0 = 224 then 160 else 128) (if b0 = 237 then 159 else 191) b1 \<and>
              cont_byte b2
        then ((b0 - 224) * 4096 + (b1 - 128) * 64 + (b2 - 128), 3)
      else if in_range 240 244 b0 \<and>
              in_range (if b0 = 240 then 144 else 128) (if b0 = 244 then 143 else 191) b1 \<and>
              cont_byte b2 \<and> cont_byte b3
        then ((b0 - 240) * 262144 + (b1 - 128) * 4096 + (b2 - 128) * 64 + (b3 - 128), 4)
      else (rune_error, 1))"

text \<open>The runes of a string, each with the bytes it was read from.\<close>

function chunks :: "string \<Rightarrow> (rune \<times> string) list" where
  "chunks s = (if s = [] then []
     else let (r, n) = decode_rune s in (r, take n s) # chunks (drop n s))"
  by pat_completeness auto
termination
  by (relation "measure length")
    (auto simp: decode_rune_def Let_def split: if_splits)

declare chunks.simps [simp del]

definition runes :: "string \<Rightarrow> rune list" where
  "runes s = map fst (chunks s)"

text \<open>\<^verbatim>\<open>utf8.AppendRune\<close>, with surrogates and values out of range written as U+FFFD.\<close>

definition encode_rune :: "rune \<Rightarrow> string" where
  "encode_rune r0 =
     (let r = (if in_range 55296 57343 r0 \<or> 1114111 < r0 then rune_error else r0) in
      map char_of
       (if r < 128 then [r]
        else if r < 2048 then [192 + r div 64, 128 + r mod 64]
        else if r < 65536 then [224 + r div 4096, 128 + r div 64 mod 64, 128 + r mod 64]
        else [240 + r div 262144, 128 + r div 4096 mod 64, 128 + r div 64 mod 64, 128 + r mod 64]))"

definition ascii_char :: "char \<Rightarrow> bool" where
  "ascii_char c \<longleftrightarrow> of_char c < (128 :: nat)"

definition is_ascii :: "string \<Rightarrow> bool" where
  "is_ascii s \<longleftrightarrow> list_all ascii_char s"

section \<open>Case mapping and folding\<close>

definition ascii_upper :: "rune \<Rightarrow> rune" where
  "ascii_upper r = (if in_range 97 122 r then r - 32 else r)"

definition ascii_lower :: "rune \<Rightarrow> rune" where
  "ascii_lower r = (if in_range 65 90 r then r + 32 else r)"

definition rune_upper :: "unicode \<Rightarrow> rune \<Rightarrow> rune" where
  "rune_upper U r = (if r < 128 then ascii_upper r else uni_ToUpper U r)"

definition rune_lower :: "unicode \<Rightarrow> rune \<Rightarrow> rune" where
  "rune_lower U r = (if r < 128 then ascii_lower r else uni_ToLower U r)"

definition rune_space :: "unicode \<Rightarrow> rune \<Rightarrow> bool" where
  "rune_space U r = (if r < 128 then in_range 9 13 r \<or> r = 32 else uni_IsSpace U r)"

definition rune_fold :: "unicode \<Rightarrow> rune \<Rightarrow> rune \<Rightarrow> bool" where
  "rune_fold U a b \<longleftrightarrow> a = b \<or>
     (if a < 128 \<and> b < 128 then ascii_lower a = ascii_lower b else uni_Fold U a b)"

definition ToUpper :: "unicode \<Rightarrow> string \<Rightarrow> string" where
  "ToUpper U s = concat (map (\<lambda>r. encode_rune (rune_upper U r)) (runes s))"

definition ToLower :: "unicode \<Rightarrow> string \<Rightarrow> string" where
  "ToLower U s = concat (map (\<lambda>r. encode_rune (rune_lower U r)) (runes s))"

definition EqualFold :: "unicode \<Rightarrow> string \<Rightarrow> string \<Rightarrow> bool" where
  "EqualFold U s t \<longleftrightarrow> list_all2 (rune_fold U) (runes s) (runes t)"

definition TrimSpace :: "unicode \<Rightarrow> string \<Rightarrow> string" where
  "TrimSpace U s =
     (let sp = (\<lambda>p. rune_space U (fst p))
      in concat (map snd (rev (dropWhile sp (rev (dropWhile sp (chunks s)))))))"

section \<open>Prefixes, suffixes and separators\<close>

definition HasPrefix :: "string \<Rightarrow> string \<Rightarrow> bool" where
  "HasPrefix s p \<longleftrightarrow> take (length p) s = p"

definition TrimPrefix :: "string \<Rightarrow> string \<Rightarrow> string" where
  "TrimPrefix s p = (if HasPrefix s p then drop (length p) s else s)"

definition HasSuffix :: "string \<Rightarrow> string \<Rightarrow> bool" where
  "HasSuffix s p \<longleftrightarrow> length p \<le> length s \<and> drop (length s - length p) s = p"

definition TrimSuffix :: "string \<Rightarrow> string \<Rightarrow> string" where
  "TrimSuffix s p = (if HasSuffix s p then take (length s - length p) s else s)"

fun Contains :: "string \<Rightarrow> string \<Rightarrow> bool" where
  "Contains [] p = (p = [])"
| "Contains (c # s) p = (HasPrefix (c # s) p \<or> Contains s p)"

text \<open>
  \<open>cut_before c s\<close> is the first result of \<^verbatim>\<open>strings.Cut(s, c)\<close>; \<open>split_on c s\<close> is
  \<^verbatim>\<open>strings.Split(s, c)\<close>, with \<open>c\<close> a one-byte separator; \<open>last_index c s\<close> is
  \<^verbatim>\<open>strings.LastIndex\<close>, \<open>None\<close> for -1.
\<close>

definition cut_before :: "char \<Rightarrow> string \<Rightarrow> string" where
  "cut_before c s = takeWhile (\<lambda>x. x \<noteq> c) s"

fun split_on :: "char \<Rightarrow> string \<Rightarrow> string list" where
  "split_on c [] = [ [] ]"
| "split_on c (x # xs) =
     (if x = c then [] # split_on c xs
      else case split_on c xs of [] \<Rightarrow> [ [x] ] | y # ys \<Rightarrow> (x # y) # ys)"

fun last_index :: "char \<Rightarrow> string \<Rightarrow> nat option" where
  "last_index c [] = None"
| "last_index c (x # xs) =
     (case last_index c xs of Some i \<Rightarrow> Some (Suc i)
      | None \<Rightarrow> if x = c then Some 0 else None)"

section \<open>strconv.Atoi\<close>

definition digit_val :: "char \<Rightarrow> nat option" where
  "digit_val c = (let n = of_char c in if in_range 48 57 n then Some (n - 48) else None)"

fun digits_val :: "int \<Rightarrow> string \<Rightarrow> int option" where
  "digits_val acc [] = Some acc"
| "digits_val acc (c # cs) =
     (case digit_val c of None \<Rightarrow> None | Some d \<Rightarrow> digits_val (acc * 10 + int d) cs)"

text \<open>
  An optional sign, then at least one decimal digit and nothing else; \<open>None\<close> also for a value
  outside the 64-bit \<^verbatim>\<open>int\<close>.
\<close>

definition Atoi :: "string \<Rightarrow> int option" where
  "Atoi s =
     (let neg = HasPrefix s ''-'';
          ds = (if neg \<or> HasPrefix s ''+'' then tl s else s)
      in if ds = [] then None
         else case digits_val 0 ds of
           None \<Rightarrow> None
         | Some n \<Rightarrow> (let v = (if neg then - n else n)
                      in if in_int64 v then Some v else None))"


section \<open>Lemmas\<close>

lemma of_char_inject: "(of_char c :: nat) = of_char d \<longleftrightarrow> c = d"
  by (metis char_of_char)

lemma char_of_eq: "n < 256 \<Longrightarrow> char_of n = c \<longleftrightarrow> of_char c = (n :: nat)"
  by (metis char_of_char of_char_of mod_less)

lemma bytes_of_append [simp]: "bytes_of (s @ t) = bytes_of s @ bytes_of t"
  by (simp add: bytes_of_def)

lemma length_bytes_of [simp]: "length (bytes_of s) = length s"
  by (simp add: bytes_of_def)

lemma chunks_Nil [simp]: "chunks [] = []"
  by (simp add: chunks.simps)

lemma chunks_concat: "concat (map snd (chunks s)) = s"
proof (induction s rule: chunks.induct)
  case (1 s)
  then show ?case
    by (cases "s = []") (auto simp: chunks.simps [of s] split: prod.split)
qed

lemma chunks_ascii_Cons: "ascii_char c \<Longrightarrow> chunks (c # s) = (of_char c, [c]) # chunks s"
  by (subst chunks.simps) (simp add: decode_rune_def byte_at_def ascii_char_def)

lemma chunks_ascii: "is_ascii s \<Longrightarrow> chunks s = map (\<lambda>c. (of_char c, [c])) s"
  by (induction s) (auto simp: is_ascii_def chunks_ascii_Cons)

text \<open>A byte sequence with no invalid UTF-8: no byte decodes on its own to the error rune.\<close>

definition valid_utf8 :: "string \<Rightarrow> bool" where
  "valid_utf8 s \<longleftrightarrow> list_all (\<lambda>(r, b). \<not> (r = rune_error \<and> length b = 1)) (chunks s)"

lemma valid_utf8_ascii: "is_ascii s \<Longrightarrow> valid_utf8 s"
  by (auto simp: valid_utf8_def chunks_ascii list_all_iff is_ascii_def ascii_char_def rune_error_def)

lemma runes_ascii: "is_ascii s \<Longrightarrow> runes s = map of_char s"
  by (simp add: runes_def chunks_ascii)

lemma encode_rune_ascii: "r < 128 \<Longrightarrow> encode_rune r = [char_of r]"
  by (simp add: encode_rune_def in_range_def)

lemma ascii_upper_bound: "r < 128 \<Longrightarrow> ascii_upper r < 128"
  by (auto simp: ascii_upper_def in_range_def)

lemma ascii_lower_bound: "r < 128 \<Longrightarrow> ascii_lower r < 128"
  by (auto simp: ascii_lower_def in_range_def)

lemma ascii_upper_lower: "ascii_upper a = ascii_upper b \<Longrightarrow> ascii_lower a = ascii_lower b"
  by (auto simp: ascii_upper_def ascii_lower_def in_range_def split: if_splits)

lemma ToUpper_ascii: "is_ascii s \<Longrightarrow> ToUpper U s = map (\<lambda>c. char_of (ascii_upper (of_char c))) s"
  by (induction s)
    (auto simp: ToUpper_def runes_ascii is_ascii_def list_all_iff ascii_char_def
      rune_upper_def encode_rune_ascii ascii_upper_bound)

lemma ToLower_ascii: "is_ascii s \<Longrightarrow> ToLower U s = map (\<lambda>c. char_of (ascii_lower (of_char c))) s"
  by (induction s)
    (auto simp: ToLower_def runes_ascii is_ascii_def list_all_iff ascii_char_def
      rune_lower_def encode_rune_ascii ascii_lower_bound)

lemma ascii_char_of: "r < 128 \<Longrightarrow> of_char (char_of r :: char) = (r :: nat)"
  by (simp add: of_char_of)

lemma ascii_upper_char_eq:
  assumes "ascii_char c" and "ascii_char d"
    and "(char_of (ascii_upper (of_char c)) :: char) = char_of (ascii_upper (of_char d))"
  shows "ascii_lower (of_char c) = ascii_lower (of_char d)"
proof (rule ascii_upper_lower)
  have "ascii_upper (of_char c) < 128" "ascii_upper (of_char d) < 128"
    using assms(1,2) by (simp_all add: ascii_char_def ascii_upper_bound)
  then show "ascii_upper (of_char c) = ascii_upper (of_char d)"
    using arg_cong [OF assms(3), of "of_char :: char \<Rightarrow> nat"] by (simp add: ascii_char_of)
qed

lemma ascii_fold_list:
  assumes "map (\<lambda>c. char_of (ascii_upper (of_char c)) :: char) s =
      map (\<lambda>c. char_of (ascii_upper (of_char c))) t"
    and "is_ascii s" and "is_ascii t"
  shows "list_all2 (rune_fold U) (map of_char s) (map of_char t)"
  using assms
proof (induction s arbitrary: t)
  case (Cons c s)
  then obtain d t' where t: "t = d # t'" by (cases t) auto
  have "rune_fold U (of_char c) (of_char d)"
    using Cons.prems t ascii_upper_char_eq [of c d]
    by (simp add: rune_fold_def is_ascii_def ascii_char_def)
  moreover have "list_all2 (rune_fold U) (map of_char s) (map of_char t')"
    using Cons.prems t by (intro Cons.IH) (simp_all add: is_ascii_def)
  ultimately show ?case by (simp add: t)
qed simp

text \<open>Upper-casing decides case-insensitive equality of ASCII strings, as \<^verbatim>\<open>EqualFold\<close> does.\<close>

lemma ToUpper_EqualFold:
  assumes "is_ascii s" and "is_ascii t" and "ToUpper U s = ToUpper U t"
  shows "EqualFold U s t"
  using ascii_fold_list [of s t U] assms
  by (simp add: ToUpper_ascii EqualFold_def runes_ascii)

lemma EqualFold_refl: "EqualFold U s s"
  by (simp add: EqualFold_def rune_fold_def list_all2_refl)

lemma HasPrefix_append [simp]: "HasPrefix (p @ s) p"
  by (simp add: HasPrefix_def)

lemma HasPrefix_iff: "HasPrefix s p \<longleftrightarrow> (\<exists>t. s = p @ t)"
  by (metis HasPrefix_append HasPrefix_def append_take_drop_id)

lemma TrimPrefix_append [simp]: "TrimPrefix (p @ s) p = s"
  by (simp add: TrimPrefix_def)

lemma HasSuffix_iff: "HasSuffix s p \<longleftrightarrow> (\<exists>t. s = t @ p)"
  by (auto simp: HasSuffix_def) (metis append_take_drop_id)

lemma split_on_ne [simp]: "split_on c s \<noteq> []"
  by (cases s) (auto split: list.split)

lemma split_on_no_sep: "c \<notin> set p \<Longrightarrow> split_on c p = [p]"
  by (induction p) auto

lemma split_on_append: "c \<notin> set p \<Longrightarrow> split_on c (p @ c # s) = p # split_on c s"
  by (induction p) auto

lemma split_on_parts: "p \<in> set (split_on c s) \<Longrightarrow> c \<notin> set p"
  by (induction c s arbitrary: p rule: split_on.induct) (auto split: if_splits list.splits)

text \<open>Splitting loses nothing: the pieces joined by the separator give the string back.\<close>

fun join_with :: "char \<Rightarrow> string list \<Rightarrow> string" where
  "join_with c [] = []"
| "join_with c [p] = p"
| "join_with c (p # q # ps) = p @ c # join_with c (q # ps)"

lemma join_with_Cons: "ps \<noteq> [] \<Longrightarrow> join_with c (p # ps) = p @ c # join_with c ps"
  by (cases ps) auto

lemma join_split_on: "join_with c (split_on c s) = s"
proof (induction c s rule: split_on.induct)
  case (2 c x xs)
  then show ?case
    by (cases "split_on c xs") (auto simp: join_with_Cons split: list.splits, case_tac list, auto)
qed simp

lemma last_index_None: "last_index c s = None \<longleftrightarrow> c \<notin> set s"
  by (induction s) (auto split: option.splits)

lemma last_index_append: "c \<notin> set t \<Longrightarrow> last_index c (s @ c # t) = Some (length s)"
  by (induction s) (auto simp: last_index_None split: option.splits)

lemma last_index_Some:
  "last_index c s = Some i \<Longrightarrow> \<exists>p t. s = p @ c # t \<and> length p = i \<and> c \<notin> set t"
proof (induction s arbitrary: i)
  case (Cons x xs)
  show ?case
  proof (cases "last_index c xs")
    case None
    with Cons.prems show ?thesis
      by (auto simp: last_index_None split: if_splits)
  next
    case (Some j)
    with Cons.IH obtain p t where "xs = p @ c # t" "length p = j" "c \<notin> set t" by blast
    with Cons.prems Some show ?thesis
      by (intro exI [of _ "x # p"] exI [of _ t]) auto
  qed
qed simp

lemma dropWhile_both_id:
  assumes "xs \<noteq> []" and "\<not> P (hd xs)" and "\<not> P (last xs)"
  shows "rev (dropWhile P (rev (dropWhile P xs))) = xs"
proof -
  have "dropWhile P xs = xs" using assms by (cases xs) auto
  moreover have "dropWhile P (rev xs) = rev xs"
    using assms by (cases xs rule: rev_cases) auto
  ultimately show ?thesis by simp
qed

text \<open>A string that neither starts nor ends with ASCII white space is left alone by \<^verbatim>\<open>TrimSpace\<close>.\<close>

lemma TrimSpace_id:
  assumes "is_ascii s" and "s \<noteq> []"
    and "\<not> rune_space U (of_char (hd s))" and "\<not> rune_space U (of_char (last s))"
  shows "TrimSpace U s = s"
  using assms dropWhile_both_id [of "chunks s" "\<lambda>p. rune_space U (fst p)"] chunks_concat [of s]
  by (simp add: TrimSpace_def chunks_ascii hd_map last_map)

section \<open>Strings and bytes\<close>

definition string_of :: "bytes \<Rightarrow> string" where
  "string_of bs = map (\<lambda>b. char_of (unat b)) bs"

lemma unat_of_char: "unat (of_char c :: byte) = of_char c"
proof -
  have "(of_char c :: byte) = of_nat (of_char c)" by (rule of_nat_of_char [symmetric])
  then show ?thesis
    using nat_of_char_less_256 [of c] by (simp add: unat_of_nat)
qed

lemma string_of_bytes_of [simp]: "string_of (bytes_of s) = s"
  by (induction s) (simp_all add: string_of_def bytes_of_def unat_of_char)

lemma string_of_append: "string_of (a @ b) = string_of a @ string_of b"
  by (simp add: string_of_def)

lemma bytes_of_inject [simp]: "bytes_of s = bytes_of t \<longleftrightarrow> s = t"
  by (metis string_of_bytes_of)

section \<open>Decimal notation\<close>

definition digit_char :: "nat \<Rightarrow> char" where
  "digit_char d = char_of (48 + d)"

fun decimal :: "nat \<Rightarrow> string" where
  "decimal n = (if n < 10 then [digit_char n] else decimal (n div 10) @ [digit_char (n mod 10)])"

definition FormatInt :: "int \<Rightarrow> string" where
  "FormatInt n = (if n < 0 then CHR ''-'' # decimal (nat (- n)) else decimal (nat n))"

declare decimal.simps [simp del]

lemma digit_val_char: "d < 10 \<Longrightarrow> digit_val (digit_char d) = Some d"
  by (simp add: digit_val_def digit_char_def of_char_of in_range_def)

lemma digits_val_append:
  "digits_val acc (xs @ ys) = Option.bind (digits_val acc xs) (\<lambda>v. digits_val v ys)"
  by (induction xs arbitrary: acc) (auto split: option.split)

lemma digits_val_decimal: "digits_val 0 (decimal n) = Some (int n)"
proof (induction n rule: decimal.induct)
  case (1 n)
  then show ?case
    by (cases "n < 10")
      (simp_all add: decimal.simps [of n] digits_val_append digit_val_char zdiv_int zmod_int)
qed

lemma decimal_digits: "c \<in> set (decimal n) \<Longrightarrow> digit_val c \<noteq> None"
proof (induction n rule: decimal.induct)
  case (1 n)
  then show ?case
    by (cases "n < 10") (auto simp: decimal.simps [of n] digit_val_char)
qed

lemma decimal_ne [simp]: "decimal n \<noteq> []"
  by (simp add: decimal.simps [of n])

lemma digit_val_not:
  "digit_val c \<noteq> None \<Longrightarrow> c \<noteq> CHR ''.''" "digit_val c \<noteq> None \<Longrightarrow> c \<noteq> CHR ''-''"
  "digit_val c \<noteq> None \<Longrightarrow> c \<noteq> CHR ''+''" "digit_val c \<noteq> None \<Longrightarrow> c \<noteq> CHR '':''"
  by (auto simp: digit_val_def in_range_def)

lemma digit_val_ascii: "digit_val c \<noteq> None \<Longrightarrow> ascii_char c \<and> \<not> rune_space U (of_char c)"
  by (auto simp: digit_val_def ascii_char_def rune_space_def in_range_def Let_def split: if_splits)

lemma Atoi_decimal: "int n \<le> max_int64 \<Longrightarrow> Atoi (decimal n) = Some (int n)"
proof -
  assume n: "int n \<le> max_int64"
  obtain c cs where cs: "decimal n = c # cs" by (cases "decimal n") auto
  with decimal_digits [of c n] have "digit_val c \<noteq> None" by simp
  then have "\<not> HasPrefix (decimal n) ''-''" "\<not> HasPrefix (decimal n) ''+''"
    by (auto simp: cs HasPrefix_def digit_val_def in_range_def)
  with n show ?thesis
    by (simp add: Atoi_def digits_val_decimal in_int64_def min_int64_def)
qed

lemma Atoi_range: "Atoi s = Some n \<Longrightarrow> in_int64 n"
  by (auto simp: Atoi_def Let_def split: if_splits option.splits)

end
