(* ===== verification/Go_Base64.thy ===== *)
theory Go_Base64
  imports Go_Strings
begin

text \<open>
  Package \<^verbatim>\<open>encoding/base64\<close>: the encodings \<^verbatim>\<open>StdEncoding\<close> (with padding) and
  \<^verbatim>\<open>RawURLEncoding\<close> (without), in the non-strict decoding mode Go uses by default: carriage
  returns and line feeds are skipped anywhere, and the unused low bits of the last sextet are not
  checked. The locale \<open>text_codec\<close> states what the clients rely on; both encodings
  interpret it.
\<close>

section \<open>Encoding and decoding\<close>

definition std_alphabet :: string where
  "std_alphabet = ''ABCDEFGHIJKLMNOPQRSTUVWXYZabcdefghijklmnopqrstuvwxyz0123456789+/''"

definition url_alphabet :: string where
  "url_alphabet = ''ABCDEFGHIJKLMNOPQRSTUVWXYZabcdefghijklmnopqrstuvwxyz0123456789-_''"

fun index_of :: "char \<Rightarrow> string \<Rightarrow> nat option" where
  "index_of c [] = None"
| "index_of c (x # xs) = (if x = c then Some 0 else map_option Suc (index_of c xs))"

fun b64_encode :: "string \<Rightarrow> bool \<Rightarrow> bytes \<Rightarrow> string" where
  "b64_encode al pad [] = []"
| "b64_encode al pad [a] =
     [al ! (unat a div 4), al ! (unat a mod 4 * 16)] @ (if pad then ''=='' else [])"
| "b64_encode al pad [a, b] =
     [al ! (unat a div 4), al ! (unat a mod 4 * 16 + unat b div 16), al ! (unat b mod 16 * 4)]
     @ (if pad then ''='' else [])"
| "b64_encode al pad (a # b # c # r) =
     [al ! (unat a div 4), al ! (unat a mod 4 * 16 + unat b div 16),
      al ! (unat b mod 16 * 4 + unat c div 64), al ! (unat c mod 64)]
     @ b64_encode al pad r"

definition byte1 :: "nat \<Rightarrow> nat \<Rightarrow> byte" where
  "byte1 i j = of_nat (i * 4 + j div 16)"

definition byte2 :: "nat \<Rightarrow> nat \<Rightarrow> byte" where
  "byte2 j k = of_nat (j mod 16 * 16 + k div 4)"

definition byte3 :: "nat \<Rightarrow> nat \<Rightarrow> byte" where
  "byte3 k l = of_nat (k mod 4 * 64 + l)"

definition dec2 :: "string \<Rightarrow> char \<Rightarrow> char \<Rightarrow> bytes option" where
  "dec2 al a b = (case (index_of a al, index_of b al) of
     (Some i, Some j) \<Rightarrow> Some [byte1 i j] | _ \<Rightarrow> None)"

definition dec3 :: "string \<Rightarrow> char \<Rightarrow> char \<Rightarrow> char \<Rightarrow> bytes option" where
  "dec3 al a b c = (case (index_of a al, index_of b al, index_of c al) of
     (Some i, Some j, Some k) \<Rightarrow> Some [byte1 i j, byte2 j k] | _ \<Rightarrow> None)"

definition dec4 :: "string \<Rightarrow> char \<Rightarrow> char \<Rightarrow> char \<Rightarrow> char \<Rightarrow> bytes option" where
  "dec4 al a b c d = (case (index_of a al, index_of b al, index_of c al, index_of d al) of
     (Some i, Some j, Some k, Some l) \<Rightarrow> Some [byte1 i j, byte2 j k, byte3 k l] | _ \<Rightarrow> None)"

fun dec_quanta :: "string \<Rightarrow> bool \<Rightarrow> string \<Rightarrow> bytes option" where
  "dec_quanta al pad [] = Some []"
| "dec_quanta al pad [a] = None"
| "dec_quanta al pad [a, b] = (if pad then None else dec2 al a b)"
| "dec_quanta al pad [a, b, c] = (if pad then None else dec3 al a b c)"
| "dec_quanta al pad (a # b # c # d # r) =
     (if pad \<and> r = [] \<and> d = CHR ''='' then
        (if c = CHR ''='' then dec2 al a b else dec3 al a b c)
      else case dec4 al a b c d of
        None \<Rightarrow> None
      | Some x \<Rightarrow> map_option (\<lambda>y. x @ y) (dec_quanta al pad r))"

definition newline_char :: "char \<Rightarrow> bool" where
  "newline_char c \<longleftrightarrow> of_char c = (10 :: nat) \<or> of_char c = (13 :: nat)"

definition b64_decode :: "string \<Rightarrow> bool \<Rightarrow> string \<Rightarrow> bytes option" where
  "b64_decode al pad s = dec_quanta al pad (filter (\<lambda>c. \<not> newline_char c) s)"

definition StdEncoding_EncodeToString :: "bytes \<Rightarrow> string" where
  "StdEncoding_EncodeToString = b64_encode std_alphabet True"

definition StdEncoding_DecodeString :: "string \<Rightarrow> bytes option" where
  "StdEncoding_DecodeString = b64_decode std_alphabet True"

definition RawURLEncoding_EncodeToString :: "bytes \<Rightarrow> string" where
  "RawURLEncoding_EncodeToString = b64_encode url_alphabet False"

definition RawURLEncoding_DecodeString :: "string \<Rightarrow> bytes option" where
  "RawURLEncoding_DecodeString = b64_decode url_alphabet False"

section \<open>The round trip\<close>

definition good_alphabet :: "string \<Rightarrow> bool" where
  "good_alphabet al \<longleftrightarrow> length al = 64 \<and> distinct al \<and>
     list_all (\<lambda>c. \<not> newline_char c \<and> c \<noteq> CHR ''='') al"

lemma good_std: "good_alphabet std_alphabet"
  by (simp add: good_alphabet_def std_alphabet_def newline_char_def)

lemma good_url: "good_alphabet url_alphabet"
  by (simp add: good_alphabet_def url_alphabet_def newline_char_def)

lemma index_of_nth: "distinct xs \<Longrightarrow> i < length xs \<Longrightarrow> index_of (xs ! i) xs = Some i"
proof (induction xs arbitrary: i)
  case (Cons x xs)
  then show ?case by (cases i) (auto simp: nth_mem)
qed simp

lemma index_of_good: "good_alphabet al \<Longrightarrow> i < 64 \<Longrightarrow> index_of (al ! i) al = Some i"
  by (simp add: good_alphabet_def index_of_nth)

lemma nth_good: "good_alphabet al \<Longrightarrow> i < 64 \<Longrightarrow> \<not> newline_char (al ! i) \<and> al ! i \<noteq> CHR ''=''"
  by (auto simp: good_alphabet_def list_all_iff)

lemma byte_lt_256: "unat (a :: byte) < 256"
  using unsigned_less [of a] by simp

lemma sextet_bounds:
  "unat (a :: byte) div 4 < 64" "unat a mod 4 * 16 < 64"
  "unat a mod 4 * 16 + unat (b :: byte) div 16 < 64" "unat b mod 16 * 4 < 64"
  "unat b mod 16 * 4 + unat (c :: byte) div 64 < 64" "unat c mod 64 < 64"
  using byte_lt_256 [of a] byte_lt_256 [of b] byte_lt_256 [of c] by linarith+

lemma quantum_div: "(k :: nat) < n \<Longrightarrow> (m * n + k) div n = m" "k < n \<Longrightarrow> (m * n + k) mod n = k"
  by simp_all

lemma byte1_enc: "byte1 (unat a div 4) (unat a mod 4 * 16) = a"
  "byte1 (unat a div 4) (unat a mod 4 * 16 + unat (b :: byte) div 16) = a"
  using byte_lt_256 [of b]
  by (simp_all add: byte1_def quantum_div less_mult_imp_div_less)

lemma byte2_enc: "byte2 (unat a mod 4 * 16 + unat b div 16) (unat b mod 16 * 4) = b"
  "byte2 (unat a mod 4 * 16 + unat b div 16) (unat b mod 16 * 4 + unat (c :: byte) div 64) = b"
  for a b :: byte
  using byte_lt_256 [of b] byte_lt_256 [of c]
  by (simp_all add: byte2_def quantum_div less_mult_imp_div_less)

lemma byte3_enc: "byte3 (unat (b :: byte) mod 16 * 4 + unat c div 64) (unat c mod 64) = c"
  using byte_lt_256 [of c]
  by (simp add: byte3_def quantum_div less_mult_imp_div_less)

lemmas quantum_simps = sextet_bounds byte1_enc byte2_enc byte3_enc

lemma b64_encode_chars:
  "good_alphabet al \<Longrightarrow> set (b64_encode al pad bs) \<subseteq> set al \<union> (if pad then {CHR ''=''} else {})"
  by (induction al pad bs rule: b64_encode.induct)
    (auto simp: good_alphabet_def intro!: nth_mem simp: sextet_bounds)

lemma dec_quanta_encode:
  assumes "good_alphabet al"
  shows "dec_quanta al pad (b64_encode al pad bs) = Some bs"
  using assms
proof (induction al pad bs rule: b64_encode.induct)
  case (2 al pad a)
  then show ?case
    by (simp add: dec2_def index_of_good quantum_simps)
next
  case (3 al pad a b)
  then show ?case
    using nth_good [of al "unat b mod 16 * 4"]
    by (simp add: dec3_def index_of_good quantum_simps)
next
  case (4 al pad a b c r)
  then show ?case
    using nth_good [of al "unat c mod 64"]
    by (simp add: dec4_def index_of_good quantum_simps)
qed simp

lemma b64_round_trip:
  assumes "good_alphabet al"
  shows "b64_decode al pad (b64_encode al pad bs) = Some bs"
proof -
  have "\<forall>c \<in> set (b64_encode al pad bs). \<not> newline_char c"
  proof
    fix c assume "c \<in> set (b64_encode al pad bs)"
    then have "c \<in> set al \<or> c = CHR ''=''"
      using b64_encode_chars [OF assms, of pad bs] by (auto split: if_splits)
    moreover have "\<not> newline_char CHR ''=''" by (simp add: newline_char_def)
    ultimately show "\<not> newline_char c"
      using assms by (auto simp: good_alphabet_def list_all_iff)
  qed
  then show ?thesis
    using dec_quanta_encode [OF assms] by (simp add: b64_decode_def filter_id_conv)
qed

lemma length_b64_encode_pad: "length (b64_encode al True bs) = 4 * ((length bs + 2) div 3)"
proof (induction al True bs rule: b64_encode.induct)
  case (4 al a b c r)
  have "(length (a # b # c # r) + 2) div 3 = (length r + 2) div 3 + 1" by simp
  with 4 show ?case by simp
qed simp_all

lemma length_b64_encode_raw: "length (b64_encode al False bs) = (4 * length bs + 2) div 3"
  by (induction al False bs rule: b64_encode.induct) auto

section \<open>What clients rely on\<close>

locale text_codec =
  fixes enc :: "'a \<Rightarrow> string"
    and dec :: "string \<Rightarrow> 'a option"
    and chars :: "char set"
  assumes dec_enc: "dec (enc b) = Some b"
    and enc_chars: "set (enc b) \<subseteq> chars"
begin

lemma enc_inject: "enc a = enc b \<longleftrightarrow> a = b"
  by (metis dec_enc option.inject)

text \<open>Three encoded parts joined by a separator outside the alphabet are recovered by splitting.\<close>

lemma split_three:
  assumes "sep \<notin> chars"
  shows "split_on sep (enc a @ sep # enc b @ sep # enc c) = [enc a, enc b, enc c]"
proof -
  have "sep \<notin> set (enc x)" for x
    using assms enc_chars by blast
  then show ?thesis by (simp add: split_on_append split_on_no_sep)
qed

end

interpretation std64: text_codec StdEncoding_EncodeToString StdEncoding_DecodeString
  "set std_alphabet \<union> {CHR ''=''}"
  by unfold_locales
    (use b64_encode_chars [OF good_std, of True] in
      \<open>auto simp: StdEncoding_EncodeToString_def StdEncoding_DecodeString_def
        b64_round_trip [OF good_std]\<close>)

interpretation url64: text_codec RawURLEncoding_EncodeToString RawURLEncoding_DecodeString
  "set url_alphabet"
  by unfold_locales
    (use b64_encode_chars [OF good_url, of False] in
      \<open>auto simp: RawURLEncoding_EncodeToString_def RawURLEncoding_DecodeString_def
        b64_round_trip [OF good_url]\<close>)

lemma dot_not_url: "CHR ''.'' \<notin> set url_alphabet"
  by (simp add: url_alphabet_def)

lemma std64_eq_Nil: "StdEncoding_EncodeToString b = [] \<longleftrightarrow> b = []"
  using length_b64_encode_pad [of std_alphabet b]
  by (cases b) (auto simp: StdEncoding_EncodeToString_def)

lemma url64_eq_Nil: "RawURLEncoding_EncodeToString b = [] \<longleftrightarrow> b = []"
  using length_b64_encode_raw [of url_alphabet b]
  by (cases b) (auto simp: RawURLEncoding_EncodeToString_def)

end
