(* ===== verification/Platform.thy ===== *)
theory Platform
  imports Exceptions Go_Base64
begin

text \<open>
  What the sources take from Go's cryptographic and X.509 packages: the data types they read,
  big-endian integers, and the record \<open>platform\<close> of the operations that stay parameters of
  the model (hash functions, signature verification, certificate parsing and path building, PEM
  decoding, URL parsing, the Unicode tables). Every definition that calls one takes the
  record as its first argument, so a theorem without hypotheses on it holds whatever these
  operations do.
\<close>

section \<open>Big-endian integers\<close>

definition SetBytes :: "bytes \<Rightarrow> nat" where
  "SetBytes bs = foldl (\<lambda>a b. a * 256 + unat b) 0 bs"

fun FillBytes :: "nat \<Rightarrow> nat \<Rightarrow> bytes" where
  "FillBytes 0 n = []"
| "FillBytes (Suc k) n = FillBytes k (n div 256) @ [of_nat (n mod 256)]"

section \<open>Hash functions and keys\<close>

datatype crypto_hash = SHA224 | SHA256 | SHA384 | SHA512

fun hash_Size :: "crypto_hash \<Rightarrow> nat" where
  "hash_Size SHA224 = 28"
| "hash_Size SHA256 = 32"
| "hash_Size SHA384 = 48"
| "hash_Size SHA512 = 64"

datatype curve = P224 | P256 | P384 | P521

fun BitSize :: "curve \<Rightarrow> nat" where
  "BitSize P224 = 224"
| "BitSize P256 = 256"
| "BitSize P384 = 384"
| "BitSize P521 = 521"

definition coord_len :: "curve \<Rightarrow> nat" where
  "coord_len c = (BitSize c + 7) div 8"

record ec_public =
  Curve :: curve
  ecX :: nat
  ecY :: nat

record rsa_public =
  rsaN :: nat
  rsaE :: nat

datatype public_key = RSAPublicKey rsa_public | ECDSAPublicKey ec_public | OtherPublicKey

section \<open>Certificates\<close>

type_synonym oid = "int list"

record pkix_extension =
  ext_Id :: oid
  ext_Value :: bytes

datatype attr_value = StringValue string | OtherValue

record pkix_attribute =
  attr_Type :: oid
  attr_Value :: attr_value

record pkix_name =
  CommonName :: string
  SubjectSerialNumber :: string
  Country :: "string list"
  Names :: "pkix_attribute list"

type_synonym ext_key_usage = int
type_synonym key_usage = "64 word"

definition ExtKeyUsageAny :: ext_key_usage where "ExtKeyUsageAny = 0"
definition ExtKeyUsageClientAuth :: ext_key_usage where "ExtKeyUsageClientAuth = 2"
definition KeyUsageDigitalSignature :: key_usage where "KeyUsageDigitalSignature = 1"
definition KeyUsageContentCommitment :: key_usage where "KeyUsageContentCommitment = 2"

record x509_cert =
  Raw :: bytes
  RawSubject :: bytes
  RawSubjectPublicKeyInfo :: bytes
  PublicKey :: public_key
  SerialNumber :: int
  Subject :: pkix_name
  NotBefore :: time
  NotAfter :: time
  KeyUsage :: key_usage
  ExtKeyUsage :: "ext_key_usage list"
  Extensions :: "pkix_extension list"
  OCSPServer :: "string list"

section \<open>URLs\<close>

record url =
  url_Scheme :: string
  url_Host :: string
  url_Path :: string
  url_RawQuery :: string
  url_Fragment :: string

text \<open>\<^verbatim>\<open>(*url.URL).Hostname\<close>: the host without a valid port and without IPv6 brackets.\<close>

definition validOptionalPort :: "string \<Rightarrow> bool" where
  "validOptionalPort p \<longleftrightarrow>
     p = [] \<or> (hd p = CHR '':'' \<and> list_all (\<lambda>c. digit_val c \<noteq> None) (tl p))"

definition Hostname :: "url \<Rightarrow> string" where
  "Hostname u =
     (let h = url_Host u;
          h1 = (case last_index CHR '':'' h of
                  Some i \<Rightarrow> if validOptionalPort (drop i h) then take i h else h
                | None \<Rightarrow> h)
      in if HasPrefix h1 ''['' \<and> HasSuffix h1 '']'' then butlast (tl h1) else h1)"

section \<open>The platform\<close>

record pem_block =
  pem_Type :: string
  pem_Bytes :: bytes

record platform =
  tables :: unicode
  hash_sum :: "crypto_hash \<Rightarrow> bytes \<Rightarrow> bytes"
  ecdsa_Verify :: "ec_public \<Rightarrow> bytes \<Rightarrow> nat \<Rightarrow> nat \<Rightarrow> bool"
  rsa_VerifyPSS :: "rsa_public \<Rightarrow> crypto_hash \<Rightarrow> bytes \<Rightarrow> bytes \<Rightarrow> goerror option"
  rsa_VerifyPKCS1v15 :: "rsa_public \<Rightarrow> crypto_hash \<Rightarrow> bytes \<Rightarrow> bytes \<Rightarrow> goerror option"
  ParseCertificate :: "bytes \<Rightarrow> x509_cert result"
  CheckSignatureFrom :: "x509_cert \<Rightarrow> x509_cert \<Rightarrow> goerror option"
  chain_Verify :: "x509_cert \<Rightarrow> x509_cert list \<Rightarrow> time \<Rightarrow> ext_key_usage list \<Rightarrow> goerror option"
  pem_Decode :: "bytes \<Rightarrow> (pem_block \<times> bytes) option"
  url_Parse :: "string \<Rightarrow> url result"

text \<open>
  \<^verbatim>\<open>crypto.Hash.Available\<close>: the packages import \<^verbatim>\<open>crypto/sha256\<close> and \<^verbatim>\<open>crypto/sha512\<close>,
  which register the four SHA-2 functions.
\<close>

definition Available :: "crypto_hash \<Rightarrow> bool" where
  "Available h \<longleftrightarrow> h \<in> {SHA224, SHA256, SHA384, SHA512}"

definition base64_error :: goerror where
  "base64_error = ErrorString ''illegal base64 data''"

section \<open>Lemmas\<close>

lemma Available [simp]: "Available h"
  by (cases h) (simp_all add: Available_def)

lemma SetBytes_Nil [simp]: "SetBytes [] = 0"
  by (simp add: SetBytes_def)

lemma SetBytes_snoc [simp]: "SetBytes (bs @ [b]) = SetBytes bs * 256 + unat b"
  by (simp add: SetBytes_def)

lemma length_FillBytes [simp]: "length (FillBytes k n) = k"
  by (induction k n rule: FillBytes.induct) auto

lemma SetBytes_bound: "SetBytes bs < 256 ^ length bs"
proof (induction bs rule: rev_induct)
  case (snoc b bs)
  have "SetBytes bs * 256 + unat b < Suc (SetBytes bs) * 256"
    using byte_lt_256 [of b] by simp
  also have "\<dots> \<le> 256 ^ length bs * 256"
    using snoc by (intro mult_le_mono1) simp
  finally show ?case by simp
qed simp

lemma SetBytes_FillBytes: "SetBytes (FillBytes k n) = n mod 256 ^ k"
proof (induction k n rule: FillBytes.induct)
  case (2 k n)
  have "unat (of_nat (n mod 256) :: byte) = n mod 256"
    by (simp add: unat_of_nat)
  then show ?case
    using 2 by (simp add: mod_mult2_eq ac_simps)
qed simp

lemma SetBytes_FillBytes_id: "n < 256 ^ k \<Longrightarrow> SetBytes (FillBytes k n) = n"
  by (simp add: SetBytes_FillBytes)

lemma FillBytes_SetBytes: "FillBytes (length bs) (SetBytes bs) = bs"
proof (induction bs rule: rev_induct)
  case (snoc b bs)
  have "(SetBytes bs * 256 + unat b) div 256 = SetBytes bs"
    using byte_lt_256 [of b] by simp
  moreover have "(SetBytes bs * 256 + unat b) mod 256 = unat b"
    using byte_lt_256 [of b] by simp
  ultimately show ?case using snoc by simp
qed simp

lemma SetBytes_inject: "length a = length b \<Longrightarrow> SetBytes a = SetBytes b \<longleftrightarrow> a = b"
  by (metis FillBytes_SetBytes)

text \<open>Leading zero bytes do not change the integer.\<close>

lemma SetBytes_zeros: "SetBytes (replicate k 0 @ bs) = SetBytes bs"
proof (induction bs rule: rev_induct)
  case Nil
  show ?case by (induction k) (auto simp flip: replicate_append_same)
next
  case (snoc b bs)
  then show ?case by (simp flip: append_assoc)
qed

lemma Hostname_plain:
  assumes "CHR '':'' \<notin> set (url_Host u)" and "\<not> HasPrefix (url_Host u) ''[''"
  shows "Hostname u = url_Host u"
  using assms by (simp add: Hostname_def last_index_None [THEN iffD2])

section \<open>A sample platform\<close>

text \<open>
  A small concrete platform on which the operations can be evaluated: two certificates, a leaf
  (encoded as the single byte 1) issued by a CA (byte 2); the hash is the identity, and an RSA
  signature of a digest is the digest reversed; an origin is \<^verbatim>\<open>https://\<close> and a host. It shows
  that hypotheses on the parameters can hold together.
\<close>

definition sample_unicode :: unicode where
  "sample_unicode = \<lparr>uni_ToUpper = (\<lambda>r. r), uni_ToLower = (\<lambda>r. r), uni_IsSpace = (\<lambda>_. False),
     uni_Fold = (=)\<rparr>"

definition sample_cert :: "bytes \<Rightarrow> x509_cert" where
  "sample_cert raw =
     \<lparr>Raw = raw, RawSubject = raw, RawSubjectPublicKeyInfo = [48, 10, 48, 4, 6, 2, 42, 3, 3, 2, 0, 5],
      PublicKey = RSAPublicKey \<lparr>rsaN = 3233, rsaE = 17\<rparr>, SerialNumber = 7,
      Subject = \<lparr>CommonName = ''KALNINA,LIGA'', SubjectSerialNumber = ''PNOLV-1'', Country = [''LV''],
                 Names = [\<lparr>attr_Type = [2, 5, 4, 42], attr_Value = StringValue ''LIGA''\<rparr>,
                          \<lparr>attr_Type = [2, 5, 4, 4], attr_Value = StringValue ''KALNINA''\<rparr>]\<rparr>,
      NotBefore = 0, NotAfter = unix_time 4000000000, KeyUsage = 3, ExtKeyUsage = [2],
      Extensions = [], OCSPServer = [''http://ocsp.test'']\<rparr>"

definition sample_parse :: "bytes \<Rightarrow> x509_cert result" where
  "sample_parse der = (if der = [1] \<or> der = [2] then Inr (sample_cert der)
     else Inl (ErrorString ''x509: malformed certificate''))"

definition sample_url :: "string \<Rightarrow> url result" where
  "sample_url s =
     (if HasPrefix s ''https://''
      then Inr \<lparr>url_Scheme = ''https'', url_Host = TrimPrefix s ''https://'', url_Path = [],
                url_RawQuery = [], url_Fragment = []\<rparr>
      else Inl (ErrorString ''parse: missing protocol scheme''))"

text \<open>A PEM block of the sample: a length byte that is 1 or more, and that many bytes of content.\<close>

definition sample_pem :: "bytes \<Rightarrow> (pem_block \<times> bytes) option" where
  "sample_pem d =
     (case d of
        [] \<Rightarrow> None
      | n # rest \<Rightarrow> if n = 0 then None
          else Some (\<lparr>pem_Type = ''CERTIFICATE'', pem_Bytes = take (unat n) rest\<rparr>, drop (unat n) rest))"

definition sample_platform :: platform where
  "sample_platform =
     \<lparr>tables = sample_unicode, hash_sum = (\<lambda>h d. d),
      ecdsa_Verify = (\<lambda>k d r s. r = 1 \<and> s = 2),
      rsa_VerifyPSS = (\<lambda>k h d sig. if sig = rev d then None else Some (ErrorString ''rsa: verification error'')),
      rsa_VerifyPKCS1v15 =
        (\<lambda>k h d sig. if sig = rev d then None else Some (ErrorString ''rsa: verification error'')),
      ParseCertificate = sample_parse,
      CheckSignatureFrom = (\<lambda>c ca. if Raw ca = [2] then None else Some (ErrorString ''x509: not the issuer'')),
      chain_Verify = (\<lambda>c pool t kus. if list_ex (\<lambda>ca. Raw ca = [2]) pool then None
        else Some (ErrorString ''x509: certificate signed by unknown authority'')),
      pem_Decode = sample_pem, url_Parse = sample_url\<rparr>"

lemmas sample_defs [env_simps] = sample_unicode_def sample_cert_def sample_parse_def sample_url_def
  sample_pem_def sample_platform_def

end
