(* ===== verification/Signature.thy ===== *)
theory Signature
  imports Platform
begin

text \<open>
  Package \<^verbatim>\<open>signature\<close> (\<^verbatim>\<open>src/signature/verify.go\<close>, \<^verbatim>\<open>errors.go\<close>): the JWA algorithm
  table and the verification of an authentication-token signature, ECDSA in raw P1363 form and
  RSA in PKCS#1 v1.5 or PSS form.
\<close>

section \<open>Model\<close>

definition errUnsupportedKey :: goerror where
  "errUnsupportedKey = ErrorString ''unsupported public key type''"

fun hash_String :: "crypto_hash \<Rightarrow> string" where
  "hash_String SHA224 = ''SHA-224''"
| "hash_String SHA256 = ''SHA-256''"
| "hash_String SHA384 = ''SHA-384''"
| "hash_String SHA512 = ''SHA-512''"

definition errInvalidP1363Length_Error :: "int \<Rightarrow> int \<Rightarrow> string" where
  "errInvalidP1363Length_Error got want =
     ''invalid ECDSA P1363 signature length: got '' @ FormatInt got @ '', want '' @ FormatInt want"

definition errHashUnavailable :: "crypto_hash \<Rightarrow> goerror" where
  "errHashUnavailable h = FmtError ''hash function %v is not available'' [hash_String h] None"

definition jwaToHash :: "string \<rightharpoonup> crypto_hash" where
  "jwaToHash = map_of
     [(''RS256'', SHA256), (''RS384'', SHA384), (''RS512'', SHA512),
      (''PS256'', SHA256), (''PS384'', SHA384), (''PS512'', SHA512),
      (''ES256'', SHA256), (''ES384'', SHA384), (''ES512'', SHA512)]"

definition IsSupportedAlgorithm :: "string \<Rightarrow> bool" where
  "IsSupportedAlgorithm algorithm \<longleftrightarrow> jwaToHash algorithm \<noteq> None"

definition HashFor :: "string \<Rightarrow> crypto_hash option" where
  "HashFor algorithm = jwaToHash algorithm"

definition splitP1363 :: "bytes \<Rightarrow> ec_public \<Rightarrow> (nat \<times> nat) result" where
  "splitP1363 sig pub =
     (let byteLen = coord_len (Curve pub) in
      if length sig \<noteq> 2 * byteLen
      then Inl (InvalidP1363Length (int (length sig)) (int (2 * byteLen)))
      else Inr (SetBytes (take byteLen sig), SetBytes (drop byteLen sig)))"

definition Verify :: "'a platform_scheme \<Rightarrow> x509_cert \<Rightarrow> string \<Rightarrow> bytes \<Rightarrow> bytes \<Rightarrow> goerror option"
  where
  "Verify P cert algorithm signedData signature =
     (case jwaToHash algorithm of
        None \<Rightarrow> Some (Typed ErrTokenUnsupportedFormat)
      | Some h \<Rightarrow>
          if \<not> Available h then Some (wrapped ErrTokenSignatureInvalid (errHashUnavailable h))
          else let digest = hash_sum P h signedData in
            (case PublicKey cert of
               RSAPublicKey pub \<Rightarrow>
                 if HasPrefix algorithm ''PS''
                 then map_option (wrapped ErrTokenSignatureInvalid)
                        (rsa_VerifyPSS P pub h digest signature)
                 else map_option (wrapped ErrTokenSignatureInvalid)
                        (rsa_VerifyPKCS1v15 P pub h digest signature)
             | ECDSAPublicKey pub \<Rightarrow>
                 (case splitP1363 signature pub of
                    Inl err \<Rightarrow> Some (wrapped ErrTokenSignatureInvalid err)
                  | Inr (r, s) \<Rightarrow>
                      if \<not> ecdsa_Verify P pub digest r s
                      then Some (Typed ErrTokenSignatureInvalid) else None)
             | OtherPublicKey \<Rightarrow> Some (wrapped ErrTokenSignatureInvalid errUnsupportedKey)))"

section \<open>Lemmas\<close>

lemma jwaToHash_None [simp]: "jwaToHash [] = None"
  by (simp add: jwaToHash_def)

lemma splitP1363_fixed_width:
  "splitP1363 sig pub = Inr (r, s) \<longleftrightarrow>
     r < 256 ^ coord_len (Curve pub) \<and> s < 256 ^ coord_len (Curve pub) \<and>
     sig = FillBytes (coord_len (Curve pub)) r @ FillBytes (coord_len (Curve pub)) s"
  (is "?L \<longleftrightarrow> ?R")
proof
  let ?n = "coord_len (Curve pub)"
  assume ?L
  then have len: "length sig = 2 * ?n" and r: "r = SetBytes (take ?n sig)"
    and s: "s = SetBytes (drop ?n sig)"
    by (auto simp: splitP1363_def Let_def split: if_splits)
  have "length (take ?n sig) = ?n" "length (drop ?n sig) = ?n" using len by auto
  then have "FillBytes ?n r = take ?n sig" "FillBytes ?n s = drop ?n sig"
    "r < 256 ^ ?n" "s < 256 ^ ?n"
    unfolding r s using FillBytes_SetBytes SetBytes_bound by metis+
  then show ?R by simp
next
  assume ?R
  then show ?L by (simp add: splitP1363_def SetBytes_FillBytes_id)
qed

lemma splitP1363_Inl:
  "splitP1363 sig pub = Inl e \<longleftrightarrow>
     length sig \<noteq> 2 * coord_len (Curve pub) \<and>
     e = InvalidP1363Length (int (length sig)) (int (2 * coord_len (Curve pub)))"
  by (auto simp: splitP1363_def Let_def)

lemma Verify_None:
  "Verify P cert alg data sig = None \<longleftrightarrow>
     (\<exists>h. jwaToHash alg = Some h \<and>
       ((\<exists>pub. PublicKey cert = RSAPublicKey pub \<and>
           (if HasPrefix alg ''PS'' then rsa_VerifyPSS P pub h (hash_sum P h data) sig = None
            else rsa_VerifyPKCS1v15 P pub h (hash_sum P h data) sig = None)) \<or>
        (\<exists>pub r s. PublicKey cert = ECDSAPublicKey pub \<and> splitP1363 sig pub = Inr (r, s) \<and>
           ecdsa_Verify P pub (hash_sum P h data) r s)))"
  by (auto simp: Verify_def Let_def split: option.splits public_key.splits sum.splits if_splits)

lemma Verify_reports:
  "Verify P cert alg data sig = Some e \<Longrightarrow>
     reports e ErrTokenUnsupportedFormat \<or> reports e ErrTokenSignatureInvalid"
  by (auto simp: Verify_def Let_def
      split: option.splits public_key.splits sum.splits if_splits)

section \<open>Properties\<close>

text \<open>C31: A raw ECDSA signature splits into r and s exactly when it is their fixed-width encoding: two
  big-endian integers of the curve's byte length each, no more and no less.\<close>

theorem P1363_round_trip:
  "splitP1363 sig pub = Inr (r, s) \<longleftrightarrow>
     r < 256 ^ coord_len (Curve pub) \<and> s < 256 ^ coord_len (Curve pub) \<and>
     sig = FillBytes (coord_len (Curve pub)) r @ FillBytes (coord_len (Curve pub)) s"
  by (rule splitP1363_fixed_width)


end
