(* ===== verification/Go_UTF8.thy ===== *)
theory Go_UTF8
  imports Go_Strings
begin

text \<open>
  UTF-8 as Go reads and writes it: the rune \<^verbatim>\<open>utf8.DecodeRuneInString\<close> reads from a well-formed
  character is written back by \<^verbatim>\<open>utf8.AppendRune\<close> as the same bytes and is read the same whatever
  follows it; every chunk of a string is such a character or a single malformed byte.
\<close>

section \<open>Well-formed characters\<close>

lemma decode_rune_pos: "0 < snd (decode_rune s)"
  by (simp add: decode_rune_def Let_def)

lemma byte_at_take: "i < n \<Longrightarrow> n \<le> length s \<Longrightarrow> byte_at (take n s @ t) i = byte_at s i"
  by (simp add: byte_at_def nth_append)

lemma byte_at_in: "in_range lo hi (byte_at s i) \<Longrightarrow> 0 < lo \<Longrightarrow> i < length s"
  by (auto simp: byte_at_def in_range_def split: if_splits)

lemma base64_digits:
  assumes "y < 64" and "z < 64" and "w < (64 :: nat)"
  shows "(x * 4096 + y * 64 + z) div 4096 = x" "(x * 4096 + y * 64 + z) div 64 mod 64 = y"
    "(x * 4096 + y * 64 + z) mod 64 = z"
    "(x * 262144 + y * 4096 + z * 64 + w) div 262144 = x"
    "(x * 262144 + y * 4096 + z * 64 + w) div 4096 mod 64 = y"
    "(x * 262144 + y * 4096 + z * 64 + w) div 64 mod 64 = z"
    "(x * 262144 + y * 4096 + z * 64 + w) mod 64 = w"
proof -
  have 3: "x * 4096 + y * 64 + z = (x * 64 + y) * 64 + z"
    and 4: "x * 262144 + y * 4096 + z * 64 + w = ((x * 64 + y) * 64 + z) * 64 + w" by simp_all
  have d1: "(q * 64 + c) div 64 = q" "(q * 64 + c) mod 64 = c" if "c < 64" for q c :: nat
    using that by simp_all
  have d: "n div 4096 = n div 64 div 64" "n div 262144 = n div 64 div 64 div 64" for n :: nat
    by (simp_all add: div_mult2_eq [symmetric])
  show "(x * 4096 + y * 64 + z) div 4096 = x" "(x * 4096 + y * 64 + z) div 64 mod 64 = y"
    "(x * 4096 + y * 64 + z) mod 64 = z"
    by (simp_all only: 3 d d1 assms)
  show "(x * 262144 + y * 4096 + z * 64 + w) div 262144 = x"
    "(x * 262144 + y * 4096 + z * 64 + w) div 4096 mod 64 = y"
    "(x * 262144 + y * 4096 + z * 64 + w) div 64 mod 64 = z"
    "(x * 262144 + y * 4096 + z * 64 + w) mod 64 = w"
    by (simp_all only: 4 d d1 assms)
qed

lemma encode_rune_2:
  assumes "in_range 194 223 (of_char c0)" and "cont_byte (of_char c1)"
  shows "encode_rune ((of_char c0 - 192) * 64 + (of_char c1 - 128)) = [c0, c1]"
proof -
  obtain x y :: nat where x: "of_char c0 = 192 + x" "2 \<le> x" "x < 32" and y: "of_char c1 = 128 + y" "y < 64"
    using assms le_Suc_ex [of 192 "of_char c0"] le_Suc_ex [of 128 "of_char c1"]
    by (auto simp: in_range_def)
  then show ?thesis
    by (simp add: encode_rune_def in_range_def char_of_eq Let_def)
qed

lemma encode_rune_3:
  assumes "in_range 224 239 (of_char c0)"
    and "in_range (if of_char c0 = (224 :: nat) then 160 else 128)
      (if of_char c0 = (237 :: nat) then 159 else 191) (of_char c1)"
    and "cont_byte (of_char c2)"
  shows "encode_rune ((of_char c0 - 224) * 4096 + (of_char c1 - 128) * 64 + (of_char c2 - 128)) = [c0, c1, c2]"
proof -
  obtain x y z :: nat where x: "of_char c0 = 224 + x" "x < 16" and y: "of_char c1 = 128 + y" "y < 64"
    and z: "of_char c2 = 128 + z" "z < 64"
    using assms le_Suc_ex [of 224 "of_char c0"] le_Suc_ex [of 128 "of_char c1"] le_Suc_ex [of 128 "of_char c2"]
    by (auto simp: in_range_def split: if_splits)
  let ?r = "x * 4096 + y * 64 + z"
  have "2048 \<le> ?r" using assms(2) x y by (auto simp: in_range_def split: if_splits)
  moreover have "\<not> in_range 55296 57343 ?r"
    using assms(2) x y z by (auto simp: in_range_def split: if_splits)
  moreover have "?r < 65536" using x y z by simp
  moreover have "?r div 4096 = x" "?r div 64 mod 64 = y" "?r mod 64 = z"
    using base64_digits [OF y(2) z(2) z(2)] by blast+
  ultimately show ?thesis
    using x y z by (simp add: encode_rune_def char_of_eq Let_def)
qed

lemma encode_rune_4:
  assumes "in_range 240 244 (of_char c0)"
    and "in_range (if of_char c0 = (240 :: nat) then 144 else 128)
      (if of_char c0 = (244 :: nat) then 143 else 191) (of_char c1)"
    and "cont_byte (of_char c2)" and "cont_byte (of_char c3)"
  shows "encode_rune ((of_char c0 - 240) * 262144 + (of_char c1 - 128) * 4096 + (of_char c2 - 128) * 64 +
    (of_char c3 - 128)) = [c0, c1, c2, c3]"
proof -
  obtain x y z w :: nat where x: "of_char c0 = 240 + x" "x < 5" and y: "of_char c1 = 128 + y" "y < 64"
    and z: "of_char c2 = 128 + z" "z < 64" and w: "of_char c3 = 128 + w" "w < 64"
    using assms le_Suc_ex [of 240 "of_char c0"] le_Suc_ex [of 128 "of_char c1"] le_Suc_ex [of 128 "of_char c2"]
      le_Suc_ex [of 128 "of_char c3"]
    by (auto simp: in_range_def split: if_splits)
  let ?r = "x * 262144 + y * 4096 + z * 64 + w"
  have "65536 \<le> ?r" using assms(2) x y by (auto simp: in_range_def split: if_splits)
  moreover have "?r \<le> 1114111"
    using assms(2) x y z w by (auto simp: in_range_def split: if_splits)
  moreover have "?r div 262144 = x" "?r div 4096 mod 64 = y" "?r div 64 mod 64 = z" "?r mod 64 = w"
    using base64_digits [OF y(2) z(2) w(2)] by blast+
  ultimately show ?thesis
    using x y z w by (simp add: encode_rune_def in_range_def char_of_eq Let_def)
qed

definition second_3 :: "nat \<Rightarrow> nat \<Rightarrow> bool" where
  "second_3 b0 b1 = in_range (if b0 = 224 then 160 else 128) (if b0 = 237 then 159 else 191) b1"

definition second_4 :: "nat \<Rightarrow> nat \<Rightarrow> bool" where
  "second_4 b0 b1 = in_range (if b0 = 240 then 144 else 128) (if b0 = 244 then 143 else 191) b1"

lemma decode_rune_2:
  "in_range 194 223 (of_char c0) \<Longrightarrow> cont_byte (of_char c1) \<Longrightarrow>
   decode_rune (c0 # c1 # t) = ((of_char c0 - 192) * 64 + (of_char c1 - 128), 2)"
  by (simp add: decode_rune_def byte_at_def) (simp add: in_range_def)

lemma decode_rune_3:
  assumes "in_range 224 239 (of_char c0)" and "second_3 (of_char c0) (of_char c1)"
    and "cont_byte (of_char c2)"
  shows "decode_rune (c0 # c1 # c2 # t) =
    ((of_char c0 - 224) * 4096 + (of_char c1 - 128) * 64 + (of_char c2 - 128), 3)"
proof -
  have "\<not> of_char c0 < (128 :: nat)" "\<not> in_range 194 223 (of_char c0)"
    using assms(1) by (auto simp: in_range_def)
  with assms show ?thesis by (simp add: decode_rune_def byte_at_def second_3_def)
qed

lemma decode_rune_4:
  assumes "in_range 240 244 (of_char c0)" and "second_4 (of_char c0) (of_char c1)"
    and "cont_byte (of_char c2)" and "cont_byte (of_char c3)"
  shows "decode_rune (c0 # c1 # c2 # c3 # t) =
    ((of_char c0 - 240) * 262144 + (of_char c1 - 128) * 4096 + (of_char c2 - 128) * 64 +
      (of_char c3 - 128), 4)"
proof -
  have "\<not> of_char c0 < (128 :: nat)" "\<not> in_range 194 223 (of_char c0)" "\<not> in_range 224 239 (of_char c0)"
    using assms(1) by (auto simp: in_range_def)
  with assms show ?thesis by (simp add: decode_rune_def byte_at_def second_4_def)
qed

text \<open>The four forms of a well-formed character, and everything else.\<close>

lemma rune_forms:
  obtains (one) c0 t where "s = c0 # t" and "of_char c0 < (128 :: nat)"
  | (two) c0 c1 t where "s = c0 # c1 # t" and "in_range 194 223 (of_char c0)" and "cont_byte (of_char c1)"
  | (three) c0 c1 c2 t where "s = c0 # c1 # c2 # t" and "in_range 224 239 (of_char c0)"
      and "second_3 (of_char c0) (of_char c1)" and "cont_byte (of_char c2)"
  | (four) c0 c1 c2 c3 t where "s = c0 # c1 # c2 # c3 # t" and "in_range 240 244 (of_char c0)"
      and "second_4 (of_char c0) (of_char c1)" and "cont_byte (of_char c2)" and "cont_byte (of_char c3)"
  | (invalid) "s = [] \<or> decode_rune s = (rune_error, 1)"
proof -
  let ?b = "byte_at s"
  have inv: "decode_rune s = (rune_error, 1)"
    if "\<not> ?b 0 < 128" "\<not> (in_range 194 223 (?b 0) \<and> cont_byte (?b 1))"
      "\<not> (in_range 224 239 (?b 0) \<and> second_3 (?b 0) (?b 1) \<and> cont_byte (?b 2))"
      "\<not> (in_range 240 244 (?b 0) \<and> second_4 (?b 0) (?b 1) \<and> cont_byte (?b 2) \<and> cont_byte (?b 3))"
    unfolding decode_rune_def Let_def second_3_def [symmetric] second_4_def [symmetric]
    by (simp only: that if_False)
  consider "s = []" | "s \<noteq> []" "?b 0 < 128"
    | "s \<noteq> []" "in_range 194 223 (?b 0) \<and> cont_byte (?b 1)"
    | "s \<noteq> []" "in_range 224 239 (?b 0) \<and> second_3 (?b 0) (?b 1) \<and> cont_byte (?b 2)"
    | "s \<noteq> []" "in_range 240 244 (?b 0) \<and> second_4 (?b 0) (?b 1) \<and> cont_byte (?b 2) \<and> cont_byte (?b 3)"
    | "decode_rune s = (rune_error, 1)"
    using inv by blast
  then show thesis
  proof cases
    case 2
    then show thesis by (cases s) (auto simp: byte_at_def intro: one)
  next
    case 3
    then obtain c0 c1 t where "s = c0 # c1 # t"
      using byte_at_in [of 128 191 s 1] by (cases s; cases "tl s") auto
    with 3 two show thesis by (auto simp: byte_at_def)
  next
    case 4
    then obtain c0 c1 c2 t where "s = c0 # c1 # c2 # t"
      using byte_at_in [of 128 191 s 2] by (cases s; cases "tl s"; cases "tl (tl s)") auto
    with 4 three show thesis by (auto simp: byte_at_def)
  next
    case 5
    then obtain c0 c1 c2 c3 t where "s = c0 # c1 # c2 # c3 # t"
      using byte_at_in [of 128 191 s 3]
      by (cases s; cases "tl s"; cases "tl (tl s)"; cases "tl (tl (tl s))") auto
    with 5 four show thesis by (auto simp: byte_at_def)
  qed (use invalid in auto)
qed

text \<open>
  A well-formed character is the encoding of its rune, and is read the same whatever follows it.
\<close>

lemma decode_rune_valid:
  assumes "s \<noteq> []" and "decode_rune s = (r, n)" and "\<not> (r = rune_error \<and> n = 1)"
  shows "n \<le> length s \<and> encode_rune r = take n s \<and> decode_rune (take n s @ t) = (r, n)"
proof (cases s rule: rune_forms)
  case one
  then show ?thesis using assms(2)
    by (auto simp: encode_rune_ascii decode_rune_def byte_at_def)
next
  case two
  then show ?thesis using assms(2) by (auto simp: encode_rune_2 decode_rune_2)
next
  case three
  then show ?thesis using assms(2) encode_rune_3 by (auto simp: decode_rune_3 second_3_def)
next
  case four
  then show ?thesis using assms(2) encode_rune_4 by (auto simp: decode_rune_4 second_4_def)
next
  case invalid
  with assms show ?thesis by simp
qed

text \<open>What the chunks of a string are: each is the bytes of a rune, or a single malformed byte.\<close>

definition valid_chunk :: "rune \<times> string \<Rightarrow> bool" where
  "valid_chunk p \<longleftrightarrow> snd p \<noteq> [] \<and> encode_rune (fst p) = snd p \<and>
     (\<forall>t. decode_rune (snd p @ t) = (fst p, length (snd p)))"

lemma chunks_valid:
  "p \<in> set (chunks s) \<Longrightarrow> valid_chunk p \<or> (fst p = rune_error \<and> length (snd p) = 1)"
proof (induction s rule: chunks.induct)
  case (1 s)
  show ?case
  proof (cases "s = []")
    case False
    obtain r n where d: "decode_rune s = (r, n)" by fastforce
    then have n: "0 < n" using decode_rune_pos [of s] by simp
    consider "p = (r, take n s)" | "p \<in> set (chunks (drop n s))"
      using "1.prems" False d by (subst (asm) chunks.simps) auto
    then show ?thesis
    proof cases
      case 1
      show ?thesis
      proof (cases "r = rune_error \<and> n = 1")
        case True
        then show ?thesis using 1 False by (cases s) auto
      next
        case False
        then show ?thesis
          using decode_rune_valid [OF \<open>s \<noteq> []\<close> d] 1 n \<open>s \<noteq> []\<close> by (auto simp: valid_chunk_def min_def)
      qed
    next
      case 2
      then show ?thesis using "1.IH" False d by auto
    qed
  qed (use "1.prems" in simp)
qed

lemma valid_utf8_chunks: "valid_utf8 s \<Longrightarrow> p \<in> set (chunks s) \<Longrightarrow> valid_chunk p"
  using chunks_valid [of p s] by (cases p) (auto simp: valid_utf8_def list_all_iff)

lemma encode_rune_high:
  assumes "128 \<le> r" and "c \<in> set (encode_rune r)"
  shows "128 \<le> (of_char c :: nat)"
proof -
  define q where "q = (if in_range 55296 57343 r \<or> 1114111 < r then rune_error else r)"
  have q: "128 \<le> q" "q \<le> 1114111" using assms(1) by (auto simp: q_def rune_error_def)
  have m: "n mod 64 < 64" "(128 + n mod 64) mod 256 = 128 + n mod 64" for n :: nat by simp_all
  have d: "q < 2048 \<Longrightarrow> q div 64 < 32" "q < 65536 \<Longrightarrow> q div 4096 < 16" "q div 262144 < 5"
    using q by (simp_all add: less_mult_imp_div_less)
  consider "q < 2048" | "2048 \<le> q" "q < 65536" | "65536 \<le> q" by linarith
  then show ?thesis
  proof cases
    case 1
    with q d m assms(2) show ?thesis
      by (auto simp: encode_rune_def Let_def q_def [symmetric] of_char_of)
  next
    case 2
    with q d m assms(2) show ?thesis
      by (auto simp: encode_rune_def Let_def q_def [symmetric] of_char_of)
  next
    case 3
    with q d m assms(2) show ?thesis
      by (auto simp: encode_rune_def Let_def q_def [symmetric] of_char_of)
  qed
qed

end
