(* ===== verification/Go_JSON.thy ===== *)
theory Go_JSON
  imports Go_UTF8 Exceptions
begin

text \<open>
  The part of Go's \<^verbatim>\<open>encoding/json\<close> that the sources use, on byte strings: the scanner with its
  stack of open arrays and objects and its nesting limit, the decoding of string and number
  literals, the matching of object members to struct fields, and the encoder with its escapes for
  HTML and for malformed UTF-8. A document is a tree whose strings are the text between the quotes
  and whose numbers are their literals, so that a field decoder sees what its Go counterpart sees.
  The main results are that scanning what the encoder printed gives the tree back and that
  decoding an escaped string gives the string back when it is valid UTF-8.
\<close>

section \<open>Characters\<close>

abbreviation dquote :: char where "dquote \<equiv> CHR 0x22"
abbreviation bslash :: char where "bslash \<equiv> CHR 0x5C"

definition json_space :: "char \<Rightarrow> bool" where
  "json_space c \<longleftrightarrow> c = CHR '' '' \<or> c = CHR 0x09 \<or> c = CHR 0x0A \<or> c = CHR 0x0D"

definition is_digit :: "char \<Rightarrow> bool" where
  "is_digit c \<longleftrightarrow> digit_val c \<noteq> None"

definition hex_val :: "char \<Rightarrow> nat option" where
  "hex_val c = (let n = of_char c in
     if in_range 48 57 n then Some (n - 48)
     else if in_range 97 102 n then Some (n - 87)
     else if in_range 65 70 n then Some (n - 55) else None)"

definition hex_digit :: "nat \<Rightarrow> char" where
  "hex_digit d = char_of (if d < 10 then 48 + d else 87 + d)"

text \<open>The two-character escapes and the byte each stands for.\<close>

definition simple_escape :: "char \<Rightarrow> rune option" where
  "simple_escape = map_of [(dquote, 34), (bslash, 92), (CHR ''/'', 47), (CHR ''b'', 8),
     (CHR ''f'', 12), (CHR ''n'', 10), (CHR ''r'', 13), (CHR ''t'', 9)]"

section \<open>Scanning literals\<close>

text \<open>The length of an escape after its backslash, 0 when it is malformed.\<close>

definition escape_len :: "string \<Rightarrow> nat" where
  "escape_len s =
     (case s of
        [] \<Rightarrow> 0
      | e # es \<Rightarrow>
          if e = CHR ''u''
          then (if 4 \<le> length es \<and> list_all (\<lambda>c. hex_val c \<noteq> None) (take 4 es) then 5 else 0)
          else if simple_escape e \<noteq> None then 1 else 0)"

text \<open>The text up to the closing quote, and the input after it.\<close>

fun scan_string :: "string \<Rightarrow> (string \<times> string) option" where
  "scan_string [] = None"
| "scan_string (c # cs) =
     (if c = dquote then Some ([], cs)
      else if of_char c < (32 :: nat) then None
      else if c = bslash
      then (let n = escape_len cs in
            if n = 0 then None
            else map_option (apfst ((@) (c # take n cs))) (scan_string (drop n cs)))
      else map_option (apfst ((#) c)) (scan_string cs))"

definition scan_int :: "string \<Rightarrow> (string \<times> string) option" where
  "scan_int s =
     (case s of
        [] \<Rightarrow> None
      | c # cs \<Rightarrow> if c = CHR ''0'' then Some ([c], cs)
                  else if is_digit c then Some (takeWhile is_digit s, dropWhile is_digit s) else None)"

definition scan_frac :: "string \<Rightarrow> (string \<times> string) option" where
  "scan_frac s =
     (if HasPrefix s ''.''
      then (let ds = takeWhile is_digit (tl s) in
            if ds = [] then None else Some (CHR ''.'' # ds, dropWhile is_digit (tl s)))
      else Some ([], s))"

definition scan_exp :: "string \<Rightarrow> (string \<times> string) option" where
  "scan_exp s =
     (if HasPrefix s ''e'' \<or> HasPrefix s ''E''
      then (let sg = (if HasPrefix (tl s) ''+'' \<or> HasPrefix (tl s) ''-'' then 1 else 0);
                t = drop sg (tl s); ds = takeWhile is_digit t in
            if ds = [] then None else Some (hd s # take sg (tl s) @ ds, dropWhile is_digit t))
      else Some ([], s))"

definition scan_number :: "string \<Rightarrow> (string \<times> string) option" where
  "scan_number s =
     (let sg = (if HasPrefix s ''-'' then 1 else 0) in
      Option.bind (scan_int (drop sg s)) (\<lambda>(i, s1).
      Option.bind (scan_frac s1) (\<lambda>(f, s2).
      Option.bind (scan_exp s2) (\<lambda>(e, s3). Some (take sg s @ i @ f @ e, s3)))))"

lemma scan_string_length: "scan_string s = Some (raw, rest) \<Longrightarrow> length rest < length s"
proof (induction s arbitrary: raw rest rule: scan_string.induct)
  case (2 c cs)
  show ?case
  proof (cases "c = bslash")
    case True
    with "2.prems" obtain r0 where "scan_string (drop (escape_len cs) cs) = Some (r0, rest)"
      and "escape_len cs \<noteq> 0"
      by (auto simp: Let_def split: if_splits)
    with "2.IH"(1) [of "escape_len cs" r0 rest] True show ?thesis by simp
  next
    case False
    with "2.prems" "2.IH"(2) show ?thesis
      by (fastforce split: if_splits)
  qed
qed simp

lemma scan_int_length: "scan_int s = Some (l, rest) \<Longrightarrow> length rest < length s"
  using length_dropWhile_le [of is_digit "tl s"]
  by (auto simp: scan_int_def le_imp_less_Suc split: list.splits if_splits)

lemma scan_frac_length: "scan_frac s = Some (l, rest) \<Longrightarrow> length rest \<le> length s"
  using length_dropWhile_le [of is_digit "tl s"]
  by (auto simp: scan_frac_def Let_def split: if_splits)

lemma scan_exp_length: "scan_exp s = Some (l, rest) \<Longrightarrow> length rest \<le> length s"
  using length_dropWhile_le [of is_digit "tl s"] length_dropWhile_le [of is_digit "drop 1 (tl s)"]
  by (auto simp: scan_exp_def Let_def split: if_splits)

lemma scan_number_length: "scan_number s = Some (l, rest) \<Longrightarrow> length rest < length s"
  by (auto simp: scan_number_def Let_def bind_eq_Some_conv split: if_splits
      dest!: scan_int_length scan_frac_length scan_exp_length)

section \<open>The scanner\<close>

text \<open>
  \<open>JStr\<close> holds the text between the quotes and \<open>JNum\<close> the literal; the members of an object are
  in the order of the document, each key as the text between its quotes.
\<close>

datatype json =
    JNull
  | JBool bool
  | JNum string
  | JStr string
  | JArr "json list"
  | JObj "(string \<times> json) list"

text \<open>
  What encloses the value being scanned: an array with its elements so far, or an object with its
  members so far and the key the value belongs to (both most recent first). The scanner expects a
  value, a value or the end of an empty array, a key or the end of an empty object, a key after
  the members it has, or it has just completed a value.
\<close>

datatype frame = InArray "json list" | InObject "(string \<times> json) list" string

datatype scan_mode =
    BeginValue
  | BeginValueOrEmpty
  | BeginKeyOrEmpty
  | BeginKey "(string \<times> json) list"
  | EndValue json

definition maxNestingDepth :: nat where "maxNestingDepth = 10000"

definition literals :: "(string \<times> json) list" where
  "literals = [(''true'', JBool True), (''false'', JBool False), (''null'', JNull)]"

definition scan_literal :: "string \<Rightarrow> (json \<times> string) option" where
  "scan_literal s =
     map_option (\<lambda>(w, v). (v, drop (length w) s)) (find (\<lambda>(w, _). HasPrefix s w) literals)"

text \<open>A string, a number or one of the three words.\<close>

definition scan_scalar :: "string \<Rightarrow> (json \<times> string) option" where
  "scan_scalar s =
     (case s of
        [] \<Rightarrow> None
      | c # cs \<Rightarrow>
          if c = dquote then map_option (apfst JStr) (scan_string cs)
          else if c = CHR ''-'' \<or> is_digit c then map_option (apfst JNum) (scan_number s)
          else scan_literal s)"

text \<open>A key and the colon after it.\<close>

definition scan_key :: "string \<Rightarrow> (string \<times> string) option" where
  "scan_key s =
     (case s of
        [] \<Rightarrow> None
      | c # cs \<Rightarrow>
          if c \<noteq> dquote then None
          else Option.bind (scan_string cs) (\<lambda>(k, rest).
            case dropWhile json_space rest of
              [] \<Rightarrow> None
            | d # ds \<Rightarrow> if d = CHR '':'' then Some (k, ds) else None))"

lemma scan_literal_length: "scan_literal s = Some (v, rest) \<Longrightarrow> length rest < length s"
  by (auto simp: scan_literal_def literals_def HasPrefix_iff split: if_splits)

lemma scan_scalar_length: "scan_scalar s = Some (v, rest) \<Longrightarrow> length rest < length s"
  by (auto simp: scan_scalar_def split: list.splits if_splits
      dest: scan_string_length scan_number_length scan_literal_length)

lemma scan_key_Some:
  "scan_key s = Some (k, rest) \<longleftrightarrow>
     (\<exists>cs r. s = dquote # cs \<and> scan_string cs = Some (k, r) \<and> dropWhile json_space r = CHR '':'' # rest)"
proof (cases s)
  case (Cons c cs)
  show ?thesis
  proof (cases "scan_string cs")
    case (Some p)
    obtain k' r where p: "p = (k', r)" by (cases p)
    show ?thesis using Cons Some p by (cases "dropWhile json_space r") (auto simp: scan_key_def simp del: dropWhile_eq_Nil_conv)
  qed (simp add: scan_key_def Cons)
qed (simp add: scan_key_def)

lemma scan_key_length:
  assumes "scan_key s = Some (k, rest)"
  shows "length rest < length s"
proof -
  obtain cs r where s: "s = dquote # cs" and r: "scan_string cs = Some (k, r)"
    and d: "dropWhile json_space r = CHR '':'' # rest"
    using assms by (auto simp: scan_key_Some)
  have "length (dropWhile json_space r) \<le> length r" by (rule length_dropWhile_le)
  with s d scan_string_length [OF r] show ?thesis by simp
qed

text \<open>
  One step of the scanner: \<open>json_step\<close> takes the next token after white space and gives the mode,
  the stack and the input that follow, or \<open>None\<close> for a syntax error.
\<close>

type_synonym scan_state = "scan_mode \<times> frame list \<times> string"

fun json_token :: "scan_mode \<Rightarrow> frame list \<Rightarrow> char \<Rightarrow> string \<Rightarrow> scan_state option" where
  "json_token BeginValue st c cs =
     (if c = CHR ''{''
      then (if length st < maxNestingDepth then Some (BeginKeyOrEmpty, st, cs) else None)
      else if c = CHR ''[''
      then (if length st < maxNestingDepth then Some (BeginValueOrEmpty, st, cs) else None)
      else map_option (\<lambda>(v, rest). (EndValue v, st, rest)) (scan_scalar (c # cs)))"
| "json_token BeginValueOrEmpty st c cs =
     (if c = CHR '']'' then Some (EndValue (JArr []), st, cs)
      else Some (BeginValue, InArray [] # st, c # cs))"
| "json_token BeginKeyOrEmpty st c cs =
     (if c = CHR ''}'' then Some (EndValue (JObj []), st, cs) else Some (BeginKey [], st, c # cs))"
| "json_token (BeginKey ms) st c cs =
     map_option (\<lambda>(k, rest). (BeginValue, InObject ms k # st, rest)) (scan_key (c # cs))"
| "json_token (EndValue v) (InArray vs # st) c cs =
     (if c = CHR '','' then Some (BeginValue, InArray (v # vs) # st, cs)
      else if c = CHR '']'' then Some (EndValue (JArr (rev (v # vs))), st, cs)
      else None)"
| "json_token (EndValue v) (InObject ms k # st) c cs =
     (if c = CHR '','' then Some (BeginKey ((k, v) # ms), st, cs)
      else if c = CHR ''}'' then Some (EndValue (JObj (rev ((k, v) # ms))), st, cs)
      else None)"
| "json_token (EndValue v) [] c cs = None"

definition json_step :: "scan_mode \<Rightarrow> frame list \<Rightarrow> string \<Rightarrow> scan_state option" where
  "json_step m st s =
     (case dropWhile json_space s of [] \<Rightarrow> None | c # cs \<Rightarrow> json_token m st c cs)"

text \<open>Every step takes a character, or expects less at the same place.\<close>

fun scan_measure :: "scan_state \<Rightarrow> nat" where
  "scan_measure (m, st, s) =
     2 * length s + (if m = BeginValueOrEmpty \<or> m = BeginKeyOrEmpty then 1 else 0)"

lemma json_token_decreases:
  "json_token m st c cs = Some q \<Longrightarrow> scan_measure q < scan_measure (m, st, c # cs)"
  by (induction m st c cs rule: json_token.induct)
    (auto split: if_splits dest: scan_scalar_length scan_key_length)

lemma json_step_decreases:
  assumes "json_step m st s = Some q"
  shows "scan_measure q < scan_measure (m, st, s)"
proof -
  obtain c cs where cs: "dropWhile json_space s = c # cs" and t: "json_token m st c cs = Some q"
    using assms by (auto simp: json_step_def split: list.splits)
  have "length (c # cs) \<le> length s" using length_dropWhile_le [of json_space s] cs by simp
  with json_token_decreases [OF t] show ?thesis by simp
qed

text \<open>
  \<open>json_run\<close> steps until the value that was open first is complete and returns it with the input
  after it.
\<close>

function json_run :: "scan_mode \<Rightarrow> frame list \<Rightarrow> string \<Rightarrow> (json \<times> string) option" where
  "json_run m st s =
     (case (m, st) of
        (EndValue v, []) \<Rightarrow> Some (v, s)
      | _ \<Rightarrow> (case json_step m st s of
                None \<Rightarrow> None
              | Some (m', st', s') \<Rightarrow> json_run m' st' s'))"
  by pat_completeness auto
termination
  by (relation "measure scan_measure") (auto dest: json_step_decreases simp del: scan_measure.simps)

declare json_run.simps [simp del]

text \<open>
  The value at the start of the input, as \<^verbatim>\<open>Decoder.Decode\<close> reads it, leaving the input after it;
  and the only value of the input, as \<^verbatim>\<open>Unmarshal\<close> reads it.
\<close>

definition json_decode :: "string \<Rightarrow> (json \<times> string) option" where
  "json_decode s = json_run BeginValue [] s"

definition json_parse :: "string \<Rightarrow> json option" where
  "json_parse s =
     (case json_decode s of
        None \<Rightarrow> None
      | Some (v, rest) \<Rightarrow> if list_all json_space rest then Some v else None)"

section \<open>String values\<close>

text \<open>
  \<open>hex4 s\<close> reads the \<^verbatim>\<open>uXXXX\<close> of an escape; a high surrogate takes the escape of a low one with it,
  and every other surrogate becomes U+FFFD.
\<close>

definition hex4 :: "string \<Rightarrow> rune option" where
  "hex4 s =
     (case map hex_val (take 5 s) of
        [_, Some a, Some b, Some c, Some d] \<Rightarrow>
          if hd s = CHR ''u'' then Some (a * 4096 + b * 256 + c * 16 + d) else None
      | _ \<Rightarrow> None)"

definition utf16_DecodeRune :: "rune \<Rightarrow> rune \<Rightarrow> rune" where
  "utf16_DecodeRune r1 r2 =
     (if in_range 55296 56319 r1 \<and> in_range 56320 57343 r2
      then (r1 - 55296) * 1024 + (r2 - 56320) + 65536 else rune_error)"

text \<open>The escape after a backslash: the rune it stands for and its length.\<close>

definition unescape :: "string \<Rightarrow> (rune \<times> nat) option" where
  "unescape s =
     (if HasPrefix s ''u''
      then (case hex4 s of
              None \<Rightarrow> None
            | Some rr \<Rightarrow>
                if in_range 55296 57343 rr
                then (case (if HasPrefix (drop 5 s) [bslash] then hex4 (drop 6 s) else None) of
                        Some rr1 \<Rightarrow> if utf16_DecodeRune rr rr1 \<noteq> rune_error
                                    then Some (utf16_DecodeRune rr rr1, 11) else Some (rune_error, 5)
                      | None \<Rightarrow> Some (rune_error, 5))
                else Some (rr, 5))
      else if s = [] then None
      else map_option (\<lambda>r. (r, 1)) (simple_escape (hd s)))"

text \<open>The string a literal stands for; malformed UTF-8 is read as U+FFFD.\<close>

function unquote :: "string \<Rightarrow> string option" where
  "unquote s =
     (if s = [] then Some []
      else if hd s = dquote \<or> of_char (hd s) < (32 :: nat) then None
      else if hd s = bslash
      then (case unescape (tl s) of
              None \<Rightarrow> None
            | Some (r, n) \<Rightarrow> map_option ((@) (encode_rune r)) (unquote (drop n (tl s))))
      else map_option ((@) (encode_rune (fst (decode_rune s)))) (unquote (drop (snd (decode_rune s)) s)))"
  by pat_completeness auto
termination
  by (relation "measure length") (auto simp: decode_rune_pos)

declare unquote.simps [simp del]

section \<open>Encoding strings\<close>

definition escape_byte :: "rune \<Rightarrow> string" where
  "escape_byte b =
     (if b = 34 then [bslash, dquote] else if b = 92 then [bslash, bslash]
      else if b = 8 then bslash # ''b'' else if b = 12 then bslash # ''f''
      else if b = 10 then bslash # ''n'' else if b = 13 then bslash # ''r''
      else if b = 9 then bslash # ''t''
      else if b < 32 \<or> b = 60 \<or> b = 62 \<or> b = 38
      then bslash # ''u00'' @ [hex_digit (b div 16), hex_digit (b mod 16)]
      else [char_of b])"

fun escape_chunk :: "rune \<times> string \<Rightarrow> string" where
  "escape_chunk (r, b) =
     (if r < 128 then escape_byte r
      else if r = rune_error \<and> length b = 1 then bslash # ''ufffd''
      else if r = 8232 \<or> r = 8233 then bslash # ''u202'' @ [hex_digit (r mod 16)]
      else b)"

definition escape :: "string \<Rightarrow> string" where
  "escape s = concat (map escape_chunk (chunks s))"

section \<open>An escaped string scans to itself and decodes to the string\<close>

lemma hex_val_digit [simp]: "d < 16 \<Longrightarrow> hex_val (hex_digit d) = Some d"
  by (auto simp: hex_val_def hex_digit_def in_range_def of_char_of)

lemma unquote_Nil [simp]: "unquote [] = Some []"
  by (simp add: unquote.simps)

lemma unquote_escaped:
  "unescape s = Some (r, n) \<Longrightarrow> unquote (bslash # s) = map_option ((@) (encode_rune r)) (unquote (drop n s))"
  by (simp add: unquote.simps [of "bslash # s"])

lemma unquote_plain:
  assumes "valid_chunk (r, c # b)" and "c \<noteq> dquote" and "c \<noteq> bslash" and "32 \<le> (of_char c :: nat)"
  shows "unquote (c # b @ t) = map_option ((@) (c # b)) (unquote t)"
proof -
  have "decode_rune (c # b @ t) = (r, length (c # b))" and "encode_rune r = c # b"
    using assms(1) by (auto simp: valid_chunk_def)
  with assms(2-) show ?thesis by (simp add: unquote.simps [of "c # b @ t"])
qed

lemma map_apfst_comp:
  "map_option (apfst f) (map_option (apfst g) x) = map_option (apfst (f \<circ> g)) x"
  by (cases x) auto

lemma scan_string_plain:
  "\<forall>c \<in> set b. c \<noteq> dquote \<and> c \<noteq> bslash \<and> 32 \<le> (of_char c :: nat) \<Longrightarrow>
     scan_string (b @ t) = map_option (apfst ((@) b)) (scan_string t)"
proof (induction b)
  case Nil
  show ?case by (cases "scan_string t") auto
next
  case (Cons c b)
  then have "scan_string ((c # b) @ t) = map_option (apfst ((#) c)) (scan_string (b @ t))" by simp
  also have "\<dots> = map_option (apfst ((#) c \<circ> (@) b)) (scan_string t)"
    using Cons by (simp add: map_apfst_comp)
  finally show ?case by (simp add: o_def)
qed

lemma scan_string_escaped:
  "escape_len (e @ t) = length e \<Longrightarrow> e \<noteq> [] \<Longrightarrow>
     scan_string (bslash # e @ t) = map_option (apfst ((@) (bslash # e))) (scan_string t)"
  by (simp add: Let_def)

lemma hex_val_eval [simp]:
  "hex_val CHR ''0'' = Some 0" "hex_val CHR ''2'' = Some 2" "hex_val CHR ''f'' = Some 15"
  "hex_val CHR ''d'' = Some 13"
  by (simp_all add: hex_val_def in_range_def)

lemma simple_escape_eval [simp]:
  "simple_escape dquote = Some 34" "simple_escape bslash = Some 92" "simple_escape CHR ''b'' = Some 8"
  "simple_escape CHR ''f'' = Some 12" "simple_escape CHR ''n'' = Some 10"
  "simple_escape CHR ''r'' = Some 13" "simple_escape CHR ''t'' = Some 9"
  by (simp_all add: simple_escape_def)

lemma unescape_simple: "simple_escape e = Some r \<Longrightarrow> e \<noteq> CHR ''u'' \<Longrightarrow> unescape (e # t) = Some (r, 1)"
  by (simp add: unescape_def HasPrefix_def)

lemma unescape_u00:
  "b < 128 \<Longrightarrow> unescape (CHR ''u'' # CHR ''0'' # CHR ''0'' # hex_digit (b div 16) # hex_digit (b mod 16) # t) =
     Some (b, 5)"
  by (simp add: unescape_def HasPrefix_def hex4_def in_range_def less_mult_imp_div_less)

lemma unescape_u202:
  "r = 8232 \<or> r = 8233 \<Longrightarrow>
     unescape (CHR ''u'' # CHR ''2'' # CHR ''0'' # CHR ''2'' # hex_digit (r mod 16) # t) = Some (r, 5)"
  by (auto simp: unescape_def HasPrefix_def hex4_def in_range_def)

lemma valid_chunk_ascii: "valid_chunk (r, b) \<Longrightarrow> r < 128 \<Longrightarrow> b = [char_of r]"
  by (auto simp: valid_chunk_def encode_rune_ascii)

lemma valid_chunk_high:
  assumes "valid_chunk (r, b)" and "128 \<le> r"
  shows "c \<in> set b \<Longrightarrow> 128 \<le> (of_char c :: nat)" and "length b \<noteq> 1"
proof -
  have enc: "encode_rune r = b" using assms by (simp add: valid_chunk_def)
  show high: "128 \<le> (of_char c :: nat)" if "c \<in> set b" for c
    using encode_rune_high [OF assms(2), of c] enc that by simp
  show "length b \<noteq> 1"
  proof
    assume 1: "length b = 1"
    then obtain c where b: "b = [c]" by (cases b) auto
    then have "decode_rune [c] = (r, 1)" using assms(1) by (auto simp: valid_chunk_def)
    then have "r = rune_error" using high [of c] b
      by (auto simp: decode_rune_def byte_at_def in_range_def split: if_splits)
    then have "length b = 3" using enc by (auto simp: encode_rune_def rune_error_def in_range_def)
    with 1 show False by simp
  qed
qed

lemma escape_chunk_high:
  "valid_chunk (r, b) \<Longrightarrow> 128 \<le> r \<Longrightarrow> r \<noteq> 8232 \<Longrightarrow> r \<noteq> 8233 \<Longrightarrow> escape_chunk (r, b) = b"
  using valid_chunk_high(2) [of r b] by simp

lemma escape_chunk_separator:
  "r = 8232 \<or> r = 8233 \<Longrightarrow> escape_chunk (r, b) = bslash # ''u202'' @ [hex_digit (r mod 16)]"
  by (auto simp: rune_error_def)

text \<open>How the runes are written: as a short escape, in hexadecimal, or as they are.\<close>

lemma escape_forms:
  obtains "r \<in> {34, 92, 8, 12, 10, 13, 9}"
  | "r < 128" "r \<notin> {34, 92, 8, 12, 10, 13, 9}" "r < 32 \<or> r = 60 \<or> r = 62 \<or> r = 38"
  | "r < 128" "r \<noteq> 34" "r \<noteq> 92" "\<not> (r < 32 \<or> r = 60 \<or> r = 62 \<or> r = 38)"
  | "r = 8232 \<or> r = (8233 :: rune)"
  | "128 \<le> r" "r \<noteq> 8232" "r \<noteq> 8233"
  by force

lemma escape_chunk_short:
  "r \<in> {34, 92, 8, 12, 10, 13, 9} \<Longrightarrow>
     \<exists>e. escape_chunk (r, b) = [bslash, e] \<and> simple_escape e = Some r \<and> e \<noteq> CHR ''u''"
  by (auto simp: escape_byte_def)

lemma unquote_escape_chunk:
  assumes "valid_chunk (r, b)"
  shows "unquote (escape_chunk (r, b) @ t) = map_option ((@) b) (unquote t)"
proof -
  have enc: "encode_rune r = b" using assms by (simp add: valid_chunk_def)
  have esc: "unquote (bslash # e @ t) = map_option ((@) b) (unquote t)"
    if "unescape (e @ t) = Some (r, length e)" for e
    using unquote_escaped [OF that] by (simp add: enc)
  show ?thesis
  proof (cases r rule: escape_forms)
    case 1
    then obtain e where "escape_chunk (r, b) = [bslash, e]" "simple_escape e = Some r" "e \<noteq> CHR ''u''"
      using escape_chunk_short by blast
    then show ?thesis using esc [of "[e]"] by (simp add: unescape_simple del: escape_chunk.simps)
  next
    case 2
    then show ?thesis
      using esc [of "''u00'' @ [hex_digit (r div 16), hex_digit (r mod 16)]"]
      by (simp add: escape_byte_def unescape_u00)
  next
    case 3
    define c where "c = (char_of r :: char)"
    have c: "of_char c = r" using 3(1) by (simp add: c_def of_char_of)
    have b: "b = [c]" using valid_chunk_ascii [OF assms 3(1)] by (simp add: c_def)
    have "c \<noteq> dquote" "c \<noteq> bslash" using 3 c by auto
    then have "unquote (c # t) = map_option ((@) b) (unquote t)"
      using unquote_plain [of r c "[]" t] assms 3 by (simp add: b c)
    with 3 show ?thesis by (auto simp: escape_byte_def c_def)
  next
    case 4
    then show ?thesis
      using esc [of "''u202'' @ [hex_digit (r mod 16)]"] unescape_u202 [OF 4]
      by (simp only: escape_chunk_separator append_Cons append_Nil) simp
  next
    case 5
    obtain c b' where b: "b = c # b'" using assms by (cases b) (auto simp: valid_chunk_def)
    have "c \<noteq> dquote" "c \<noteq> bslash" "32 \<le> (of_char c :: nat)"
      using valid_chunk_high(1) [OF assms 5(1), of c] b by auto
    then show ?thesis
      using escape_chunk_high [OF assms 5] unquote_plain [of r c b' t] assms b by simp
  qed
qed

lemma unquote_escape_append:
  "\<forall>p \<in> set ps. valid_chunk p \<Longrightarrow>
     unquote (concat (map escape_chunk ps)) = Some (concat (map snd ps))"
  by (induction ps) (auto simp: unquote_escape_chunk simp del: escape_chunk.simps)

text \<open>Decoding what the encoder wrote gives back every string that is valid UTF-8.\<close>

lemma unquote_escape: "valid_utf8 s \<Longrightarrow> unquote (escape s) = Some s"
  using unquote_escape_append [of "chunks s"] valid_utf8_chunks [of s] chunks_concat [of s]
  by (simp add: escape_def)

lemma scan_string_escape_chunk:
  assumes "valid_chunk (r, b) \<or> (r = rune_error \<and> length b = 1)"
  shows "scan_string (escape_chunk (r, b) @ t) =
    map_option (apfst ((@) (escape_chunk (r, b)))) (scan_string t)"
proof -
  have esc: "scan_string (bslash # e @ t) = map_option (apfst ((@) (bslash # e))) (scan_string t)"
    if "escape_len (e @ t) = length e" "e \<noteq> []" for e
    by (rule scan_string_escaped [OF that])
  have bad: "escape_chunk (r, b) = bslash # ''ufffd''" if "r = rune_error" "length b = 1"
    using that by (simp add: rune_error_def)
  show ?thesis
  proof (cases r rule: escape_forms)
    case 1
    then obtain e where "escape_chunk (r, b) = [bslash, e]" "simple_escape e = Some r" "e \<noteq> CHR ''u''"
      using escape_chunk_short by blast
    then show ?thesis
      using esc [of "[e]"] by (simp add: escape_len_def del: escape_chunk.simps scan_string.simps)
  next
    case 2
    then show ?thesis
      using esc [of "''u00'' @ [hex_digit (r div 16), hex_digit (r mod 16)]"]
      by (simp add: escape_byte_def escape_len_def less_mult_imp_div_less del: scan_string.simps)
  next
    case 3
    have c: "of_char (char_of r :: char) = r" using 3(1) by (simp add: of_char_of)
    then have "char_of r \<noteq> dquote" "char_of r \<noteq> bslash" using 3 by (auto simp: char_of_eq)
    then have "scan_string ([char_of r] @ t) = map_option (apfst ((@) [char_of r])) (scan_string t)"
      using 3 c by (intro scan_string_plain) auto
    moreover have "escape_chunk (r, b) = [char_of r]" using 3 by (auto simp: escape_byte_def)
    ultimately show ?thesis by (simp only:)
  next
    case 4
    have "r mod 16 < 16" by simp
    then show ?thesis
      using esc [of "''u202'' @ [hex_digit (r mod 16)]"] escape_chunk_separator [OF 4, of b]
      by (simp add: escape_len_def del: scan_string.simps escape_chunk.simps)
  next
    case 5
    show ?thesis
    proof (cases "valid_chunk (r, b)")
      case True
      have "\<forall>c \<in> set b. c \<noteq> dquote \<and> c \<noteq> bslash \<and> 32 \<le> (of_char c :: nat)"
        using valid_chunk_high(1) [OF True 5(1)] by fastforce
      then show ?thesis using escape_chunk_high [OF True 5] scan_string_plain [of b t] by simp
    next
      case False
      with assms bad show ?thesis using esc [of "''ufffd''"]
        by (simp add: escape_len_def del: scan_string.simps escape_chunk.simps)
    qed
  qed
qed

lemma scan_string_chunks:
  "\<forall>p \<in> set ps. valid_chunk p \<or> (fst p = rune_error \<and> length (snd p) = 1) \<Longrightarrow>
     scan_string (concat (map escape_chunk ps) @ dquote # t) = Some (concat (map escape_chunk ps), t)"
  by (induction ps) (auto simp: scan_string_escape_chunk simp del: escape_chunk.simps)

text \<open>What the encoder wrote between quotes is scanned up to the closing quote, whatever the string.\<close>

lemma scan_string_escape: "scan_string (escape s @ dquote # t) = Some (escape s, t)"
  using scan_string_chunks [of "chunks s" t] chunks_valid [of _ s] by (simp add: escape_def)

section \<open>Encoding documents\<close>

definition member_text :: "string \<times> string \<Rightarrow> string" where
  "member_text p = dquote # fst p @ dquote # CHR '':'' # snd p"

primrec json_text :: "json \<Rightarrow> string" where
  "json_text JNull = ''null''"
| "json_text (JBool b) = (if b then ''true'' else ''false'')"
| "json_text (JNum l) = l"
| "json_text (JStr raw) = dquote # raw @ [dquote]"
| "json_text (JArr vs) = CHR ''['' # join_with CHR '','' (map json_text vs) @ '']''"
| "json_text (JObj ms) =
     CHR ''{'' # join_with CHR '','' (map member_text (map (map_prod id json_text) ms)) @ ''}''"

primrec json_depth :: "json \<Rightarrow> nat" where
  "json_depth JNull = 0"
| "json_depth (JBool b) = 0"
| "json_depth (JNum l) = 0"
| "json_depth (JStr raw) = 0"
| "json_depth (JArr vs) = Suc (foldr max (map json_depth vs) 0)"
| "json_depth (JObj ms) = Suc (foldr max (map snd (map (map_prod id json_depth) ms)) 0)"

text \<open>The documents the encoder writes: escaped strings and keys, integers in decimal.\<close>

primrec encoded :: "json \<Rightarrow> bool" where
  "encoded JNull = True"
| "encoded (JBool b) = True"
| "encoded (JNum l) = (\<exists>n. l = FormatInt n)"
| "encoded (JStr raw) = (\<exists>s. raw = escape s)"
| "encoded (JArr vs) = list_all id (map encoded vs)"
| "encoded (JObj ms) = list_all (\<lambda>p. (\<exists>s. fst p = escape s) \<and> snd p) (map (map_prod id encoded) ms)"

section \<open>A printed document scans to itself\<close>

definition ends_number :: "string \<Rightarrow> bool" where
  "ends_number t \<longleftrightarrow> t = [] \<or> (\<not> is_digit (hd t) \<and> hd t \<notin> {CHR ''.'', CHR ''e'', CHR ''E''})"

lemma ends_number_simps [simp]:
  "ends_number []" "ends_number (CHR '','' # t)" "ends_number (CHR '']'' # t)" "ends_number (CHR ''}'' # t)"
  by (simp_all add: ends_number_def is_digit_def digit_val_def in_range_def)

lemma decimal_lead: "0 < n \<Longrightarrow> hd (decimal n) \<noteq> CHR ''0''"
proof (induction n rule: decimal.induct)
  case (1 n)
  show ?case
  proof (cases "n < 10")
    case True
    with 1 show ?thesis by (auto simp: decimal.simps [of n] digit_char_def char_of_eq)
  next
    case False
    then have "hd (decimal (n div 10)) \<noteq> CHR ''0''" using 1 by simp
    with False show ?thesis by (simp add: decimal.simps [of n])
  qed
qed

lemma decimal_0 [simp]: "decimal 0 = ''0''"
  by (simp add: decimal.simps [of 0] digit_char_def char_of_eq)

lemma decimal_span:
  assumes "ends_number t"
  shows "takeWhile is_digit (decimal n @ t) = decimal n" "dropWhile is_digit (decimal n @ t) = t"
proof -
  have d: "\<And>c. c \<in> set (decimal n) \<Longrightarrow> is_digit c" using decimal_digits by (auto simp: is_digit_def)
  have "takeWhile is_digit t = []" "dropWhile is_digit t = t"
    using assms by (cases t; simp add: ends_number_def)+
  with d show "takeWhile is_digit (decimal n @ t) = decimal n" "dropWhile is_digit (decimal n @ t) = t"
    by simp_all
qed

lemma scan_int_decimal:
  assumes "ends_number t"
  shows "scan_int (decimal n @ t) = Some (decimal n, t)"
proof (cases "n = 0")
  case False
  obtain c cs where c: "decimal n = c # cs" by (cases "decimal n") auto
  have "is_digit c" using decimal_digits [of c n] c by (simp add: is_digit_def)
  moreover have "c \<noteq> CHR ''0''" using decimal_lead [of n] False c by simp
  ultimately show ?thesis
    using decimal_span [OF assms, of n] c by (simp add: scan_int_def)
qed (simp add: scan_int_def)

lemma scan_number_FormatInt:
  assumes "ends_number t"
  shows "scan_number (FormatInt n @ t) = Some (FormatInt n, t)"
proof -
  have "scan_frac t = Some ([], t)" "scan_exp t = Some ([], t)"
    using assms by (cases t; auto simp: scan_frac_def scan_exp_def HasPrefix_def ends_number_def)+
  moreover have "\<not> HasPrefix (decimal m @ t) ''-''" for m
    using decimal_digits [of "hd (decimal m)" m] digit_val_not(2)
    by (cases "decimal m") (auto simp: HasPrefix_def)
  ultimately show ?thesis
    using scan_int_decimal [OF assms]
    by (simp add: scan_number_def FormatInt_def Let_def) (simp add: HasPrefix_def)
qed

lemma FormatInt_head: "\<exists>c cs. FormatInt n = c # cs \<and> (c = CHR ''-'' \<or> is_digit c)"
proof -
  obtain c cs where c: "decimal (nat n) = c # cs" by (cases "decimal (nat n)") auto
  then have "is_digit c" using decimal_digits [of c "nat n"] by (simp add: is_digit_def)
  with c show ?thesis by (simp add: FormatInt_def)
qed

lemma Atoi_FormatInt: "in_int64 n \<Longrightarrow> Atoi (FormatInt n) = Some n"
proof (cases "n < 0")
  case True
  assume "in_int64 n"
  with True show ?thesis
    by (simp add: FormatInt_def Atoi_def HasPrefix_def digits_val_decimal)
next
  case False
  assume "in_int64 n"
  with False Atoi_decimal [of "nat n"] show ?thesis by (simp add: FormatInt_def in_int64_def)
qed

lemma json_run_token:
  assumes "json_token m st c cs = Some (m', st', s')" and "\<not> json_space c"
    and "st \<noteq> [] \<or> (\<forall>v. m \<noteq> EndValue v)"
  shows "json_run m st (c # cs) = json_run m' st' s'"
proof -
  have step: "json_step m st (c # cs) = Some (m', st', s')"
    using assms(1, 2) by (simp add: json_step_def)
  show ?thesis
    by (cases m; cases st; subst json_run.simps) (use assms(3) step in simp_all)
qed

lemma json_space_tokens [simp]:
  "\<not> json_space CHR ''{''" "\<not> json_space CHR ''}''" "\<not> json_space CHR ''[''" "\<not> json_space CHR '']''"
  "\<not> json_space CHR '',''" "\<not> json_space CHR '':''" "\<not> json_space dquote" "\<not> json_space CHR ''-''"
  "\<not> json_space CHR ''t''" "\<not> json_space CHR ''f''" "\<not> json_space CHR ''n''"
  by (simp_all add: json_space_def)

lemma is_digit_not [simp]:
  "\<not> is_digit CHR ''{''" "\<not> is_digit CHR ''}''" "\<not> is_digit CHR ''[''" "\<not> is_digit CHR '']''"
  "\<not> is_digit dquote" "\<not> is_digit CHR ''t''" "\<not> is_digit CHR ''f''" "\<not> is_digit CHR ''n''"
  by (simp_all add: is_digit_def digit_val_def in_range_def)

lemma is_digit_no_space: "is_digit c \<Longrightarrow> \<not> json_space c"
  by (auto simp: json_space_def)  (auto simp: is_digit_def digit_val_def in_range_def)

lemma json_run_scalar:
  assumes "scan_scalar (c # cs) = Some (v, rest)" and "\<not> json_space c" and "c \<noteq> CHR ''{''" and "c \<noteq> CHR ''[''"
  shows "json_run BeginValue st (c # cs) = json_run (EndValue v) st rest"
  using assms by (intro json_run_token) simp_all

lemma json_run_array_end [simp]:
  "json_run (EndValue v) (InArray vs # st) (CHR '','' # cs) = json_run BeginValue (InArray (v # vs) # st) cs"
  "json_run (EndValue v) (InArray vs # st) (CHR '']'' # cs) = json_run (EndValue (JArr (rev (v # vs)))) st cs"
  "json_run BeginValueOrEmpty st (CHR '']'' # cs) = json_run (EndValue (JArr [])) st cs"
  by (rule json_run_token; simp)+

lemma json_run_object_end [simp]:
  "json_run (EndValue v) (InObject ms k # st) (CHR '','' # cs) = json_run (BeginKey ((k, v) # ms)) st cs"
  "json_run (EndValue v) (InObject ms k # st) (CHR ''}'' # cs) =
     json_run (EndValue (JObj (rev ((k, v) # ms)))) st cs"
  "json_run BeginKeyOrEmpty st (CHR ''}'' # cs) = json_run (EndValue (JObj [])) st cs"
  by (rule json_run_token; simp)+

lemma json_run_open [simp]:
  "length st < maxNestingDepth \<Longrightarrow> json_run BeginValue st (CHR ''['' # cs) = json_run BeginValueOrEmpty st cs"
  "length st < maxNestingDepth \<Longrightarrow> json_run BeginValue st (CHR ''{'' # cs) = json_run BeginKeyOrEmpty st cs"
  by (rule json_run_token; simp)+

lemma json_run_nonempty:
  "c \<noteq> CHR '']'' \<Longrightarrow> \<not> json_space c \<Longrightarrow>
     json_run BeginValueOrEmpty st (c # cs) = json_run BeginValue (InArray [] # st) (c # cs)"
  "c \<noteq> CHR ''}'' \<Longrightarrow> \<not> json_space c \<Longrightarrow>
     json_run BeginKeyOrEmpty st (c # cs) = json_run (BeginKey []) st (c # cs)"
  by (rule json_run_token; simp)+

lemma json_run_key:
  "json_run (BeginKey ms) st (dquote # escape k @ dquote # CHR '':'' # cs) =
     json_run BeginValue (InObject ms (escape k) # st) cs"
  by (rule json_run_token) (simp_all add: scan_key_Some scan_string_escape)

lemma json_text_head:
  "encoded v \<Longrightarrow> \<exists>c cs. json_text v = c # cs \<and> \<not> json_space c \<and> c \<noteq> CHR '']'' \<and> c \<noteq> CHR ''}''"
proof (cases v)
  case (JNum l)
  assume "encoded v"
  then obtain n where "l = FormatInt n" using JNum by auto
  then obtain c cs where "l = c # cs" "c = CHR ''-'' \<or> is_digit c" using FormatInt_head [of n] by auto
  then show ?thesis
    using JNum is_digit_no_space [of c] is_digit_not(2, 4) by (auto simp del: is_digit_not)
qed auto

definition scans_to :: "json \<Rightarrow> bool" where
  "scans_to v \<longleftrightarrow> (\<forall>st t. length st + json_depth v \<le> maxNestingDepth \<longrightarrow> ends_number t \<longrightarrow>
     json_run BeginValue st (json_text v @ t) = json_run (EndValue v) st t)"

lemma scans_toD:
  "scans_to v \<Longrightarrow> length st + json_depth v \<le> maxNestingDepth \<Longrightarrow> ends_number t \<Longrightarrow>
     json_run BeginValue st (json_text v @ t) = json_run (EndValue v) st t"
  by (simp add: scans_to_def)

lemma foldr_max_le: "foldr max ns 0 \<le> (b :: nat) \<longleftrightarrow> (\<forall>n \<in> set ns. n \<le> b)"
  by (induction ns) auto

lemma json_run_elements:
  assumes "vs \<noteq> []" and "\<forall>v \<in> set vs. scans_to v \<and> Suc (length st) + json_depth v \<le> maxNestingDepth"
  shows "json_run BeginValue (InArray acc # st) (join_with CHR '','' (map json_text vs) @ CHR '']'' # t) =
    json_run (EndValue (JArr (rev acc @ vs))) st t"
  using assms
proof (induction vs arbitrary: acc)
  case (Cons v vs)
  show ?case
  proof (cases "vs = []")
    case True
    with Cons.prems show ?thesis using scans_toD [of v "InArray acc # st" "CHR '']'' # t"] by simp
  next
    case False
    with Cons scans_toD [of v "InArray acc # st"] show ?thesis by (simp add: join_with_Cons)
  qed
qed simp

lemma json_run_members:
  assumes "ms \<noteq> []"
    and "\<forall>(k, v) \<in> set ms. (\<exists>s. k = escape s) \<and> scans_to v \<and> Suc (length st) + json_depth v \<le> maxNestingDepth"
  shows "json_run (BeginKey acc) st
      (join_with CHR '','' (map member_text (map (map_prod id json_text) ms)) @ CHR ''}'' # t) =
    json_run (EndValue (JObj (rev acc @ ms))) st t"
  using assms
proof (induction ms arbitrary: acc)
  case (Cons p ms)
  obtain k v where p: "p = (escape k, v)" using Cons.prems by (cases p) auto
  have v: "scans_to v" "Suc (length st) + json_depth v \<le> maxNestingDepth" using Cons.prems p by auto
  have step: "json_run (BeginKey acc) st (member_text (escape k, json_text v) @ u) =
      json_run (EndValue v) (InObject acc (escape k) # st) u" if "ends_number u" for u
    using scans_toD [OF v(1), of "InObject acc (escape k) # st" u] v(2) that
    by (simp add: member_text_def json_run_key)
  show ?case
  proof (cases "ms = []")
    case True
    then show ?thesis using step [of "CHR ''}'' # t"] by (simp add: p)
  next
    case False
    with Cons step show ?thesis by (simp add: p join_with_Cons)
  qed
qed simp

lemma json_text_scalar:
  assumes "encoded v" and "json_depth v = 0" and "ends_number t"
  shows "json_run BeginValue st (json_text v @ t) = json_run (EndValue v) st t"
proof -
  obtain c cs where c: "json_text v = c # cs" "\<not> json_space c" using json_text_head [OF assms(1)] by blast
  have "scan_scalar (json_text v @ t) = Some (v, t)"
  proof (cases v)
    case (JNum l)
    with assms(1) obtain n where n: "l = FormatInt n" by auto
    then obtain c cs where "l = c # cs" "c = CHR ''-'' \<or> is_digit c" using FormatInt_head [of n] by auto
    then show ?thesis using JNum n scan_number_FormatInt [OF assms(3), of n] by (auto simp: scan_scalar_def)
  next
    case (JStr raw)
    with assms(1) show ?thesis by (auto simp: scan_scalar_def scan_string_escape)
  qed (use assms(2) in \<open>auto simp: scan_scalar_def scan_literal_def literals_def HasPrefix_def\<close>)
  moreover have "c \<noteq> CHR ''{'' \<and> c \<noteq> CHR ''[''"
  proof (cases v)
    case (JNum l)
    with assms(1) obtain n where "l = FormatInt n" by auto
    then show ?thesis using JNum c FormatInt_head [of n] by auto
  qed (use assms(2) c in \<open>auto split: if_splits\<close>)
  ultimately show ?thesis using json_run_scalar [of c "cs @ t" v t st] c by simp
qed

text \<open>Scanning a printed document, in any context and up to the nesting limit, completes its value.\<close>

lemma encoded_scans: "encoded v \<Longrightarrow> scans_to v"
proof (induction v)
  case (JArr vs)
  then have vs: "\<forall>v \<in> set vs. scans_to v" by (auto simp: list_all_iff)
  show ?case unfolding scans_to_def
  proof (intro allI impI)
    fix st :: "frame list" and t
    assume d: "length st + json_depth (JArr vs) \<le> maxNestingDepth" and "ends_number t"
    then have d': "\<forall>v \<in> set vs. Suc (length st) + json_depth v \<le> maxNestingDepth"
      using foldr_max_le [of "map json_depth vs" "maxNestingDepth - Suc (length st)"] by fastforce
    show "json_run BeginValue st (json_text (JArr vs) @ t) = json_run (EndValue (JArr vs)) st t"
    proof (cases vs)
      case (Cons w ws)
      obtain c cs where "json_text w = c # cs" "\<not> json_space c" "c \<noteq> CHR '']''"
        using json_text_head [of w] JArr.prems Cons by auto
      then obtain cs' where "join_with CHR '','' (map json_text vs) @ CHR '']'' # t = c # cs'"
        by (cases ws) (simp_all add: Cons)
      then show ?thesis
        using json_run_nonempty(1) [of c st cs'] json_run_elements [of vs st "[]" t] vs d d' Cons
          \<open>\<not> json_space c\<close> \<open>c \<noteq> CHR '']''\<close> by simp
    qed (use d in simp)
  qed
next
  case (JObj ms)
  then have ms: "\<forall>(k, v) \<in> set ms. (\<exists>s. k = escape s) \<and> scans_to v" by (fastforce simp: list_all_iff)
  show ?case unfolding scans_to_def
  proof (intro allI impI)
    fix st :: "frame list" and t
    assume d: "length st + json_depth (JObj ms) \<le> maxNestingDepth" and "ends_number t"
    then have d': "\<forall>(k, v) \<in> set ms. Suc (length st) + json_depth v \<le> maxNestingDepth"
      using foldr_max_le [of "map snd (map (map_prod id json_depth) ms)" "maxNestingDepth - Suc (length st)"]
      by fastforce
    show "json_run BeginValue st (json_text (JObj ms) @ t) = json_run (EndValue (JObj ms)) st t"
    proof (cases ms)
      case (Cons p ps)
      then obtain cs where "join_with CHR '','' (map member_text (map (map_prod id json_text) ms)) @ CHR ''}'' # t
          = dquote # cs"
        by (cases ps) (simp_all add: member_text_def)
      then show ?thesis
        using json_run_nonempty(2) [of dquote st cs] json_run_members [of ms st "[]" t] ms d d' Cons
        by fastforce
    qed (use d in simp)
  qed
qed (simp_all add: scans_to_def json_text_scalar del: json_text.simps)

lemma json_decode_text:
  assumes "encoded v" and "json_depth v \<le> maxNestingDepth" and "ends_number t"
  shows "json_decode (json_text v @ t) = Some (v, t)"
  using scans_toD [OF encoded_scans [OF assms(1)], of "[]" t] assms(2, 3)
  by (simp add: json_decode_def json_run.simps [of "EndValue v"])

lemma json_parse_text:
  "encoded v \<Longrightarrow> json_depth v \<le> maxNestingDepth \<Longrightarrow> json_parse (json_text v) = Some v"
  using json_decode_text [of v "[]"] by (simp add: json_parse_def)

section \<open>Structs\<close>

text \<open>
  A field is its name and the way a value is stored in it. A member is stored in the field of that
  name, else in the first field whose name differs only in case (U+017F and U+212A fold to S and K),
  else it is ignored; a later member overwrites an earlier one; null changes nothing.
\<close>

type_synonym 'r field = "string \<times> (json \<Rightarrow> 'r \<Rightarrow> 'r option)"

definition fold_rune :: "rune \<Rightarrow> rune" where
  "fold_rune r = (if r = 383 then 83 else if r = 8490 then 75 else ascii_upper r)"

definition fold_name :: "string \<Rightarrow> rune list" where
  "fold_name s = map fold_rune (runes s)"

definition find_field :: "'r field list \<Rightarrow> string \<Rightarrow> 'r field option" where
  "find_field fs key =
     (case find (\<lambda>f. fst f = key) fs of
        Some f \<Rightarrow> Some f
      | None \<Rightarrow> find (\<lambda>f. fold_name (fst f) = fold_name key) fs)"

fun decode_members :: "'r field list \<Rightarrow> (string \<times> json) list \<Rightarrow> 'r \<Rightarrow> 'r option" where
  "decode_members fs [] r = Some r"
| "decode_members fs ((k, v) # ms) r =
     Option.bind (unquote k) (\<lambda>key.
       case find_field fs key of
         None \<Rightarrow> decode_members fs ms r
       | Some f \<Rightarrow> Option.bind (snd f v r) (decode_members fs ms))"

fun decode_struct :: "'r field list \<Rightarrow> 'r \<Rightarrow> json \<Rightarrow> 'r option" where
  "decode_struct fs r (JObj ms) = decode_members fs ms r"
| "decode_struct fs r JNull = Some r"
| "decode_struct fs r _ = None"

fun decode_slice :: "(json \<Rightarrow> 'r option) \<Rightarrow> json \<Rightarrow> 'r list option" where
  "decode_slice dec (JArr vs) =
     foldr (\<lambda>v acc. Option.bind (dec v) (\<lambda>x. map_option ((#) x) acc)) vs (Some [])"
| "decode_slice dec JNull = Some []"
| "decode_slice dec _ = None"

text \<open>Storing in a string, an \<^verbatim>\<open>int64\<close> and a slice field; \<open>upd\<close> sets the field of the record.\<close>

fun set_string :: "(string \<Rightarrow> 'r \<Rightarrow> 'r) \<Rightarrow> json \<Rightarrow> 'r \<Rightarrow> 'r option" where
  "set_string upd (JStr raw) r = map_option (\<lambda>s. upd s r) (unquote raw)"
| "set_string upd JNull r = Some r"
| "set_string upd _ r = None"

fun set_int64 :: "(int \<Rightarrow> 'r \<Rightarrow> 'r) \<Rightarrow> json \<Rightarrow> 'r \<Rightarrow> 'r option" where
  "set_int64 upd (JNum l) r = map_option (\<lambda>n. upd n r) (Atoi l)"
| "set_int64 upd JNull r = Some r"
| "set_int64 upd _ r = None"

definition set_slice :: "(json \<Rightarrow> 'a option) \<Rightarrow> ('a list \<Rightarrow> 'r \<Rightarrow> 'r) \<Rightarrow> json \<Rightarrow> 'r \<Rightarrow> 'r option" where
  "set_slice dec upd v r = map_option (\<lambda>xs. upd xs r) (decode_slice dec v)"

fun set_bool :: "(bool \<Rightarrow> 'r \<Rightarrow> 'r) \<Rightarrow> json \<Rightarrow> 'r \<Rightarrow> 'r option" where
  "set_bool upd (JBool b) r = Some (upd b r)"
| "set_bool upd JNull r = Some r"
| "set_bool upd _ r = None"

text \<open>A struct field is decoded into the value it has: members that are absent keep theirs.\<close>

definition set_struct ::
  "'a field list \<Rightarrow> ('r \<Rightarrow> 'a) \<Rightarrow> ('a \<Rightarrow> 'r \<Rightarrow> 'r) \<Rightarrow> json \<Rightarrow> 'r \<Rightarrow> 'r option" where
  "set_struct fs get upd v r = map_option (\<lambda>x. upd x r) (decode_struct fs (get r) v)"

text \<open>The members a struct is written as; \<open>omitempty\<close> leaves out an empty string.\<close>

definition string_member :: "string \<Rightarrow> string \<Rightarrow> (string \<times> json) list" where
  "string_member name s = [(escape name, JStr (escape s))]"

definition omitempty :: "string \<Rightarrow> string \<Rightarrow> (string \<times> json) list" where
  "omitempty name s = (if s = [] then [] else string_member name s)"

definition int_member :: "string \<Rightarrow> int \<Rightarrow> (string \<times> json) list" where
  "int_member name n = [(escape name, JNum (FormatInt n))]"

definition value_member :: "string \<Rightarrow> json \<Rightarrow> (string \<times> json) list" where
  "value_member name v = [(escape name, v)]"

text \<open>\<^verbatim>\<open>json.Marshal\<close>, \<^verbatim>\<open>json.Unmarshal\<close> and \<^verbatim>\<open>json.NewDecoder(r).Decode\<close> with the tree in between.\<close>

definition json_error :: goerror where
  "json_error = ErrorString ''json: cannot decode''"

definition json_Marshal :: "json \<Rightarrow> bytes" where
  "json_Marshal v = bytes_of (json_text v)"

definition json_Unmarshal :: "(json \<Rightarrow> 'r option) \<Rightarrow> bytes \<Rightarrow> 'r result" where
  "json_Unmarshal dec b =
     (case Option.bind (json_parse (string_of b)) dec of None \<Rightarrow> Inl json_error | Some r \<Rightarrow> Inr r)"

definition json_Decode :: "(json \<Rightarrow> 'r option) \<Rightarrow> bytes \<Rightarrow> 'r result" where
  "json_Decode dec b =
     (case Option.bind (json_decode (string_of b)) (\<lambda>(v, _). dec v) of
        None \<Rightarrow> Inl json_error | Some r \<Rightarrow> Inr r)"

subsection \<open>Lemmas\<close>

lemma encoded_members [simp]:
  "list_all (\<lambda>p. (\<exists>s. fst p = escape s) \<and> snd p) (map (map_prod id encoded) (string_member name s))"
  "list_all (\<lambda>p. (\<exists>s. fst p = escape s) \<and> snd p) (map (map_prod id encoded) (omitempty name s))"
  "list_all (\<lambda>p. (\<exists>s. fst p = escape s) \<and> snd p) (map (map_prod id encoded) (int_member name n))"
  "list_all (\<lambda>p. (\<exists>s. fst p = escape s) \<and> snd p) (map (map_prod id encoded) (value_member name v)) \<longleftrightarrow> encoded v"
  by (auto simp: string_member_def omitempty_def int_member_def value_member_def)

lemma depth_members [simp]:
  "foldr max (map (json_depth \<circ> snd) (string_member name s)) d = d"
  "foldr max (map (json_depth \<circ> snd) (omitempty name s)) d = d"
  "foldr max (map (json_depth \<circ> snd) (int_member name n)) d = d"
  "foldr max (map (json_depth \<circ> snd) (value_member name v)) d = max (json_depth v) d"
  by (simp_all add: string_member_def omitempty_def int_member_def value_member_def)

lemma Unmarshal_Marshal:
  assumes "encoded v" and "json_depth v \<le> maxNestingDepth" and "dec v = Some r"
  shows "json_Unmarshal dec (json_Marshal v) = Inr r"
  using json_parse_text [OF assms(1, 2)] assms(3) by (simp add: json_Unmarshal_def json_Marshal_def)

named_theorems json_simps "decoding of the members a struct is written as"

lemma utf8_literal [json_simps]: "list_all ascii_char s \<Longrightarrow> valid_utf8 s"
  by (simp add: valid_utf8_ascii is_ascii_def)

lemmas [json_simps] = string_member_def omitempty_def int_member_def unquote_escape find_field_def
  Atoi_FormatInt ascii_char_def set_slice_def set_struct_def value_member_def

lemma decode_slice_all:
  "\<forall>x \<in> set xs. dec (enc x) = Some x \<Longrightarrow> decode_slice dec (JArr (map enc xs)) = Some xs"
  by (induction xs) auto

text \<open>A member whose name matches no field, even up to case, changes nothing.\<close>

lemma decode_unknown:
  "unquote k = Some key \<Longrightarrow> find_field fs key = None \<Longrightarrow>
     decode_members fs (ms @ (k, v) # ms') r = decode_members fs (ms @ ms') r"
  by (induction ms arbitrary: r) (auto split: option.splits simp: bind_eq_Some_conv intro!: bind_option_cong)

text \<open>
  A message type: how its values are written and read as trees, for the values with \<open>good\<close> text. What
  was written as a document is then read back from its bytes.
\<close>

locale json_message =
  fixes enc :: "'r \<Rightarrow> json" and dec :: "json \<Rightarrow> 'r option" and good :: "'r \<Rightarrow> bool"
  assumes dec_enc: "good r \<Longrightarrow> dec (enc r) = Some r"
    and enc_encoded: "encoded (enc r)"
    and enc_depth: "json_depth (enc r) \<le> 10"
begin

lemma read_text: "good r \<Longrightarrow> json_Unmarshal dec (json_Marshal (enc r)) = Inr r"
  using enc_depth [of r] by (intro Unmarshal_Marshal enc_encoded dec_enc) (simp_all add: maxNestingDepth_def)

lemma read_list: "list_all good rs \<Longrightarrow> decode_slice dec (JArr (map enc rs)) = Some rs"
  by (intro decode_slice_all) (simp add: list_all_iff dec_enc)

lemma list_encoded: "encoded (JArr (map enc rs))"
  using enc_encoded by (auto simp: list_all_iff)

end

section \<open>Input after the value\<close>

text \<open>
  Only a number can be continued by what follows it, so any other value is scanned the same
  whatever comes after it.
\<close>

lemma escape_len_append: "escape_len s \<noteq> 0 \<Longrightarrow> escape_len (s @ t) = escape_len s \<and> escape_len s \<le> length s"
  by (auto simp: escape_len_def split: list.splits if_splits)

lemma scan_string_append: "scan_string s = Some (raw, rest) \<Longrightarrow> scan_string (s @ t) = Some (raw, rest @ t)"
proof (induction s arbitrary: raw rest rule: scan_string.induct)
  case (2 c cs)
  show ?case
  proof (cases "c = bslash")
    case True
    with "2.prems" obtain r0 where r0: "scan_string (drop (escape_len cs) cs) = Some (r0, rest)"
      "raw = c # take (escape_len cs) cs @ r0" and n: "escape_len cs \<noteq> 0"
      by (auto simp: Let_def split: if_splits)
    then have "scan_string (drop (escape_len cs) cs @ t) = Some (r0, rest @ t)"
      using "2.IH"(1) [of "escape_len cs" r0 rest] True by simp
    with True r0 n escape_len_append [OF n, of t] show ?thesis by (simp add: Let_def)
  next
    case False
    with "2.prems" "2.IH"(2) show ?thesis by (auto split: if_splits)
  qed
qed simp

lemma span_append:
  "dropWhile P s \<noteq> [] \<Longrightarrow> takeWhile P (s @ t) = takeWhile P s \<and> dropWhile P (s @ t) = dropWhile P s @ t"
  by (induction s) auto

lemma scan_int_append: "scan_int s = Some (l, rest) \<Longrightarrow> rest \<noteq> [] \<Longrightarrow> scan_int (s @ t) = Some (l, rest @ t)"
  using span_append [of is_digit s t] by (auto simp: scan_int_def split: list.splits if_splits)

lemma HasPrefix_one: "HasPrefix s [c] \<longleftrightarrow> s \<noteq> [] \<and> hd s = c"
  by (cases s) (auto simp: HasPrefix_def)

lemma scan_frac_append: "scan_frac s = Some (l, rest) \<Longrightarrow> rest \<noteq> [] \<Longrightarrow> scan_frac (s @ t) = Some (l, rest @ t)"
  using span_append [of is_digit "tl s" t] by (cases s) (auto simp: scan_frac_def HasPrefix_one Let_def split: if_splits)

lemma scan_exp_append: "scan_exp s = Some (l, rest) \<Longrightarrow> rest \<noteq> [] \<Longrightarrow> scan_exp (s @ t) = Some (l, rest @ t)"
proof (cases s)
  case (Cons c cs)
  assume s: "scan_exp s = Some (l, rest)" and r: "rest \<noteq> []"
  show ?thesis
  proof (cases cs)
    case Nil
    with s r Cons show ?thesis by (auto simp: scan_exp_def HasPrefix_one Let_def split: if_splits)
  next
    case (Cons d ds)
    with s r \<open>s = c # cs\<close> span_append [of is_digit "d # ds" t] span_append [of is_digit ds t] show ?thesis
      by (auto simp: scan_exp_def HasPrefix_one Let_def split: if_splits)
  qed
qed (simp add: scan_exp_def HasPrefix_one)

lemma scan_number_append:
  assumes "scan_number s = Some (l, rest)" and "rest \<noteq> []"
  shows "scan_number (s @ t) = Some (l, rest @ t)"
proof -
  define sg where "sg = (if HasPrefix s ''-'' then 1 else 0 :: nat)"
  obtain i s1 f s2 e where p: "scan_int (drop sg s) = Some (i, s1)" "scan_frac s1 = Some (f, s2)"
      "scan_exp s2 = Some (e, rest)" and l: "l = take sg s @ i @ f @ e"
    using assms(1) by (auto simp: scan_number_def Let_def bind_eq_Some_conv sg_def)
  have ne: "s2 \<noteq> []" "s1 \<noteq> []" "s \<noteq> []"
    using p(3) p(2) p(1) scan_exp_length [OF p(3)] scan_frac_length [OF p(2)] scan_int_length [OF p(1)] assms(2)
    by auto
  then have "sg \<le> length s" "(if HasPrefix (s @ t) ''-'' then 1 else 0) = sg"
    by (cases s; simp add: sg_def HasPrefix_one)+
  with p ne assms(2) l show ?thesis
    by (simp add: scan_number_def scan_int_append scan_frac_append scan_exp_append)
qed

lemma scan_literal_append: "scan_literal s = Some (v, rest) \<Longrightarrow> scan_literal (s @ t) = Some (v, rest @ t)"
proof -
  have p: "HasPrefix s w \<Longrightarrow> HasPrefix (s @ t) w \<and> length w \<le> length s" for w
    by (auto simp: HasPrefix_iff)
  have q: "HasPrefix s w \<and> HasPrefix (s @ t) w' \<Longrightarrow> hd w = hd w'" if "w \<noteq> []" "w' \<noteq> []" for w w'
    using that by (auto simp: HasPrefix_iff) (metis hd_append2)
  assume "scan_literal s = Some (v, rest)"
  then show ?thesis
    using p [of "''true''"] p [of "''false''"] p [of "''null''"]
      q [of "''false''" "''true''"] q [of "''null''" "''true''"] q [of "''null''" "''false''"]
    by (auto simp: scan_literal_def literals_def split: if_splits)
qed

lemma scan_scalar_append:
  assumes "scan_scalar s = Some (v, rest)" and "rest \<noteq> [] \<or> (\<forall>l. v \<noteq> JNum l)"
  shows "scan_scalar (s @ t) = Some (v, rest @ t)"
proof (cases s)
  case (Cons c cs)
  with assms scan_string_append [of cs _ rest t] scan_number_append [of "c # cs" _ rest t]
    scan_literal_append [of "c # cs" v rest t] show ?thesis
    by (auto simp: scan_scalar_def split: if_splits)
qed (use assms in \<open>simp add: scan_scalar_def\<close>)

lemma scan_key_append:
  assumes "scan_key s = Some (k, rest)"
  shows "scan_key (s @ t) = Some (k, rest @ t)"
proof -
  obtain cs r where s: "s = dquote # cs" "scan_string cs = Some (k, r)" "dropWhile json_space r = CHR '':'' # rest"
    using assms by (auto simp: scan_key_Some)
  with span_append [of json_space r t] scan_string_append [OF s(2), of t] show ?thesis
    by (auto simp: scan_key_Some)
qed

lemma json_token_append:
  "json_token m st c cs = Some (m', st', s') \<Longrightarrow> s' \<noteq> [] \<or> (\<forall>l. m' \<noteq> EndValue (JNum l)) \<Longrightarrow>
     json_token m st c (cs @ t) = Some (m', st', s' @ t)"
  using scan_scalar_append [of "c # cs" _ s' t] scan_key_append [of "c # cs" _ s' t]
  by (induction m st c cs rule: json_token.induct) (auto split: if_splits)

lemma json_step_append:
  "json_step m st s = Some (m', st', s') \<Longrightarrow> s' \<noteq> [] \<or> (\<forall>l. m' \<noteq> EndValue (JNum l)) \<Longrightarrow>
     json_step m st (s @ t) = Some (m', st', s' @ t)"
  using span_append [of json_space s t]
  by (cases "dropWhile json_space s") (auto simp: json_step_def json_token_append)

lemma json_run_append:
  "json_run m st s = Some (v, r) \<Longrightarrow> (\<forall>l. v \<noteq> JNum l) \<Longrightarrow> json_run m st (s @ t) = Some (v, r @ t)"
proof (induction m st s rule: json_run.induct)
  case (1 m st s)
  show ?case
  proof (cases "\<exists>u. m = EndValue u \<and> st = []")
    case True
    with 1 show ?thesis by (auto simp: json_run.simps)
  next
    case False
    then have run: "json_run m st x = (case json_step m st x of None \<Rightarrow> None
        | Some (m', st', s') \<Rightarrow> json_run m' st' s')" for x
      by (cases m; cases st; subst json_run.simps; simp)
    obtain m' st' s' where q: "json_step m st s = Some (m', st', s')" and r: "json_run m' st' s' = Some (v, r)"
      using "1.prems"(1) run [of s] by (auto split: option.splits)
    have "s' \<noteq> [] \<or> (\<forall>l. m' \<noteq> EndValue (JNum l))"
      using r "1.prems"(2) by (cases st') (auto simp: json_run.simps json_step_def)
    moreover have "json_run m' st' (s' @ t) = Some (v, r @ t)"
      using "1.IH" q r "1.prems"(2) False by (cases m; cases st; auto)
    ultimately show ?thesis
      using json_step_append [OF q] by (simp add: run)
  qed
qed

lemma json_decode_append:
  "json_decode s = Some (v, r) \<Longrightarrow> (\<forall>l. v \<noteq> JNum l) \<Longrightarrow> json_decode (s @ t) = Some (v, r @ t)"
  unfolding json_decode_def by (rule json_run_append)

lemma encoded_JObj: "encoded (JObj ms) \<longleftrightarrow> (\<forall>p \<in> set ms. (\<exists>s. fst p = escape s) \<and> encoded (snd p))"
  by (auto simp: list_all_iff)

lemma json_depth_JObj: "json_depth (JObj ms) \<le> Suc n \<longleftrightarrow> (\<forall>p \<in> set ms. json_depth (snd p) \<le> n)"
  by (simp add: foldr_max_le)

lemma json_decode_object:
  assumes "encoded (JObj ms)" and "json_depth (JObj ms) \<le> maxNestingDepth"
  shows "json_decode (string_of (json_Marshal (JObj ms) @ junk)) = Some (JObj ms, string_of junk)"
proof -
  have "json_decode (json_text (JObj ms)) = Some (JObj ms, [])"
    using json_decode_text [OF assms, of "[]"] by simp
  from json_decode_append [OF this, of "string_of junk"] show ?thesis
    by (simp add: json_Marshal_def string_of_append)
qed

lemma find_field_None:
  "fold_name key \<notin> (\<lambda>f. fold_name (fst f)) ` set fs \<Longrightarrow> find_field fs key = None"
proof -
  assume *: "fold_name key \<notin> (\<lambda>f. fold_name (fst f)) ` set fs"
  then have "find (\<lambda>f. fst f = key) fs = None" "find (\<lambda>f. fold_name (fst f) = fold_name key) fs = None"
    by (auto simp: find_None_iff image_iff)
  then show ?thesis by (simp add: find_field_def)
qed

section \<open>Text that needs no escape\<close>

definition plain_char :: "char \<Rightarrow> bool" where
  "plain_char c \<longleftrightarrow> 32 \<le> (of_char c :: nat) \<and> of_char c < (128 :: nat) \<and>
     c \<notin> {dquote, bslash, CHR ''<'', CHR ''>'', CHR ''&''}"

lemma escape_plain:
  assumes "list_all plain_char s"
  shows "escape s = s"
proof -
  have e: "escape_chunk (of_char c, [c]) = [c]" if "plain_char c" for c
  proof -
    have "of_char c \<noteq> (34 :: nat)" "of_char c \<noteq> (92 :: nat)" "of_char c \<noteq> (60 :: nat)"
      "of_char c \<noteq> (62 :: nat)" "of_char c \<noteq> (38 :: nat)"
      using that by (simp_all add: plain_char_def of_char_inject [symmetric])
    with that show ?thesis by (simp add: plain_char_def escape_byte_def)
  qed
  have "is_ascii s" using assms by (auto simp: is_ascii_def list_all_iff ascii_char_def plain_char_def)
  then have "escape s = concat (map (\<lambda>c. escape_chunk (of_char c, [c])) s)"
    by (simp add: escape_def chunks_ascii o_def)
  also have "\<dots> = s" using assms e by (induction s) (simp_all del: escape_chunk.simps)
  finally show ?thesis .
qed

lemma plain_digit: "digit_val c \<noteq> None \<Longrightarrow> plain_char c"
  by (auto simp: plain_char_def) (auto simp: digit_val_def in_range_def Let_def split: if_splits)

end
