(* ===== verification/Token.thy ===== *)
theory Token
  imports Signature Go_JSON
begin

text \<open>
  \<^verbatim>\<open>src/token.go\<close> and \<^verbatim>\<open>token_errors.go\<close>: the authentication token, its structural validation
  and the decoding of its JSON document and its base64 fields.
\<close>

section \<open>Model\<close>

definition supportedTokenMajorVersion :: int where "supportedTokenMajorVersion = 1"

record AuthToken =
  UnverifiedCertificate :: string
  Algorithm :: string
  tok_Signature :: string
  Format :: string
  AppVersion :: string

definition errEmptyToken :: goerror where
  "errEmptyToken = ErrorString ''authentication token is empty''"

definition errMissingField :: "string \<Rightarrow> goerror" where
  "errMissingField name = FmtError ''mandatory token field %q is missing'' [name] None"

definition errUnknownAlgorithm :: "string \<Rightarrow> goerror" where
  "errUnknownAlgorithm algorithm = FmtError ''unsupported signature algorithm %q'' [algorithm] None"

definition errBadFormat :: "string \<Rightarrow> goerror" where
  "errBadFormat format = FmtError ''unsupported token format %q'' [format] None"

definition validateFormat :: "AuthToken \<Rightarrow> goerror option" where
  "validateFormat t =
     (if Format t = [] then Some (wrapped ErrTokenParse (errMissingField ''format''))
      else if \<not> HasPrefix (Format t) ''web-eid:''
      then Some (wrapped ErrTokenUnsupportedFormat (errBadFormat (Format t)))
      else let version = TrimPrefix (Format t) ''web-eid:'';
               majorStr = cut_before CHR ''.'' version
        in case Atoi majorStr of
             None \<Rightarrow> Some (wrapped ErrTokenUnsupportedFormat (errBadFormat (Format t)))
           | Some major \<Rightarrow>
               if major \<noteq> supportedTokenMajorVersion
               then Some (wrapped ErrTokenUnsupportedFormat (errBadFormat (Format t)))
               else None)"

definition validateStructure :: "AuthToken \<Rightarrow> goerror option" where
  "validateStructure t =
     (if UnverifiedCertificate t = []
      then Some (wrapped ErrTokenParse (errMissingField ''unverifiedCertificate''))
      else if tok_Signature t = [] then Some (wrapped ErrTokenParse (errMissingField ''signature''))
      else if Algorithm t = [] then Some (wrapped ErrTokenParse (errMissingField ''algorithm''))
      else if \<not> IsSupportedAlgorithm (Algorithm t)
      then Some (wrapped ErrTokenParse (errUnknownAlgorithm (Algorithm t)))
      else validateFormat t)"

text \<open>The struct tags of \<^verbatim>\<open>AuthToken\<close> and its zero value, which decoding starts from.\<close>

definition AuthToken_fields :: "AuthToken field list" where
  "AuthToken_fields =
     [(''unverifiedCertificate'', set_string (\<lambda>s t. t\<lparr>UnverifiedCertificate := s\<rparr>)),
      (''algorithm'', set_string (\<lambda>s t. t\<lparr>Algorithm := s\<rparr>)),
      (''signature'', set_string (\<lambda>s t. t\<lparr>tok_Signature := s\<rparr>)),
      (''format'', set_string (\<lambda>s t. t\<lparr>Format := s\<rparr>)),
      (''appVersion'', set_string (\<lambda>s t. t\<lparr>AppVersion := s\<rparr>))]"

definition AuthToken_zero :: AuthToken where
  "AuthToken_zero = \<lparr>UnverifiedCertificate = [], Algorithm = [], tok_Signature = [], Format = [],
     AppVersion = []\<rparr>"

definition decode_AuthToken :: "json \<Rightarrow> AuthToken option" where
  "decode_AuthToken = decode_struct AuthToken_fields AuthToken_zero"

definition Parse :: "bytes \<Rightarrow> AuthToken result" where
  "Parse tokenJSON =
     (if tokenJSON = [] then Inl (wrapped ErrTokenParse errEmptyToken)
      else case json_Decode decode_AuthToken tokenJSON of
        Inl err \<Rightarrow> Inl (wrapped ErrTokenParse err)
      | Inr token \<Rightarrow> checkE (validateStructure token) (Inr token))"

definition decodeCertificate :: "AuthToken \<Rightarrow> bytes result" where
  "decodeCertificate t =
     (case StdEncoding_DecodeString (UnverifiedCertificate t) of
        None \<Rightarrow> Inl (wrapped ErrTokenParse base64_error) | Some der \<Rightarrow> Inr der)"

definition decodeSignature :: "AuthToken \<Rightarrow> bytes result" where
  "decodeSignature t =
     (case StdEncoding_DecodeString (tok_Signature t) of
        None \<Rightarrow> Inl (wrapped ErrTokenParse base64_error) | Some sig \<Rightarrow> Inr sig)"

section \<open>Lemmas\<close>

lemma validateFormat_None:
  "validateFormat t = None \<longleftrightarrow>
     (\<exists>v. Format t = ''web-eid:'' @ v \<and> Atoi (cut_before CHR ''.'' v) = Some 1)"
  by (auto simp: validateFormat_def supportedTokenMajorVersion_def HasPrefix_iff Let_def
      TrimPrefix_def split: option.splits if_splits)

lemma validateFormat_reports:
  "validateFormat t = Some e \<Longrightarrow> reports e ErrTokenParse \<or> reports e ErrTokenUnsupportedFormat"
  by (auto simp: validateFormat_def Let_def split: if_splits option.splits)

lemma validateStructure_None:
  "validateStructure t = None \<longleftrightarrow>
     UnverifiedCertificate t \<noteq> [] \<and> tok_Signature t \<noteq> [] \<and>
     IsSupportedAlgorithm (Algorithm t) \<and> validateFormat t = None"
  by (auto simp: validateStructure_def IsSupportedAlgorithm_def jwaToHash_def)

lemma validateStructure_reports:
  "validateStructure t = Some e \<Longrightarrow> reports e ErrTokenParse \<or> reports e ErrTokenUnsupportedFormat"
  by (auto simp: validateStructure_def dest: validateFormat_reports split: if_splits)

lemma cut_before_decimal: "cut_before CHR ''.'' (decimal n @ CHR ''.'' # m) = decimal n"
  using decimal_digits digit_val_not(1)
  by (auto simp: cut_before_def takeWhile_append2)

lemma Atoi_decimal_1: "Atoi (decimal n) = Some 1 \<longleftrightarrow> n = 1"
proof (cases "int n \<le> max_int64")
  case False
  have "Atoi (decimal n) \<noteq> Some 1"
  proof
    assume *: "Atoi (decimal n) = Some 1"
    obtain c cs where cs: "decimal n = c # cs" by (cases "decimal n") auto
    with decimal_digits [of c n] have "digit_val c \<noteq> None" by simp
    then have "\<not> HasPrefix (decimal n) ''-''" "\<not> HasPrefix (decimal n) ''+''"
      by (auto simp: cs HasPrefix_def digit_val_def in_range_def)
    with * have "int n = 1"
      by (auto simp: Atoi_def digits_val_decimal Let_def split: if_splits)
    with False show False by (simp add: max_int64_def)
  qed
  with False show ?thesis by (auto simp: max_int64_def)
qed (simp add: Atoi_decimal)

lemma supported_names:
  "IsSupportedAlgorithm a \<longleftrightarrow> a \<in> {''RS256'', ''RS384'', ''RS512'', ''PS256'', ''PS384'', ''PS512'',
     ''ES256'', ''ES384'', ''ES512''}"
  unfolding IsSupportedAlgorithm_def jwaToHash_def map_of_eq_None_iff by simp

section \<open>Properties\<close>

text \<open>A token whose format is \<^verbatim>\<open>web-eid:\<close> followed by a decimal major version, alone or with a
  minor version after a dot, passes the format check exactly when the major version is 1.\<close>

theorem format_major_version:
  "(validateFormat (t\<lparr>Format := ''web-eid:'' @ decimal n @ CHR ''.'' # m\<rparr>) = None \<longleftrightarrow> n = 1) \<and>
   (validateFormat (t\<lparr>Format := ''web-eid:'' @ decimal n\<rparr>) = None \<longleftrightarrow> n = 1)"
proof -
  have cut: "cut_before CHR ''.'' (decimal n) = decimal n"
    using decimal_digits digit_val_not(1) by (auto simp: cut_before_def takeWhile_eq_all_conv)
  have 1: "validateFormat (t\<lparr>Format := ''web-eid:'' @ decimal n @ CHR ''.'' # m\<rparr>) = None \<longleftrightarrow>
      Atoi (decimal n) = Some 1"
    by (subst validateFormat_None) (auto simp: cut_before_decimal)
  have 2: "validateFormat (t\<lparr>Format := ''web-eid:'' @ decimal n\<rparr>) = None \<longleftrightarrow> Atoi (decimal n) = Some 1"
    by (subst validateFormat_None) (auto simp: cut)
  show ?thesis by (simp only: 1 2 Atoi_decimal_1)
qed

text \<open>The members a client writes for a token, in the order of the struct.\<close>

definition token_members :: "AuthToken \<Rightarrow> (string \<times> json) list" where
  "token_members t =
     string_member ''unverifiedCertificate'' (UnverifiedCertificate t) @
     string_member ''algorithm'' (Algorithm t) @ string_member ''signature'' (tok_Signature t) @
     string_member ''format'' (Format t) @ string_member ''appVersion'' (AppVersion t)"

definition utf8_token :: "AuthToken \<Rightarrow> bool" where
  "utf8_token t \<longleftrightarrow> list_all valid_utf8
     [UnverifiedCertificate t, Algorithm t, tok_Signature t, Format t, AppVersion t]"

lemma decode_token_members:
  "utf8_token t \<Longrightarrow> decode_members AuthToken_fields (token_members t) AuthToken_zero = Some t"
  by (cases t) (simp add: token_members_def utf8_token_def AuthToken_zero_def AuthToken_fields_def json_simps)

lemma Parse_Inr:
  "Parse js = Inr t \<longleftrightarrow> (\<exists>v rest. json_decode (string_of js) = Some (v, rest) \<and> decode_AuthToken v = Some t) \<and>
     validateStructure t = None"
proof -
  have "json_decode [] = None"
    by (simp add: json_decode_def json_run.simps [of BeginValue] json_step_def)
  then show ?thesis
    by (cases "js = []") (auto simp: Parse_def json_Decode_def result_simps string_of_def bind_eq_Some_conv
        split: option.splits sum.splits)
qed

text \<open>C36: Parsing yields exactly the tokens that the JSON value at the start of the input decodes to
  and that have a certificate, a signature, one of the nine supported algorithm names and an accepted
  format; every other input is an error that reports as a malformed token or an unsupported format.\<close>

theorem Parse_iff:
  "(Parse js = Inr t \<longleftrightarrow>
      (\<exists>v rest. json_decode (string_of js) = Some (v, rest) \<and> decode_AuthToken v = Some t) \<and>
      UnverifiedCertificate t \<noteq> [] \<and> tok_Signature t \<noteq> [] \<and>
      Algorithm t \<in> {''RS256'', ''RS384'', ''RS512'', ''PS256'', ''PS384'', ''PS512'',
                     ''ES256'', ''ES384'', ''ES512''} \<and>
      validateFormat t = None) \<and>
   (\<nexists>e. Parse js = Inl e \<and> \<not> reports e ErrTokenParse \<and> \<not> reports e ErrTokenUnsupportedFormat)"
proof
  show "Parse js = Inr t \<longleftrightarrow>
      (\<exists>v rest. json_decode (string_of js) = Some (v, rest) \<and> decode_AuthToken v = Some t) \<and>
      UnverifiedCertificate t \<noteq> [] \<and> tok_Signature t \<noteq> [] \<and>
      Algorithm t \<in> {''RS256'', ''RS384'', ''RS512'', ''PS256'', ''PS384'', ''PS512'',
                     ''ES256'', ''ES384'', ''ES512''} \<and>
      validateFormat t = None"
    by (simp only: Parse_Inr validateStructure_None supported_names)
  show "\<nexists>e. Parse js = Inl e \<and> \<not> reports e ErrTokenParse \<and> \<not> reports e ErrTokenUnsupportedFormat"
    by (auto simp: Parse_def result_simps dest: validateStructure_reports split: sum.splits if_splits)
qed

text \<open>C37: A token document with a member the library does not know, anywhere among the members of a
  token and with any value, followed by anything, is parsed to that token. The new member's name must
  not be one of the five known names in another case.\<close>

theorem Parse_extensible:
  assumes "validateStructure t = None" and "utf8_token t" and "token_members t = ms @ ms'"
    and "valid_utf8 key"
    and "fold_name key \<notin> fold_name ` {''unverifiedCertificate'', ''algorithm'', ''signature'', ''format'',
      ''appVersion''}"
    and "encoded v" and "json_depth v < maxNestingDepth"
  shows "Parse (json_Marshal (JObj (ms @ (escape key, v) # ms')) @ junk) = Inr t"
proof -
  let ?d = "JObj (ms @ (escape key, v) # ms')"
  have none: "find_field AuthToken_fields key = None"
    using assms(5) by (intro find_field_None) (simp add: AuthToken_fields_def)
  have "decode_AuthToken ?d = Some t"
    using decode_unknown [OF unquote_escape [OF assms(4)] none, of ms v ms' AuthToken_zero]
      decode_token_members [OF assms(2)] assms(3) by (simp add: decode_AuthToken_def)
  moreover have "encoded ?d" "json_depth ?d \<le> maxNestingDepth"
  proof -
    have "encoded (JObj (token_members t))" "json_depth (JObj (token_members t)) \<le> Suc 9999"
      by (simp_all add: token_members_def)
    then show "encoded ?d" "json_depth ?d \<le> maxNestingDepth"
      using assms(6, 7) json_depth_JObj [of _ 9999]
      by (auto simp: encoded_JObj json_depth_JObj assms(3) maxNestingDepth_def simp del: encoded.simps(6) json_depth.simps(6))
  qed
  ultimately show ?thesis
    using json_decode_object [of "ms @ (escape key, v) # ms'" junk] assms(1) by (simp only: Parse_Inr) blast
qed

definition minimal_token :: AuthToken where
  "minimal_token = \<lparr>UnverifiedCertificate = ''AQ=='', Algorithm = ''ES384'', tok_Signature = ''Ag=='',
     Format = ''web-eid:1.1'', AppVersion = []\<rparr>"

theorem Parse_extensible_witness:
  "Parse (json_Marshal (JObj (take 2 (token_members minimal_token) @
       (escape ''unverifiedSigningCertificates'', JArr [JNull]) # drop 2 (token_members minimal_token))) @ [10, 33]) =
     Inr minimal_token"
proof (rule Parse_extensible)
  have "cut_before CHR ''.'' ''1.1'' = ''1''" "Atoi ''1'' = Some 1" by code_simp+
  then have "validateFormat minimal_token = None"
    by (subst validateFormat_None) (simp add: minimal_token_def)
  then show "validateStructure minimal_token = None"
    by (simp add: validateStructure_None supported_names minimal_token_def)
qed (simp_all add: minimal_token_def utf8_token_def json_simps fold_name_def runes_ascii is_ascii_def
    fold_rune_def ascii_upper_def in_range_def maxNestingDepth_def)

end
