(* ===== verification/Go_ASN1.thy ===== *)
theory Go_ASN1
  imports Platform
begin

text \<open>
  The part of Go's \<^verbatim>\<open>encoding/asn1\<close> that the sources use: reading the header of a DER value (tag and
  length in minimal form), base-128 numbers and object identifiers with the limits of the package,
  sequences, and writing object identifiers, integers, octet strings and constructed values. The
  main results are that a written value is read back with the input after it, and the same for
  object identifiers and integers.
\<close>

section \<open>Reading\<close>

text \<open>
  \<open>base128 k acc bs\<close> has read \<open>k\<close> bytes of a base-128 number with the value \<open>acc\<close>: at most five
  bytes, no leading zero digit, and a result of at most \<^verbatim>\<open>math.MaxInt32\<close>.
\<close>

fun base128 :: "nat \<Rightarrow> nat \<Rightarrow> bytes \<Rightarrow> (nat \<times> bytes) option" where
  "base128 k acc [] = None"
| "base128 k acc (b # bs) =
     (if k = 5 \<or> (k = 0 \<and> b = 128) then None
      else let acc' = acc * 128 + unat b mod 128 in
        if unat b < 128 then (if acc' \<le> 2147483647 then Some (acc', bs) else None)
        else base128 (Suc k) acc' bs)"

definition parseBase128Int :: "bytes \<Rightarrow> (nat \<times> bytes) option" where
  "parseBase128Int = base128 0 0"

record tagAndLength =
  tl_class :: nat
  tl_isCompound :: bool
  tl_tag :: nat
  tl_length :: nat

text \<open>The length in \<open>n\<close> further bytes: no leading zero byte, and below two to the power 31.\<close>

fun long_length :: "nat \<Rightarrow> nat \<Rightarrow> bytes \<Rightarrow> (nat \<times> bytes) option" where
  "long_length 0 acc bs = Some (acc, bs)"
| "long_length (Suc n) acc [] = None"
| "long_length (Suc n) acc (b # bs) =
     (if acc \<ge> 8388608 \<or> acc * 256 + unat b = 0 then None else long_length n (acc * 256 + unat b) bs)"

definition parse_length :: "bytes \<Rightarrow> (nat \<times> bytes) option" where
  "parse_length s =
     (case s of
        [] \<Rightarrow> None
      | b # bs \<Rightarrow>
          if unat b < 128 then Some (unat b, bs)
          else if unat b = 128 then None
          else Option.bind (long_length (unat b - 128) 0 bs) (\<lambda>(n, rest).
            if n < 128 then None else Some (n, rest)))"

definition parse_tag :: "bytes \<Rightarrow> (nat \<times> bytes) option" where
  "parse_tag s =
     (case s of
        [] \<Rightarrow> None
      | b # bs \<Rightarrow>
          if unat b mod 32 \<noteq> 31 then Some (unat b mod 32, bs)
          else Option.bind (parseBase128Int bs) (\<lambda>(t, rest). if t < 31 then None else Some (t, rest)))"

definition parseTagAndLength :: "bytes \<Rightarrow> (tagAndLength \<times> bytes) option" where
  "parseTagAndLength s =
     Option.bind (parse_tag s) (\<lambda>(tag, s1).
     Option.bind (parse_length s1) (\<lambda>(len, s2).
       Some (\<lparr>tl_class = unat (hd s) div 64, tl_isCompound = odd (unat (hd s) div 32),
              tl_tag = tag, tl_length = len\<rparr>, s2)))"

text \<open>A value: its header, its content and the input after it.\<close>

definition parse_value :: "bytes \<Rightarrow> (tagAndLength \<times> bytes \<times> bytes) option" where
  "parse_value s =
     Option.bind (parseTagAndLength s) (\<lambda>(h, rest).
       if tl_length h \<le> length rest
       then Some (h, take (tl_length h) rest, drop (tl_length h) rest) else None)"

text \<open>The next value, which must have the given class, form and tag.\<close>

definition expect :: "nat \<times> bool \<times> nat \<Rightarrow> bytes \<Rightarrow> (bytes \<times> bytes) option" where
  "expect ty s =
     Option.bind (parse_value s) (\<lambda>(h, content, rest).
       if (tl_class h, tl_isCompound h, tl_tag h) = ty then Some (content, rest) else None)"

definition SEQUENCE :: "nat \<times> bool \<times> nat" where "SEQUENCE = (0, True, 16)"
definition OBJECT_IDENTIFIER :: "nat \<times> bool \<times> nat" where "OBJECT_IDENTIFIER = (0, False, 6)"
definition OCTET_STRING :: "nat \<times> bool \<times> nat" where "OCTET_STRING = (0, False, 4)"
definition BIT_STRING :: "nat \<times> bool \<times> nat" where "BIT_STRING = (0, False, 3)"
definition INTEGER :: "nat \<times> bool \<times> nat" where "INTEGER = (0, False, 2)"

lemma base128_length: "base128 k acc s = Some (n, rest) \<Longrightarrow> length rest < length s"
proof (induction k acc s rule: base128.induct)
  case (2 k acc b bs)
  then show ?case by (auto simp: Let_def split: if_splits)
qed simp

lemma long_length_length: "long_length n acc s = Some (l, rest) \<Longrightarrow> length rest \<le> length s"
  by (induction n acc s rule: long_length.induct) (auto split: if_splits)

lemma parse_value_length: "parse_value s = Some (h, content, rest) \<Longrightarrow> length rest < length s"
proof -
  assume "parse_value s = Some (h, content, rest)"
  then obtain r where h: "parseTagAndLength s = Some (h, r)" and rest: "rest = drop (tl_length h) r"
    by (auto simp: parse_value_def bind_eq_Some_conv split: if_splits)
  then obtain t s1 l where t: "parse_tag s = Some (t, s1)" and l: "parse_length s1 = Some (l, r)"
    by (auto simp: parseTagAndLength_def bind_eq_Some_conv)
  have "length s1 < length s"
    using t by (auto simp: parse_tag_def parseBase128Int_def bind_eq_Some_conv less_SucI
        dest!: base128_length split: list.splits if_splits)
  moreover have "length r < length s1"
    using l by (auto simp: parse_length_def bind_eq_Some_conv less_Suc_eq_le
        dest!: long_length_length split: list.splits if_splits)
  ultimately show ?thesis by (simp add: rest)
qed

text \<open>The contents of the values of a sequence, which must all have the same class, form and tag.\<close>

function parse_sequence_of :: "nat \<times> bool \<times> nat \<Rightarrow> bytes \<Rightarrow> bytes list option" where
  "parse_sequence_of ty s =
     (if s = [] then Some []
      else case expect ty s of
        None \<Rightarrow> None
      | Some (content, rest) \<Rightarrow> map_option ((#) content) (parse_sequence_of ty rest))"
  by pat_completeness auto
termination
  by (relation "measure (length \<circ> snd)")
    (auto simp: expect_def bind_eq_Some_conv split: if_splits dest: parse_value_length)

declare parse_sequence_of.simps [simp del]

text \<open>The numbers of an object identifier after the first.\<close>

function parse_arcs :: "bytes \<Rightarrow> nat list option" where
  "parse_arcs s =
     (if s = [] then Some []
      else case parseBase128Int s of
        None \<Rightarrow> None
      | Some (n, rest) \<Rightarrow> map_option ((#) n) (parse_arcs rest))"
  by pat_completeness auto
termination
  by (relation "measure length") (auto simp: parseBase128Int_def dest: base128_length)

declare parse_arcs.simps [simp del]

definition parseObjectIdentifier :: "bytes \<Rightarrow> oid option" where
  "parseObjectIdentifier s =
     (case parse_arcs s of
        Some (v # ns) \<Rightarrow> Some (map int ((if v < 80 then [v div 40, v mod 40] else [2, v - 80]) @ ns))
      | _ \<Rightarrow> None)"

text \<open>A BIT STRING: a byte counts the unused bits at the end, which must be zero.\<close>

record BitString =
  bs_Bytes :: bytes
  BitLength :: nat

definition parseBitString :: "bytes \<Rightarrow> BitString option" where
  "parseBitString s =
     (case s of
        [] \<Rightarrow> None
      | p # bs \<Rightarrow>
          if unat p > 7 \<or> (bs = [] \<and> p \<noteq> 0) \<or> (bs \<noteq> [] \<and> unat (last bs) mod 2 ^ unat p \<noteq> 0) then None
          else Some \<lparr>bs_Bytes = bs, BitLength = 8 * length bs - unat p\<rparr>)"

text \<open>\<^verbatim>\<open>BitString.RightAlign\<close> shifts the bits so that the unused ones come first.\<close>

definition RightAlign :: "BitString \<Rightarrow> bytes" where
  "RightAlign b =
     (let shift = 8 - BitLength b mod 8 in
      if shift = 8 \<or> bs_Bytes b = [] then bs_Bytes b
      else FillBytes (length (bs_Bytes b)) (SetBytes (bs_Bytes b) div 2 ^ shift))"

lemma parse_whole_bytes: "parseBitString (0 # bs) = Some \<lparr>bs_Bytes = bs, BitLength = 8 * length bs\<rparr>"
  by (simp add: parseBitString_def)

lemma RightAlign_whole_bytes [simp]: "RightAlign \<lparr>bs_Bytes = bs, BitLength = 8 * length bs\<rparr> = bs"
  by (simp add: RightAlign_def)

text \<open>
  A structure with the two fields of \<^verbatim>\<open>pkix.AlgorithmIdentifier\<close>, an object identifier and an optional
  \<^verbatim>\<open>asn1.RawValue\<close> of any type, which is kept with its header. Bytes after it are allowed.
\<close>

definition parse_oid_any :: "bytes \<Rightarrow> (oid \<times> bytes) option" where
  "parse_oid_any s =
     Option.bind (expect OBJECT_IDENTIFIER s) (\<lambda>(c, s1).
     Option.bind (parseObjectIdentifier c) (\<lambda>x.
       if s1 = [] then Some (x, [])
       else map_option (\<lambda>(h, content, rest). (x, take (length s1 - length rest) s1)) (parse_value s1)))"

definition asn1_error :: goerror where
  "asn1_error = ErrorString ''asn1: structure error''"

section \<open>Writing\<close>

text \<open>The bytes of a natural number, most significant first, without leading zeros (\<^verbatim>\<open>big.Int.Bytes\<close>).\<close>

fun nat_bytes :: "nat \<Rightarrow> bytes" where
  "nat_bytes n = (if n = 0 then [] else nat_bytes (n div 256) @ [of_nat (n mod 256)])"

declare nat_bytes.simps [simp del]

definition encode_length :: "nat \<Rightarrow> bytes" where
  "encode_length n =
     (if n < 128 then [of_nat n] else of_nat (128 + length (nat_bytes n)) # nat_bytes n)"

text \<open>The types in use have a tag below 31, which the identifier byte holds.\<close>

fun id_byte :: "nat \<times> bool \<times> nat \<Rightarrow> byte" where
  "id_byte (c, k, t) = of_nat (64 * c + (if k then 32 else 0) + t)"

definition tlv :: "nat \<times> bool \<times> nat \<Rightarrow> bytes \<Rightarrow> bytes" where
  "tlv ty content = id_byte ty # encode_length (length content) @ content"

fun high_digits :: "nat \<Rightarrow> bytes" where
  "high_digits n = (if n = 0 then [] else high_digits (n div 128) @ [of_nat (128 + n mod 128)])"

declare high_digits.simps [simp del]

definition appendBase128Int :: "nat \<Rightarrow> bytes" where
  "appendBase128Int n = high_digits (n div 128) @ [of_nat (n mod 128)]"

text \<open>The encoder writes nothing for a negative number, and does not check for one.\<close>

definition encode_arc :: "int \<Rightarrow> bytes" where
  "encode_arc n = (if n < 0 then [] else appendBase128Int (nat n))"

definition encode_oid :: "oid \<Rightarrow> bytes option" where
  "encode_oid x =
     (case x of
        a # b # ns \<Rightarrow>
          if a > 2 \<or> (a < 2 \<and> b \<ge> 40) then None
          else Some (concat (map encode_arc ((a * 40 + b) # ns)))
      | _ \<Rightarrow> None)"

text \<open>The two's-complement bytes of an integer, as few as hold the sign (\<^verbatim>\<open>makeBigInt\<close>).\<close>

definition encode_int :: "int \<Rightarrow> bytes" where
  "encode_int n =
     (if n < 0 then
        (let bs = map (\<lambda>b. 255 - b) (nat_bytes (nat (- n - 1)))
         in if bs = [] \<or> unat (hd bs) < 128 then 255 # bs else bs)
      else if n = 0 then [0]
      else (let bs = nat_bytes (nat n) in if unat (hd bs) \<ge> 128 then 0 # bs else bs))"

definition decode_int :: "bytes \<Rightarrow> int" where
  "decode_int bs =
     (if bs \<noteq> [] \<and> unat (hd bs) \<ge> 128 then int (SetBytes bs) - 256 ^ length bs else int (SetBytes bs))"

section \<open>What was written is read back\<close>

lemma unat_small [simp]: "n < 256 \<Longrightarrow> unat (of_nat n :: byte) = n"
  by (simp add: unat_of_nat)

lemma SetBytes_nat_bytes [simp]: "SetBytes (nat_bytes n) = n"
proof (induction n rule: nat_bytes.induct)
  case (1 n)
  show ?case
  proof (cases "n = 0")
    case False
    then have "SetBytes (nat_bytes (n div 256)) = n div 256" using 1 by simp
    then show ?thesis using False by (subst nat_bytes.simps) simp
  qed (simp add: nat_bytes.simps)
qed

lemma nat_bytes_hd: "n \<noteq> 0 \<Longrightarrow> nat_bytes n \<noteq> [] \<and> hd (nat_bytes n) \<noteq> 0"
proof (induction n rule: nat_bytes.induct)
  case (1 n)
  show ?case
  proof (cases "n div 256 = 0")
    case True
    then have "nat_bytes n = [of_nat n]" using "1.prems" by (simp add: nat_bytes.simps)
    moreover have "unat (of_nat n :: byte) \<noteq> 0" using True "1.prems" by simp
    ultimately show ?thesis by auto
  next
    case False
    then have "nat_bytes (n div 256) \<noteq> []" "hd (nat_bytes (n div 256)) \<noteq> 0" using 1 by auto
    then show ?thesis using "1.prems" by (simp add: nat_bytes.simps [of n])
  qed
qed

lemma nat_bytes_length: "n < 256 ^ k \<Longrightarrow> length (nat_bytes n) \<le> k"
proof (induction k arbitrary: n)
  case (Suc k)
  then have "n div 256 < 256 ^ k" by (simp add: less_mult_imp_div_less mult.commute)
  with Suc.IH [of "n div 256"] show ?case by (cases "n = 0") (simp_all add: nat_bytes.simps [of n])
qed (simp add: nat_bytes.simps)

text \<open>A length in minimal form is read, one byte after the other, up to the limit of the package.\<close>

lemma SetBytes_Cons: "SetBytes (b # bs) = unat b * 256 ^ length bs + SetBytes bs"
proof (induction bs rule: rev_induct)
  case Nil
  show ?case by (simp add: SetBytes_def)
next
  case (snoc x bs)
  have "SetBytes (b # bs @ [x]) = SetBytes (b # bs) * 256 + unat x"
    using SetBytes_snoc [of "b # bs" x] by simp
  with snoc show ?case by (simp add: algebra_simps)
qed

lemma long_length_bytes:
  assumes "acc \<noteq> 0 \<or> bs = [] \<or> hd bs \<noteq> 0" and "acc * 256 ^ length bs + SetBytes bs < 2147483648"
  shows "long_length (length bs) acc (bs @ rest) = Some (acc * 256 ^ length bs + SetBytes bs, rest)"
  using assms
proof (induction bs arbitrary: acc)
  case (Cons b bs)
  let ?a = "acc * 256 + unat b"
  have eq: "acc * 256 ^ length (b # bs) + SetBytes (b # bs) = ?a * 256 ^ length bs + SetBytes bs"
    by (simp add: SetBytes_Cons algebra_simps)
  have "?a \<le> ?a * 256 ^ length bs + SetBytes bs" by (simp add: trans_le_add1)
  then have "?a < 2147483648" using Cons.prems(2) unfolding eq by (rule le_less_trans)
  then have "acc < 8388608" by linarith
  moreover have "?a \<noteq> 0" using Cons.prems(1) by (auto simp: unat_eq_0)
  ultimately show ?case
    using Cons.IH [of ?a] Cons.prems(2) unfolding eq by simp
qed simp

lemma parse_encode_length:
  assumes "n < 2147483648"
  shows "parse_length (encode_length n @ rest) = Some (n, rest)"
proof (cases "n < 128")
  case False
  have len: "length (nat_bytes n) \<le> 4" using assms by (intro nat_bytes_length) simp
  have "nat_bytes n \<noteq> []" "hd (nat_bytes n) \<noteq> 0" using nat_bytes_hd [of n] False by auto
  with len have "long_length (length (nat_bytes n)) 0 (nat_bytes n @ rest) = Some (n, rest)"
    using long_length_bytes [of 0 "nat_bytes n" rest] assms by simp
  moreover have "unat (of_nat (128 + length (nat_bytes n)) :: byte) = 128 + length (nat_bytes n)"
    using len by (intro unat_small) simp
  moreover have "length (nat_bytes n) \<noteq> 0" using \<open>nat_bytes n \<noteq> []\<close> by simp
  ultimately show ?thesis
    using False by (simp add: parse_length_def encode_length_def del: of_nat_add)
qed (simp add: parse_length_def encode_length_def)

definition simple_type :: "nat \<times> bool \<times> nat \<Rightarrow> bool" where
  "simple_type ty \<longleftrightarrow> fst ty < 4 \<and> snd (snd ty) < 31"

lemma types_simple [simp]:
  "simple_type SEQUENCE" "simple_type OBJECT_IDENTIFIER" "simple_type OCTET_STRING" "simple_type BIT_STRING"
  "simple_type INTEGER"
  by (simp_all add: simple_type_def SEQUENCE_def OBJECT_IDENTIFIER_def OCTET_STRING_def BIT_STRING_def INTEGER_def)

lemma parse_header:
  assumes "simple_type (c, k, t)" and "n < 2147483648"
  shows "parseTagAndLength (id_byte (c, k, t) # encode_length n @ rest) =
    Some (\<lparr>tl_class = c, tl_isCompound = k, tl_tag = t, tl_length = n\<rparr>, rest)"
proof -
  define v where "v = 64 * c + (if k then 32 else 0) + t"
  have c: "c < 4" "t < 31" using assms(1) by (auto simp: simple_type_def)
  have v: "unat (of_nat v :: byte) = v" unfolding v_def using c by (intro unat_small) auto
  define q where "q = 2 * c + (if k then 1 else 0)"
  have "v = 32 * q + t" by (simp add: v_def q_def)
  then have "v mod 32 = t" "v div 32 = q" using c(2) by simp_all
  moreover have "v div 64 = c" using c by (auto simp: v_def)
  ultimately have "v mod 32 = t" "v div 64 = c" "odd (v div 32) = k" by (simp_all add: q_def)
  then show ?thesis
    using c v parse_encode_length [OF assms(2), of rest]
    by (simp add: parseTagAndLength_def parse_tag_def v_def [symmetric])
qed

text \<open>A written value of one of these types, with a content below the limit, is read back.\<close>

lemma expect_tlv:
  assumes "simple_type ty" and "length content < 2147483648"
  shows "expect ty (tlv ty content @ rest) = Some (content, rest)"
  using parse_header [of "fst ty" "fst (snd ty)" "snd (snd ty)" "length content" "content @ rest"] assms
  by (simp add: expect_def parse_value_def tlv_def)

lemma parse_value_tlv:
  assumes "simple_type (c, k, t)" and "length content < 2147483648"
  shows "parse_value (tlv (c, k, t) content @ rest) =
    Some (\<lparr>tl_class = c, tl_isCompound = k, tl_tag = t, tl_length = length content\<rparr>, content, rest)"
  using parse_header [OF assms, of "content @ rest"] by (simp add: parse_value_def tlv_def)

lemma tlv_ne [simp]: "tlv ty c \<noteq> []"
  by (simp add: tlv_def)

lemma parse_sequence_of_Nil [simp]: "parse_sequence_of ty [] = Some []"
  by (simp add: parse_sequence_of.simps)

lemma parse_sequence_of_tlv:
  assumes "simple_type ty" and "list_all (\<lambda>c. length c < 2147483648) cs"
  shows "parse_sequence_of ty (concat (map (tlv ty) cs)) = Some cs"
  using assms(2)
proof (induction cs)
  case (Cons c cs)
  then show ?case
    by (subst parse_sequence_of.simps) (simp add: expect_tlv [OF assms(1)])
qed simp

lemma length_tlv: "length c < length (tlv ty c)"
  by (simp add: tlv_def)

lemma length_concat_tlv: "c \<in> set cs \<Longrightarrow> length c < length (concat (map (tlv ty) cs))"
proof (induction cs)
  case (Cons d cs)
  then show ?case using length_tlv [of d ty] by (auto simp: trans_less_add1 trans_less_add2)
qed simp

subsection \<open>Object identifiers\<close>

lemma high_digits_0 [simp]: "high_digits 0 = []"
  by (simp add: high_digits.simps)

lemma base128_high:
  assumes "list_all (\<lambda>b. 128 \<le> unat b) hs" and "k + length hs \<le> 5" and "k = 0 \<Longrightarrow> hs \<noteq> [] \<Longrightarrow> hd hs \<noteq> 128"
  shows "base128 k acc (hs @ bs) =
    base128 (k + length hs) (foldl (\<lambda>a b. a * 128 + unat b mod 128) acc hs) bs"
  using assms
proof (induction hs arbitrary: k acc)
  case (Cons b hs)
  have "k \<noteq> 5" "\<not> (k = 0 \<and> b = 128)" "\<not> unat b < 128" using Cons.prems by auto
  then have "base128 k acc ((b # hs) @ bs) = base128 (Suc k) (acc * 128 + unat b mod 128) (hs @ bs)"
    by (auto simp: Let_def)
  with Cons show ?case by simp
qed simp

lemma high_digits_bytes: "list_all (\<lambda>b. 128 \<le> unat b) (high_digits n)"
proof (induction n rule: high_digits.induct)
  case (1 n)
  have "unat (of_nat (128 + n mod 128) :: byte) = 128 + n mod 128" by (intro unat_small) simp
  with 1 show ?case by (cases "n = 0") (simp_all add: high_digits.simps [of n] del: of_nat_add)
qed

lemma high_digits_value: "foldl (\<lambda>a b. a * 128 + unat b mod 128) 0 (high_digits n) = n"
proof (induction n rule: high_digits.induct)
  case (1 n)
  have "unat (of_nat (128 + n mod 128) :: byte) mod 128 = n mod 128"
    by (subst unat_small) simp_all
  with 1 show ?case by (cases "n = 0") (simp_all add: high_digits.simps [of n] del: of_nat_add)
qed

lemma high_digits_hd: "n \<noteq> 0 \<Longrightarrow> high_digits n \<noteq> [] \<and> hd (high_digits n) \<noteq> 128"
proof (induction n rule: high_digits.induct)
  case (1 n)
  show ?case
  proof (cases "n div 128 = 0")
    case True
    then have h: "high_digits n = [of_nat (128 + n)]" using "1.prems" by (simp add: high_digits.simps)
    have "unat (of_nat (128 + n) :: byte) = 128 + n" using True by (intro unat_small) simp
    moreover have "unat (128 :: byte) = 128" by simp
    ultimately have "(of_nat (128 + n) :: byte) \<noteq> 128" using "1.prems" by (metis add_cancel_right_right)
    then show ?thesis by (simp add: h del: of_nat_add)
  next
    case False
    then show ?thesis using 1 by (simp add: high_digits.simps [of n])
  qed
qed

lemma high_digits_length: "n < 128 ^ k \<Longrightarrow> length (high_digits n) \<le> k"
proof (induction k arbitrary: n)
  case (Suc k)
  then have "n div 128 < 128 ^ k" by (simp add: less_mult_imp_div_less mult.commute)
  with Suc.IH [of "n div 128"] show ?case by (cases "n = 0") (simp_all add: high_digits.simps [of n])
qed (simp add: high_digits.simps)

lemma parse_append_base128:
  assumes "n \<le> 2147483647"
  shows "parseBase128Int (appendBase128Int n @ rest) = Some (n, rest)"
proof -
  let ?hs = "high_digits (n div 128)"
  have len: "length ?hs \<le> 4" using assms by (intro high_digits_length) simp
  have hd: "?hs \<noteq> [] \<Longrightarrow> hd ?hs \<noteq> 128"
    using high_digits_hd [of "n div 128"] by (cases "n div 128 = 0") auto
  have low: "unat (of_nat (n mod 128) :: byte) = n mod 128" by (intro unat_small) simp
  have "base128 0 0 (?hs @ [of_nat (n mod 128)] @ rest) =
      base128 (length ?hs) (n div 128) ([of_nat (n mod 128)] @ rest)"
    using base128_high [OF high_digits_bytes, of 0 "n div 128" 0] len hd by (simp add: high_digits_value)
  also have "\<dots> = Some (n, rest)"
  proof -
    have "unat (128 :: byte) = 128" "n mod 128 < 128" by simp_all
    then have "(of_nat (n mod 128) :: byte) \<noteq> 128" using low by (metis less_irrefl)
    with len low assms show ?thesis by (auto simp: Let_def)
  qed
  finally show ?thesis by (simp add: parseBase128Int_def appendBase128Int_def)
qed

lemma parse_arcs_Nil [simp]: "parse_arcs [] = Some []"
  by (simp add: parse_arcs.simps)

lemma parse_arcs_concat:
  "list_all (\<lambda>n. n \<le> 2147483647) ns \<Longrightarrow> parse_arcs (concat (map appendBase128Int ns)) = Some ns"
proof (induction ns)
  case (Cons n ns)
  have "appendBase128Int n \<noteq> []" by (simp add: appendBase128Int_def)
  with Cons show ?case
    by (subst parse_arcs.simps) (simp add: parse_append_base128)
qed simp

text \<open>The object identifiers that can be written and are within the limits of the reader.\<close>

fun oid_ok :: "oid \<Rightarrow> bool" where
  "oid_ok (a # b # ns) \<longleftrightarrow> 0 \<le> a \<and> a \<le> 2 \<and> 0 \<le> b \<and> (a < 2 \<longrightarrow> b < 40) \<and> b \<le> 2147483567 \<and>
     list_all (\<lambda>n. 0 \<le> n \<and> n \<le> 2147483647) ns"
| "oid_ok _ \<longleftrightarrow> False"

lemma parse_encode_oid:
  assumes "oid_ok x"
  shows "\<exists>bs. encode_oid x = Some bs \<and> parseObjectIdentifier bs = Some x"
proof -
  obtain a b ns where x: "x = a # b # ns" using assms by (cases x rule: oid_ok.cases) auto
  have ab: "0 \<le> a" "a \<le> 2" "0 \<le> b" "a < 2 \<Longrightarrow> b < 40" "b \<le> 2147483567"
    and ns: "list_all (\<lambda>n. 0 \<le> n \<and> n \<le> 2147483647) ns"
    using assms by (auto simp: x)
  let ?v = "nat (a * 40 + b)"
  have "list_all (\<lambda>n. n \<le> 2147483647) (?v # map nat ns)"
    using ab ns by (auto simp: list_all_iff)
  from parse_arcs_concat [OF this]
  have "parse_arcs (concat (map appendBase128Int (?v # map nat ns))) = Some (?v # map nat ns)" .
  moreover have enc: "concat (map encode_arc ((a * 40 + b) # ns)) = concat (map appendBase128Int (?v # map nat ns))"
  proof -
    have "map encode_arc ns = map appendBase128Int (map nat ns)"
      using ns by (auto simp: encode_arc_def list_all_iff)
    moreover have "encode_arc (a * 40 + b) = appendBase128Int ?v" using ab by (simp add: encode_arc_def)
    ultimately show ?thesis by (simp only: list.map)
  qed
  ultimately have arcs: "parse_arcs (concat (map encode_arc ((a * 40 + b) # ns))) = Some (?v # map nat ns)"
    by simp
  have "map int ((if ?v < 80 then [?v div 40, ?v mod 40] else [2, ?v - 80])) = [a, b]"
  proof (cases "a < 2")
    case True
    then have "a = 0 \<or> a = 1" using ab(1) by auto
    then show ?thesis using ab by (auto simp: nat_add_distrib)
  next
    case False
    then have "a = 2" using ab(2) by simp
    then show ?thesis using ab by auto
  qed
  moreover have "map (int \<circ> nat) ns = ns" using ns by (simp add: list_all_iff map_idI)
  ultimately have "parseObjectIdentifier (concat (map encode_arc ((a * 40 + b) # ns))) = Some x"
    by (simp only: parseObjectIdentifier_def arcs) (simp add: x)
  moreover have "encode_oid x = Some (concat (map encode_arc ((a * 40 + b) # ns)))"
    using ab by (auto simp: encode_oid_def x)
  ultimately show ?thesis by blast
qed

text \<open>The encoding of an object identifier and an optional value of any simple type is read back.\<close>

definition oid_any_der :: "oid \<Rightarrow> bytes option \<Rightarrow> bytes" where
  "oid_any_der x q = tlv OBJECT_IDENTIFIER (the (encode_oid x)) @ (case q of None \<Rightarrow> [] | Some b \<Rightarrow> tlv SEQUENCE b)"

lemma parse_oid_any_der:
  assumes "oid_ok x" and "length (oid_any_der x q) < 2147483648"
  shows "parse_oid_any (oid_any_der x q) =
    Some (x, case q of None \<Rightarrow> [] | Some b \<Rightarrow> tlv SEQUENCE b)"
proof -
  obtain bs where bs: "encode_oid x = Some bs" "parseObjectIdentifier bs = Some x"
    using parse_encode_oid [OF assms(1)] by blast
  have len: "length bs < 2147483648"
    using assms(2) length_tlv [of bs OBJECT_IDENTIFIER] by (simp add: oid_any_der_def bs)
  have q: "parse_value (tlv SEQUENCE b) =
      Some (\<lparr>tl_class = 0, tl_isCompound = True, tl_tag = 16, tl_length = length b\<rparr>, b, [])"
    if "q = Some b" for b
  proof -
    have "length b < 2147483648"
      using assms(2) length_tlv [of b SEQUENCE] by (simp add: oid_any_der_def that)
    then show ?thesis
      using parse_value_tlv [of 0 True 16 b "[]"] types_simple(1) unfolding SEQUENCE_def by simp
  qed
  show ?thesis
    using expect_tlv [of OBJECT_IDENTIFIER bs] len q
    by (cases q) (simp_all add: parse_oid_any_def oid_any_der_def bs expect_tlv [of _ _ "[]", simplified])
qed

subsection \<open>Integers\<close>

lemma SetBytes_complement: "SetBytes (map (\<lambda>b. 255 - b) xs) + SetBytes xs + 1 = 256 ^ length xs"
proof (induction xs)
  case (Cons b xs)
  have b: "unat b \<le> 255" using byte_lt_256 [of b] by simp
  moreover have "unat (255 - b) = 255 - unat b"
    using b by (subst unat_sub) (simp_all add: word_le_nat_alt)
  ultimately have "unat (255 - b) + unat b = 255" by simp
  then have "unat (255 - b) * 256 ^ length xs + unat b * 256 ^ length xs = 255 * 256 ^ length xs"
    by (simp add: add_mult_distrib [symmetric])
  with Cons show ?case by (simp add: SetBytes_Cons)
qed (simp add: SetBytes_def)

lemma decode_int_sign:
  "unat b < 128 \<Longrightarrow> decode_int (b # bs) = int (SetBytes (b # bs))"
  "128 \<le> unat b \<Longrightarrow> decode_int (b # bs) = int (SetBytes (b # bs)) - 256 ^ length (b # bs)"
  by (simp_all add: decode_int_def)

lemma decode_encode_int: "decode_int (encode_int n) = n"
proof (cases "n < 0")
  case True
  define xs where "xs = nat_bytes (nat (- n - 1))"
  define bs where "bs = map (\<lambda>b. 255 - b) xs"
  have "int (SetBytes xs) = - n - 1" using True by (simp add: xs_def)
  moreover have "int (SetBytes bs + SetBytes xs + 1) = 256 ^ length bs"
    unfolding bs_def SetBytes_complement by simp
  ultimately have sum: "int (SetBytes bs) = 256 ^ length bs + n" by simp
  have enc: "encode_int n = (if bs = [] \<or> unat (hd bs) < 128 then 255 # bs else bs)"
    using True by (simp add: encode_int_def xs_def bs_def)
  show ?thesis
  proof (cases "bs = [] \<or> unat (hd bs) < 128")
    case True
    then have "decode_int (encode_int n) = int (SetBytes (255 # bs)) - 256 ^ length (255 # bs)"
      unfolding enc by (simp add: decode_int_sign)
    then show ?thesis using sum by (simp add: SetBytes_Cons)
  next
    case False
    then show ?thesis using sum by (simp add: enc decode_int_def)
  qed
next
  case False
  show ?thesis
  proof (cases "n = 0")
    case False
    define bs where "bs = nat_bytes (nat n)"
    have "encode_int n = (if unat (hd bs) \<ge> 128 then 0 # bs else bs)" "int (SetBytes bs) = n"
      using False \<open>\<not> n < 0\<close> by (simp_all add: encode_int_def bs_def)
    then show ?thesis by (auto simp: decode_int_def SetBytes_Cons)
  qed (simp add: encode_int_def decode_int_def SetBytes_Cons)
qed

end
