(* ===== verification/Certificate.thy ===== *)
theory Certificate
  imports Go_ASN1
begin

text \<open>
  Package \<^verbatim>\<open>certificate\<close> without its trust store: subject data (\<^verbatim>\<open>src/certificate/data.go\<close>),
  validity, key-usage and policy checks (\<^verbatim>\<open>checks.go\<close>), policy OIDs and the identity binding
  of an authentication and a signing certificate (\<^verbatim>\<open>policy.go\<close>).
\<close>

unbundle bit_operations_syntax

section \<open>Subject data\<close>

definition errSubjectFieldMissing :: goerror where
  "errSubjectFieldMissing = ErrorString ''certificate subject field is missing''"

definition oidSurname :: oid where "oidSurname = [2, 5, 4, 4]"

definition SubjectCN :: "x509_cert \<Rightarrow> string result" where
  "SubjectCN c = (if CommonName (Subject c) = [] then Inl errSubjectFieldMissing
     else Inr (CommonName (Subject c)))"

definition SubjectIDCode :: "x509_cert \<Rightarrow> string result" where
  "SubjectIDCode c = (if SubjectSerialNumber (Subject c) = [] then Inl errSubjectFieldMissing
     else Inr (SubjectSerialNumber (Subject c)))"

definition SubjectCountryCode :: "x509_cert \<Rightarrow> string result" where
  "SubjectCountryCode c = (case Country (Subject c) of
       [] \<Rightarrow> Inl errSubjectFieldMissing
     | cc # _ \<Rightarrow> if cc = [] then Inl errSubjectFieldMissing else Inr cc)"

text \<open>The loop of \<^verbatim>\<open>SubjectGivenName\<close> and \<^verbatim>\<open>SubjectSurname\<close> over \<^verbatim>\<open>c.Subject.Names\<close>.\<close>

fun first_name :: "oid \<Rightarrow> pkix_attribute list \<Rightarrow> string result" where
  "first_name o1 [] = Inl errSubjectFieldMissing"
| "first_name o1 (n # ns) =
     (if attr_Type n = o1 then
        (case attr_Value n of
           StringValue s \<Rightarrow> if s \<noteq> [] then Inr s else first_name o1 ns
         | OtherValue \<Rightarrow> first_name o1 ns)
      else first_name o1 ns)"

definition SubjectGivenName :: "x509_cert \<Rightarrow> string result" where
  "SubjectGivenName c = first_name [2, 5, 4, 42] (Names (Subject c))"

definition SubjectSurname :: "x509_cert \<Rightarrow> string result" where
  "SubjectSurname c = first_name oidSurname (Names (Subject c))"

fun title_runes :: "unicode \<Rightarrow> bool \<Rightarrow> rune list \<Rightarrow> rune list" where
  "title_runes U prevBoundary [] = []"
| "title_runes U prevBoundary (r # rs) =
     (if prevBoundary then rune_upper U r else r)
     # title_runes U (r = 32 \<or> r = 45 \<or> r = 39) rs"

definition TitleCase :: "unicode \<Rightarrow> string \<Rightarrow> string" where
  "TitleCase U s = concat (map encode_rune (title_runes U True (runes (ToLower U s))))"

section \<open>Checks\<close>

definition oidCertificatePolicies :: oid where "oidCertificatePolicies = [2, 5, 29, 32]"

definition DefaultDisallowedPolicies :: "oid list" where
  "DefaultDisallowedPolicies =
     [ [1, 3, 6, 1, 4, 1, 10015, 1, 3], [1, 3, 6, 1, 4, 1, 10015, 11, 1] ]"

record policyInformation =
  Policy :: oid
  Qualifiers :: bytes

definition CheckValidity :: "x509_cert \<Rightarrow> time \<Rightarrow> goerror option" where
  "CheckValidity cert now =
     (if now < NotBefore cert then Some (Typed ErrCertificateNotYetValid)
      else if NotAfter cert < now then Some (Typed ErrCertificateExpired)
      else None)"

definition hasExtKeyUsage :: "x509_cert \<Rightarrow> ext_key_usage \<Rightarrow> bool" where
  "hasExtKeyUsage cert want \<longleftrightarrow>
     list_ex (\<lambda>eku. eku = want \<or> eku = ExtKeyUsageAny) (ExtKeyUsage cert)"

definition CheckKeyUsageForAuthentication :: "x509_cert \<Rightarrow> goerror option" where
  "CheckKeyUsageForAuthentication cert =
     (if KeyUsage cert AND KeyUsageDigitalSignature = 0
      then Some (Typed ErrUserCertificateWrongPurpose)
      else if \<not> hasExtKeyUsage cert ExtKeyUsageClientAuth
      then Some (Typed ErrUserCertificateWrongPurpose)
      else None)"

definition CheckKeyUsageForSigning :: "x509_cert \<Rightarrow> goerror option" where
  "CheckKeyUsageForSigning cert =
     (if KeyUsage cert AND KeyUsageContentCommitment = 0
      then Some (Typed ErrSigningCertificateInvalid) else None)"

definition decode_policyInformation :: "bytes \<Rightarrow> policyInformation option" where
  "decode_policyInformation content =
     map_option (\<lambda>(x, q). \<lparr>Policy = x, Qualifiers = q\<rparr>) (parse_oid_any content)"

text \<open>\<^verbatim>\<open>asn1.Unmarshal\<close> into \<^verbatim>\<open>[]policyInformation\<close>; the bytes after the value are not looked at.\<close>

definition unmarshal_policies :: "bytes \<Rightarrow> policyInformation list result" where
  "unmarshal_policies data =
     (case Option.bind (expect SEQUENCE data) (\<lambda>(content, rest).
             Option.bind (parse_sequence_of SEQUENCE content) (\<lambda>cs.
               those (map decode_policyInformation cs))) of
        None \<Rightarrow> Inl asn1_error
      | Some infos \<Rightarrow> Inr infos)"

definition extractPolicies :: "x509_cert \<Rightarrow> oid list result" where
  "extractPolicies cert =
     (case find (\<lambda>ext. ext_Id ext = oidCertificatePolicies) (Extensions cert) of
        None \<Rightarrow> Inr []
      | Some ext \<Rightarrow> bindE (unmarshal_policies (ext_Value ext)) (\<lambda>infos. Inr (map Policy infos)))"

definition CheckDisallowedPolicies ::
  "x509_cert \<Rightarrow> oid list \<Rightarrow> goerror option" where
  "CheckDisallowedPolicies cert disallowed =
     (if disallowed = [] then None
      else case extractPolicies cert of
        Inl err \<Rightarrow> Some (wrapped ErrCertificateDisallowedPolicy err)
      | Inr policies \<Rightarrow>
          if list_ex (\<lambda>present. list_ex (\<lambda>bad. present = bad) disallowed) policies
          then Some (Typed ErrCertificateDisallowedPolicy) else None)"

section \<open>Policies\<close>

definition OIDQCPNatural :: oid where "OIDQCPNatural = [0, 4, 0, 194112, 1, 0]"
definition OIDQCPNaturalQSCD :: oid where "OIDQCPNaturalQSCD = [0, 4, 0, 194112, 1, 2]"
definition OIDQCPLegalQSCD :: oid where "OIDQCPLegalQSCD = [0, 4, 0, 194112, 1, 3]"
definition OIDLVEIDKarte1 :: oid where "OIDLVEIDKarte1 = [1, 3, 6, 1, 4, 1, 32061, 2, 1, 2, 1]"
definition OIDLVEIDKarte2 :: oid where "OIDLVEIDKarte2 = [1, 3, 6, 1, 4, 1, 32061, 2, 1, 2, 2]"

definition OIDLVEIDKarteNoQSCD :: oid where
  "OIDLVEIDKarteNoQSCD = [1, 3, 6, 1, 4, 1, 32061, 2, 1, 2, 3]"

definition OIDLVEParaksts :: oid where
  "OIDLVEParaksts = [1, 3, 6, 1, 4, 1, 32061, 2, 1, 3, 2]"

definition OIDLVEParakstsKarte :: oid where
  "OIDLVEParakstsKarte = [1, 3, 6, 1, 4, 1, 32061, 2, 1, 4, 1]"

definition OIDLVEParakstsKartePlus :: oid where
  "OIDLVEParakstsKartePlus = [1, 3, 6, 1, 4, 1, 32061, 2, 1, 5, 1]"

definition OIDLVEZimogs :: oid where "OIDLVEZimogs = [1, 3, 6, 1, 4, 1, 32061, 2, 2, 1, 1]"

definition OIDLVEZimogsPlusCloud :: oid where
  "OIDLVEZimogsPlusCloud = [1, 3, 6, 1, 4, 1, 32061, 2, 2, 2, 1]"

definition LVCardQSCDSigningPolicies :: "oid list" where
  "LVCardQSCDSigningPolicies =
     [OIDLVEIDKarte1, OIDLVEIDKarte2, OIDLVEParakstsKarte, OIDLVEParakstsKartePlus]"

definition parse_component :: "string \<Rightarrow> string \<Rightarrow> int result" where
  "parse_component s p =
     (case Atoi p of
        None \<Rightarrow> Inl (FmtError ''invalid OID %q: component %q'' [s, p] None)
      | Some n \<Rightarrow> if n < 0 then Inl (FmtError ''invalid OID %q: component %q'' [s, p] None)
                  else Inr n)"

definition ParseOID :: "unicode \<Rightarrow> string \<Rightarrow> oid result" where
  "ParseOID U s =
     (let parts = split_on CHR ''.'' (TrimSpace U s) in
      if length parts < 2 then Inl (FmtError ''invalid OID %q'' [s] None)
      else mapE (parse_component s) parts)"

definition ParseOIDs :: "unicode \<Rightarrow> string list \<Rightarrow> oid list result" where
  "ParseOIDs U values =
     (if values = [] then Inr []
      else mapE (ParseOID U) (filter (\<lambda>v. TrimSpace U v \<noteq> []) values))"

definition CheckAcceptedPolicies ::
  "x509_cert \<Rightarrow> oid list \<Rightarrow> goerror option" where
  "CheckAcceptedPolicies cert accepted =
     (if accepted = [] then None
      else case extractPolicies cert of
        Inl err \<Rightarrow> Some (wrapped ErrCertificateDisallowedPolicy err)
      | Inr present \<Rightarrow>
          if list_ex (\<lambda>want. list_ex (\<lambda>have1. have1 = want) present) accepted
          then None else Some (Typed ErrCertificateDisallowedPolicy))"

definition naturalPersonIDPrefix :: string where
  "naturalPersonIDPrefix = ''PNO''"

definition CheckSameNaturalPerson ::
  "x509_cert option \<Rightarrow> x509_cert option \<Rightarrow> bool \<times> goerror option" where
  "CheckSameNaturalPerson a b =
     (case (a, b) of
        (Some ca, Some cb) \<Rightarrow>
          let idA = SubjectSerialNumber (Subject ca); idB = SubjectSerialNumber (Subject cb) in
          if \<not> HasPrefix idA naturalPersonIDPrefix \<or> \<not> HasPrefix idB naturalPersonIDPrefix
          then (False, None)
          else if idA \<noteq> idB then (True, Some (Typed ErrIdentityBindingMismatch))
          else (True, None)
      | _ \<Rightarrow> (False, Some (Typed ErrIdentityBindingMismatch)))"

section \<open>What each check decides\<close>

lemma CheckValidity_None: "CheckValidity cert now = None \<longleftrightarrow> NotBefore cert \<le> now \<and> now \<le> NotAfter cert"
  by (auto simp: CheckValidity_def)

lemma CheckKeyUsageForAuthentication_None:
  "CheckKeyUsageForAuthentication cert = None \<longleftrightarrow>
     KeyUsage cert AND KeyUsageDigitalSignature \<noteq> 0 \<and>
     (ExtKeyUsageClientAuth \<in> set (ExtKeyUsage cert) \<or> ExtKeyUsageAny \<in> set (ExtKeyUsage cert))"
  by (auto simp: CheckKeyUsageForAuthentication_def hasExtKeyUsage_def list_ex_iff)

lemma CheckKeyUsageForSigning_None:
  "CheckKeyUsageForSigning cert = None \<longleftrightarrow> KeyUsage cert AND KeyUsageContentCommitment \<noteq> 0"
  by (simp add: CheckKeyUsageForSigning_def)

lemma CheckDisallowedPolicies_None:
  "CheckDisallowedPolicies cert bad = None \<longleftrightarrow>
     bad = [] \<or> (\<exists>ps. extractPolicies cert = Inr ps \<and> set ps \<inter> set bad = {})"
  by (auto simp: CheckDisallowedPolicies_def list_ex_iff split: sum.split)

lemma CheckAcceptedPolicies_None:
  "CheckAcceptedPolicies cert good = None \<longleftrightarrow>
     good = [] \<or> (\<exists>ps. extractPolicies cert = Inr ps \<and> set ps \<inter> set good \<noteq> {})"
  by (auto simp: CheckAcceptedPolicies_def list_ex_iff split: sum.split)

lemmas check_None = CheckValidity_None CheckKeyUsageForAuthentication_None
  CheckKeyUsageForSigning_None CheckDisallowedPolicies_None CheckAcceptedPolicies_None

lemma check_reports:
  "CheckValidity cert now = Some e \<Longrightarrow>
     reports e ErrCertificateNotYetValid \<or> reports e ErrCertificateExpired"
  "CheckKeyUsageForAuthentication cert = Some e \<Longrightarrow> reports e ErrUserCertificateWrongPurpose"
  "CheckKeyUsageForSigning cert = Some e \<Longrightarrow> reports e ErrSigningCertificateInvalid"
  "CheckDisallowedPolicies cert bad = Some e \<Longrightarrow> reports e ErrCertificateDisallowedPolicy"
  "CheckAcceptedPolicies cert bad = Some e \<Longrightarrow> reports e ErrCertificateDisallowedPolicy"
  by (auto simp: CheckValidity_def CheckKeyUsageForAuthentication_def CheckKeyUsageForSigning_def
      CheckDisallowedPolicies_def CheckAcceptedPolicies_def split: if_splits sum.splits)

lemma same_person_bound:
  "CheckSameNaturalPerson (Some a) (Some b) = (True, None) \<longleftrightarrow>
     SubjectSerialNumber (Subject a) = SubjectSerialNumber (Subject b) \<and>
     HasPrefix (SubjectSerialNumber (Subject a)) ''PNO''"
  by (auto simp: CheckSameNaturalPerson_def naturalPersonIDPrefix_def Let_def)

section \<open>The Certificate Policies extension\<close>

text \<open>The DER encoding of a list of policies, each an OID with the content of its qualifiers, if any.\<close>

definition policies_der :: "(oid \<times> bytes option) list \<Rightarrow> bytes" where
  "policies_der ps = tlv SEQUENCE (concat (map (tlv SEQUENCE) (map (\<lambda>(x, q). oid_any_der x q) ps)))"

lemma those_map_Some: "(\<And>x. x \<in> set xs \<Longrightarrow> f x = Some (g x)) \<Longrightarrow> those (map f xs) = Some (map g xs)"
  by (induction xs) auto

lemma unmarshal_policies_der:
  assumes "list_all (\<lambda>p. oid_ok (fst p)) ps" and "length (policies_der ps) < 2147483648"
  shows "\<exists>infos. unmarshal_policies (policies_der ps @ rest) = Inr infos \<and> map Policy infos = map fst ps"
proof -
  let ?cs = "map (\<lambda>(x, q). oid_any_der x q) ps"
  let ?g = "\<lambda>(x, q). \<lparr>Policy = x, Qualifiers = (case q of None \<Rightarrow> [] | Some b \<Rightarrow> tlv SEQUENCE b)\<rparr>"
  have len: "length (concat (map (tlv SEQUENCE) ?cs)) < 2147483648"
    using assms(2) length_tlv [of "concat (map (tlv SEQUENCE) ?cs)" SEQUENCE] unfolding policies_der_def by simp
  have short: "length c < 2147483648" if "c \<in> set ?cs" for c
    using length_concat_tlv [OF that, of SEQUENCE] len by simp
  have "those (map (decode_policyInformation \<circ> (\<lambda>(x, q). oid_any_der x q)) ps) = Some (map ?g ps)"
  proof (rule those_map_Some)
    fix p assume p: "p \<in> set ps"
    obtain x q where x: "p = (x, q)" by force
    have "length (oid_any_der x q) < 2147483648" using p by (intro short) (force simp: x)
    moreover have "oid_ok x" using p assms(1) by (auto simp: list_all_iff x)
    ultimately show "(decode_policyInformation \<circ> (\<lambda>(x, q). oid_any_der x q)) p = Some (?g p)"
      by (simp add: decode_policyInformation_def parse_oid_any_der x)
  qed
  moreover have "parse_sequence_of SEQUENCE (concat (map (tlv SEQUENCE) ?cs)) = Some ?cs"
    using short by (intro parse_sequence_of_tlv) (simp_all add: list_all_iff)
  ultimately have "unmarshal_policies (policies_der ps @ rest) = Inr (map ?g ps)"
    using expect_tlv [OF types_simple(1) len, of rest]
    by (simp add: unmarshal_policies_def policies_der_def)
  then show ?thesis by (intro exI [of _ "map ?g ps"]) auto
qed

section \<open>Dotted-decimal OIDs\<close>

text \<open>The dotted notation of an OID with non-negative components.\<close>

definition dotted :: "oid \<Rightarrow> string" where
  "dotted oid = join_with CHR ''.'' (map (\<lambda>n. decimal (nat n)) oid)"

definition wf_oid :: "oid \<Rightarrow> bool" where
  "wf_oid oid \<longleftrightarrow> 2 \<le> length oid \<and> list_all (\<lambda>n. 0 \<le> n \<and> n \<le> max_int64) oid"

lemma split_join:
  "ps \<noteq> [] \<Longrightarrow> (\<And>p. p \<in> set ps \<Longrightarrow> c \<notin> set p) \<Longrightarrow> split_on c (join_with c ps) = ps"
  by (induction c ps rule: join_with.induct) (auto simp: split_on_no_sep split_on_append)

lemma set_join: "set (join_with c ps) \<subseteq> insert c (\<Union> (set ` set ps))"
  by (induction c ps rule: join_with.induct) auto

lemma hd_join: "ps \<noteq> [] \<Longrightarrow> hd ps \<noteq> [] \<Longrightarrow> hd (join_with c ps) = hd (hd ps)"
  by (induction c ps rule: join_with.induct) auto

lemma join_ne: "ps \<noteq> [] \<Longrightarrow> last ps \<noteq> [] \<Longrightarrow> join_with c ps \<noteq> []"
  by (induction c ps rule: join_with.induct) auto

lemma last_join: "ps \<noteq> [] \<Longrightarrow> last ps \<noteq> [] \<Longrightarrow> last (join_with c ps) = last (last ps)"
proof (induction c ps rule: join_with.induct)
  case (3 c p q ps)
  then show ?case using join_ne [of "q # ps" c] by simp
qed simp_all

lemma TrimSpace_dotted:
  assumes "wf_oid oid"
  shows "TrimSpace U (dotted oid) = dotted oid"
proof (rule TrimSpace_id)
  let ?ps = "map (\<lambda>n. decimal (nat n)) oid"
  have ne: "oid \<noteq> []" using assms by (auto simp: wf_oid_def)
  show "is_ascii (dotted oid)"
    unfolding is_ascii_def list_all_iff
  proof
    fix c assume "c \<in> set (dotted oid)"
    then have "c = CHR ''.'' \<or> digit_val c \<noteq> None"
      using set_join [of "CHR ''.''" ?ps] decimal_digits by (auto simp: dotted_def)
    then show "ascii_char c"
      using digit_val_ascii by (auto simp: ascii_char_def)
  qed
  show "dotted oid \<noteq> []"
    using ne by (simp add: dotted_def join_ne last_map)
  have "digit_val (hd (dotted oid)) \<noteq> None"
    using ne decimal_digits [of "hd (decimal (nat (hd oid)))" "nat (hd oid)"]
    by (simp add: dotted_def hd_join hd_map)
  then show "\<not> rune_space U (of_char (hd (dotted oid)))" using digit_val_ascii by blast
  have "digit_val (last (dotted oid)) \<noteq> None"
    using ne decimal_digits [of "last (decimal (nat (last oid)))" "nat (last oid)"]
    by (simp add: dotted_def last_join last_map)
  then show "\<not> rune_space U (of_char (last (dotted oid)))" using digit_val_ascii by blast
qed

lemma split_dotted: "oid \<noteq> [] \<Longrightarrow> split_on CHR ''.'' (dotted oid) = map (\<lambda>n. decimal (nat n)) oid"
  unfolding dotted_def using decimal_digits digit_val_not(1)
  by (intro split_join) auto

lemma parse_component_decimal:
  "0 \<le> n \<Longrightarrow> n \<le> max_int64 \<Longrightarrow> parse_component s (decimal (nat n)) = Inr n"
  using Atoi_decimal [of "nat n"] by (simp add: parse_component_def)

lemma parse_component_range: "parse_component s p = Inr n \<Longrightarrow> 0 \<le> n \<and> n \<le> max_int64"
  by (auto simp: parse_component_def in_int64_def split: option.splits if_splits dest: Atoi_range)

lemma ParseOID_dotted:
  assumes "wf_oid oid"
  shows "ParseOID U (dotted oid) = Inr oid"
proof -
  have "mapE (parse_component (dotted oid)) (map (\<lambda>n. decimal (nat n)) oid) = Inr oid"
    using assms
    by (auto simp: mapE_Inr wf_oid_def list_all_iff list_all2_map1 parse_component_decimal
        intro: list_all2_all_nthI)
  moreover have "oid \<noteq> []" using assms by (auto simp: wf_oid_def)
  ultimately show ?thesis
    using assms by (simp add: ParseOID_def TrimSpace_dotted split_dotted wf_oid_def)
qed

lemma ParseOID_wf: "ParseOID U s = Inr oid \<Longrightarrow> wf_oid oid"
  by (auto simp: ParseOID_def Let_def mapE_Inr wf_oid_def list_all_length list_all2_conv_all_nth
      split: if_splits dest: parse_component_range)

section \<open>Title case\<close>

lemma title_runes_ascii: "list_all (\<lambda>r. r < 128) rs \<Longrightarrow> list_all (\<lambda>r. r < 128) (title_runes U b rs)"
  by (induction U b rs rule: title_runes.induct) (auto simp: rune_upper_def ascii_upper_bound)

lemma length_title_runes [simp]: "length (title_runes U b rs) = length rs"
  by (induction U b rs rule: title_runes.induct) auto

lemma ascii_lower_upper: "ascii_lower (ascii_upper r) = ascii_lower r"
  by (auto simp: ascii_lower_def ascii_upper_def in_range_def)

lemma ascii_lower_idem [simp]: "ascii_lower (ascii_lower r) = ascii_lower r"
  by (auto simp: ascii_lower_def in_range_def)

text \<open>Lower-casing undoes title case.\<close>

lemma lower_title_runes:
  "list_all (\<lambda>r. r < 128) rs \<Longrightarrow> map ascii_lower (title_runes U b rs) = map ascii_lower rs"
  by (induction U b rs rule: title_runes.induct) (auto simp: rune_upper_def ascii_lower_upper)

lemma encode_ascii_list: "list_all (\<lambda>r. r < 128) rs \<Longrightarrow> concat (map encode_rune rs) = map char_of rs"
  by (induction rs) (auto simp: encode_rune_ascii)

lemma ascii_char_list: "list_all (\<lambda>r. r < 128) rs \<Longrightarrow> is_ascii (map char_of (rs :: rune list))"
  by (induction rs) (auto simp: is_ascii_def ascii_char_def)

lemma ascii_of_char_list:
  "list_all (\<lambda>r. r < 128) rs \<Longrightarrow> map (\<lambda>x. f (of_char (char_of x :: char))) (rs :: rune list) = map f rs"
  by (induction rs) auto

lemma runes_char_list: "list_all (\<lambda>r. r < 128) rs \<Longrightarrow> runes (map char_of rs) = rs"
  using ascii_char_list [of rs] ascii_of_char_list [of rs "\<lambda>x. x"]
  by (simp add: runes_ascii comp_def)

lemma ToLower_runes:
  "is_ascii s \<Longrightarrow> ToLower U s = map char_of (map (\<lambda>c. ascii_lower (of_char c)) s)"
  by (simp add: ToLower_ascii)

lemma lower_list_ascii: "is_ascii s \<Longrightarrow> list_all (\<lambda>r. r < 128) (map (\<lambda>c. ascii_lower (of_char c)) s)"
  by (induction s) (auto simp: is_ascii_def ascii_char_def ascii_lower_bound)

lemma TitleCase_ascii:
  assumes "is_ascii s"
  shows "TitleCase U s = map char_of (title_runes U True (map (\<lambda>c. ascii_lower (of_char c)) s))"
  using assms lower_list_ascii [OF assms]
  by (simp add: TitleCase_def ToLower_runes runes_char_list encode_ascii_list title_runes_ascii
      del: map_map)

lemma TitleCase_is_ascii: "is_ascii s \<Longrightarrow> is_ascii (TitleCase U s)"
  by (simp add: TitleCase_ascii ascii_char_list title_runes_ascii lower_list_ascii del: map_map)

lemma ToLower_TitleCase:
  assumes "is_ascii s"
  shows "ToLower U (TitleCase U s) = ToLower U s"
proof -
  let ?rs = "title_runes U True (map (\<lambda>c. ascii_lower (of_char c)) s)"
  have rs: "list_all (\<lambda>r. r < 128) ?rs"
    using assms by (intro title_runes_ascii lower_list_ascii)
  have "ToLower U (TitleCase U s) = map char_of (map ascii_lower ?rs)"
    using rs assms ascii_of_char_list [OF rs, of ascii_lower]
    by (simp only: TitleCase_ascii ToLower_runes ascii_char_list map_map comp_def)
  also have "\<dots> = map char_of (map ascii_lower (map (\<lambda>c. ascii_lower (of_char c)) s))"
    using assms by (simp only: lower_title_runes lower_list_ascii)
  also have "\<dots> = ToLower U s"
    using assms by (simp add: ToLower_runes)
  finally show ?thesis .
qed

section \<open>Properties\<close>

text \<open>Parsing the dotted notation of an OID gives the OID back exactly when it has two or more
  components, each between 0 and the largest \<^verbatim>\<open>int\<close>; nothing else is ever the result of parsing.\<close>

theorem ParseOID_round_trip:
  "(ParseOID U (dotted oid) = Inr oid \<longleftrightarrow> wf_oid oid) \<and> (\<nexists>s. ParseOID U s = Inr oid \<and> \<not> wf_oid oid)"
  using ParseOID_dotted ParseOID_wf by blast

text \<open>C38: A certificate whose Certificate Policies extension is the DER encoding of a list of policies,
  with any qualifiers and with anything after the value, asserts exactly the OIDs of the list: the
  disallow check passes exactly when none of them is disallowed, the accept check exactly when one of them
  is accepted (or there is nothing to check against). Extensions before it, of other kinds, do not matter.\<close>

theorem policies_DER_decided:
  assumes "list_all (\<lambda>p. oid_ok (fst p)) ps" and "length (policies_der ps) < 2 ^ 31"
    and "Extensions cert = pre @ \<lparr>ext_Id = oidCertificatePolicies, ext_Value = policies_der ps @ trailing\<rparr> # post"
    and "list_all (\<lambda>e. ext_Id e \<noteq> oidCertificatePolicies) pre"
  shows "extractPolicies cert = Inr (map fst ps) \<and>
    (CheckDisallowedPolicies cert bad = None \<longleftrightarrow> fst ` set ps \<inter> set bad = {}) \<and>
    (CheckAcceptedPolicies cert good = None \<longleftrightarrow> good = [] \<or> fst ` set ps \<inter> set good \<noteq> {})"
proof -
  have "find (\<lambda>e. ext_Id e = oidCertificatePolicies) (Extensions cert) =
      Some \<lparr>ext_Id = oidCertificatePolicies, ext_Value = policies_der ps @ trailing\<rparr>"
    using assms(4) unfolding assms(3) by (induction pre) simp_all
  then have "extractPolicies cert = Inr (map fst ps)"
    using unmarshal_policies_der [of ps trailing] assms(1,2) by (auto simp: extractPolicies_def)
  then show ?thesis by (auto simp: check_None)
qed

definition sample_policy_cert :: x509_cert where
  "sample_policy_cert = (sample_cert [1])\<lparr>Extensions :=
     [\<lparr>ext_Id = [2, 5, 29, 15], ext_Value = [3, 2, 7, 128]\<rparr>,
      \<lparr>ext_Id = oidCertificatePolicies,
       ext_Value = policies_der [(OIDQCPNaturalQSCD, Some [5, 0]), ([1, 3, 6, 1, 4, 1, 10015, 1, 3], None)] @ [0]\<rparr>]\<rparr>"

theorem policies_DER_decided_witness:
  "CheckDisallowedPolicies sample_policy_cert DefaultDisallowedPolicies \<noteq> None \<and>
   CheckAcceptedPolicies sample_policy_cert [OIDQCPNatural] \<noteq> None \<and>
   CheckAcceptedPolicies sample_policy_cert [OIDQCPNaturalQSCD] = None"
proof -
  let ?ps = "[(OIDQCPNaturalQSCD, Some [5, 0]), ([1, 3, 6, 1, 4, 1, 10015, 1, 3], None)] :: (oid \<times> bytes option) list"
  have "length (policies_der ?ps) < 2 ^ 31"
    by (simp add: policies_der_def oid_any_der_def tlv_def encode_length_def encode_oid_def encode_arc_def
        appendBase128Int_def high_digits.simps OIDQCPNaturalQSCD_def)
  moreover have "list_all (\<lambda>p. oid_ok (fst p)) ?ps" by (simp add: OIDQCPNaturalQSCD_def)
  moreover have "Extensions sample_policy_cert = [\<lparr>ext_Id = [2, 5, 29, 15], ext_Value = [3, 2, 7, 128]\<rparr>] @
      \<lparr>ext_Id = oidCertificatePolicies, ext_Value = policies_der ?ps @ [0]\<rparr> # []"
    by (simp add: sample_policy_cert_def)
  ultimately show ?thesis
    using policies_DER_decided [of ?ps sample_policy_cert "[\<lparr>ext_Id = [2, 5, 29, 15], ext_Value = [3, 2, 7, 128]\<rparr>]" "[0]" "[]"]
    by (simp add: oidCertificatePolicies_def DefaultDisallowedPolicies_def OIDQCPNaturalQSCD_def OIDQCPNatural_def)
qed

text \<open>On ASCII names title-casing changes nothing but the case of letters, and title-casing a name
  twice is the same as once.\<close>

theorem TitleCase_case_only:
  assumes "is_ascii s"
  shows "ToLower U (TitleCase U s) = ToLower U s \<and> length (TitleCase U s) = length s \<and>
     TitleCase U (TitleCase U s) = TitleCase U s"
proof -
  have "length (TitleCase U s) = length s" using assms by (simp add: TitleCase_ascii)
  moreover have "TitleCase U (TitleCase U s) = TitleCase U s"
    unfolding TitleCase_def [of U "TitleCase U s"]
    using assms by (simp only: ToLower_TitleCase) (simp only: TitleCase_def)
  ultimately show ?thesis using assms by (simp add: ToLower_TitleCase)
qed

theorem TitleCase_case_only_witness:
  "is_ascii ''ANN-MAI'' \<and> TitleCase sample_unicode ''ANN-MAI'' = ''Ann-Mai'' \<and>
   TitleCase sample_unicode (TitleCase sample_unicode ''ANN-MAI'') = TitleCase sample_unicode ''ANN-MAI''"
proof -
  have a: "is_ascii ''ANN-MAI''" by (simp add: is_ascii_def ascii_char_def)
  moreover have "TitleCase sample_unicode ''ANN-MAI'' = ''Ann-Mai''"
    using a by (simp add: TitleCase_ascii ascii_lower_def ascii_upper_def in_range_def rune_upper_def
        char_of_eq)
  ultimately show ?thesis using TitleCase_case_only [OF a, of sample_unicode] by blast
qed

text \<open>Two certificates are bound to one natural person exactly when both carry the same national
  identifier and it has the PNO prefix; the binding is refused exactly when both identifiers have the
  prefix and differ, and skipped exactly when one of them does not have it.\<close>

theorem same_natural_person_cases:
  "(CheckSameNaturalPerson (Some a) (Some b) = (True, None) \<longleftrightarrow>
      (\<exists>x. SubjectSerialNumber (Subject a) = ''PNO'' @ x \<and> SubjectSerialNumber (Subject b) = ''PNO'' @ x)) \<and>
   (CheckSameNaturalPerson (Some a) (Some b) = (True, Some (Typed ErrIdentityBindingMismatch)) \<longleftrightarrow>
      (\<exists>x y. x \<noteq> y \<and> SubjectSerialNumber (Subject a) = ''PNO'' @ x \<and>
         SubjectSerialNumber (Subject b) = ''PNO'' @ y)) \<and>
   (CheckSameNaturalPerson (Some a) (Some b) = (False, None) \<longleftrightarrow>
      (\<nexists>x y. SubjectSerialNumber (Subject a) = ''PNO'' @ x \<and> SubjectSerialNumber (Subject b) = ''PNO'' @ y))"
  by (auto simp: CheckSameNaturalPerson_def naturalPersonIDPrefix_def HasPrefix_iff Let_def)

end
