(* ===== verification/Trust_Store.thy ===== *)
theory Trust_Store
  imports Certificate
begin

text \<open>
  \<^verbatim>\<open>src/certificate/trust.go\<close>: loading trust anchors from PEM and DER files, and the
  \<^verbatim>\<open>TrustStore\<close>, whose set of anchors is one immutable snapshot behind an atomic pointer.
  Operations that read the store take the snapshot they load. A PEM loader runs
  \<^verbatim>\<open>pem.Decode\<close> until it finds no block: the model's result is \<open>None\<close> when that never
  happens, and the loader is shown to return whenever \<^verbatim>\<open>pem.Decode\<close> consumes input.
\<close>

section \<open>Loading certificates\<close>

definition ErrNoCertificatesFound :: goerror where
  "ErrNoCertificatesFound = ErrorString ''no certificates found''"

definition errNoPEMCertificates :: goerror where
  "errNoPEMCertificates = ErrorString ''no certificates found in PEM data''"

partial_function (option) pem_loop ::
  "'a platform_scheme \<Rightarrow> bytes \<Rightarrow> x509_cert list \<Rightarrow> x509_cert list result option" where
  "pem_loop P data certs =
     (case pem_Decode P data of
        None \<Rightarrow> Some (Inr certs)
      | Some (block, rest) \<Rightarrow>
          if pem_Type block \<noteq> ''CERTIFICATE'' then pem_loop P rest certs
          else (case ParseCertificate P (pem_Bytes block) of
                  Inl err \<Rightarrow> Some (Inl (FmtError ''parse PEM certificate: %w'' [] (Some err)))
                | Inr cert \<Rightarrow> pem_loop P rest (certs @ [cert])))"

text \<open>The argument \<open>r\<close> is what \<^verbatim>\<open>io.ReadAll\<close> returns for the reader.\<close>

definition LoadCertificatesFromPEM ::
  "'a platform_scheme \<Rightarrow> bytes result \<Rightarrow> x509_cert list result option" where
  "LoadCertificatesFromPEM P r =
     (case r of
        Inl err \<Rightarrow> Some (Inl err)
      | Inr data \<Rightarrow>
          map_option (\<lambda>res. bindE res (\<lambda>certs.
            if certs = [] then Inl errNoPEMCertificates else Inr certs)) (pem_loop P data []))"

record dir_entry =
  entry_Name :: string
  entry_IsDir :: bool

text \<open>The file system: \<open>Open\<close> returns what reading the opened file to its end returns.\<close>

record filesystem =
  ReadFile :: "string \<Rightarrow> bytes result"
  ReadDir :: "string \<Rightarrow> dir_entry list result"
  StatIsDir :: "string \<Rightarrow> bool result"
  Open :: "string \<Rightarrow> bytes result result"

definition LoadCertificatesFromDER ::
  "'a platform_scheme \<Rightarrow> filesystem \<Rightarrow> string list \<Rightarrow> x509_cert list result" where
  "LoadCertificatesFromDER P fs paths =
     mapE (\<lambda>path. bindE (ReadFile fs path) (\<lambda>der.
       mapErr (\<lambda>err. FmtError ''parse DER certificate %q: %w'' [path] (Some err))
         (ParseCertificate P der))) paths"

definition load_entry ::
  "'a platform_scheme \<Rightarrow> filesystem \<Rightarrow> string \<Rightarrow> dir_entry \<Rightarrow> x509_cert list result option" where
  "load_entry P fs dir entry =
     (if entry_IsDir entry then Some (Inr [])
      else let path = dir @ ''/'' @ entry_Name entry in
        case ReadFile fs path of
          Inl err \<Rightarrow> Some (Inl err)
        | Inr data \<Rightarrow>
            if pem_Decode P data \<noteq> None then LoadCertificatesFromPEM P (Inr data)
            else Some (bindE
              (mapErr (\<lambda>err. FmtError ''parse certificate %q: %w'' [path] (Some err))
                (ParseCertificate P data)) (\<lambda>cert. Inr [cert])))"

fun load_entries ::
  "'a platform_scheme \<Rightarrow> filesystem \<Rightarrow> string \<Rightarrow> dir_entry list \<Rightarrow> x509_cert list \<Rightarrow>
   x509_cert list result option" where
  "load_entries P fs dir [] certs = Some (Inr certs)"
| "load_entries P fs dir (e # es) certs =
     Option.bind (load_entry P fs dir e) (\<lambda>res.
       case res of Inl err \<Rightarrow> Some (Inl err)
       | Inr parsed \<Rightarrow> load_entries P fs dir es (certs @ parsed))"

definition LoadCertificatesFromDir ::
  "'a platform_scheme \<Rightarrow> filesystem \<Rightarrow> string \<Rightarrow> x509_cert list result option" where
  "LoadCertificatesFromDir P fs dir =
     (case ReadDir fs dir of
        Inl err \<Rightarrow> Some (Inl err)
      | Inr entries \<Rightarrow>
          map_option (\<lambda>res. bindE res (\<lambda>certs.
            if certs = [] then Inl (FmtError ''%w in %q'' [dir] (Some ErrNoCertificatesFound))
            else Inr certs)) (load_entries P fs dir entries []))"

section \<open>The store\<close>

record trustSnapshot =
  intermediates :: "x509_cert list"
  pool :: "x509_cert list"

record TrustStore =
  snap :: trustSnapshot

text \<open>\<^verbatim>\<open>CertPool.AddCert\<close> keeps one copy of a certificate.\<close>

definition AddCert :: "x509_cert list \<Rightarrow> x509_cert \<Rightarrow> x509_cert list" where
  "AddCert p c = (if list_ex (\<lambda>d. Raw d = Raw c) p then p else p @ [c])"

definition newTrustSnapshot :: "x509_cert list \<Rightarrow> trustSnapshot" where
  "newTrustSnapshot cs = \<lparr>intermediates = cs, pool = foldl AddCert [] cs\<rparr>"

definition errNoTrustedCA :: goerror where
  "errNoTrustedCA = ErrorString ''at least one trusted CA certificate is required''"

definition NewTrustStore :: "x509_cert list \<Rightarrow> TrustStore result" where
  "NewTrustStore cs =
     (if cs = [] then Inl errNoTrustedCA else Inr \<lparr>snap = newTrustSnapshot cs\<rparr>)"

definition NewRuntimeTrustStore :: TrustStore where
  "NewRuntimeTrustStore = \<lparr>snap = newTrustSnapshot []\<rparr>"

definition Reload :: "TrustStore \<Rightarrow> x509_cert list \<Rightarrow> goerror option \<times> TrustStore" where
  "Reload ts cs =
     (if cs = [] then (Some errNoTrustedCA, ts)
      else (None, ts\<lparr>snap := newTrustSnapshot cs\<rparr>))"

definition Intermediates :: "TrustStore \<Rightarrow> x509_cert list" where
  "Intermediates ts = intermediates (snap ts)"

definition IssuerOf ::
  "'a platform_scheme \<Rightarrow> trustSnapshot \<Rightarrow> x509_cert \<Rightarrow> x509_cert option" where
  "IssuerOf P s cert = find (\<lambda>ca. CheckSignatureFrom P cert ca = None) (intermediates s)"

definition TrustStore_Verify ::
  "'a platform_scheme \<Rightarrow> trustSnapshot \<Rightarrow> x509_cert \<Rightarrow> time \<Rightarrow> ext_key_usage list \<Rightarrow> goerror option"
  where
  "TrustStore_Verify P s cert now keyUsages =
     (let kus = (if keyUsages = [] then [ExtKeyUsageAny] else keyUsages) in
      map_option (wrapped ErrCertificateNotTrusted) (chain_Verify P cert (pool s) now kus))"

section \<open>Snapshots\<close>

lemma pool_subset: "set (foldl AddCert p cs) \<subseteq> set p \<union> set cs"
proof (induction cs arbitrary: p)
  case (Cons c cs)
  show ?case using Cons [of "AddCert p c"] by (auto simp: AddCert_def split: if_splits)
qed simp

lemma pool_mono: "set p \<subseteq> set (foldl AddCert p cs)"
proof (induction cs arbitrary: p)
  case (Cons c cs)
  show ?case using Cons [of "AddCert p c"] by (auto simp: AddCert_def split: if_splits)
qed simp

lemma pool_complete: "c \<in> set cs \<Longrightarrow> \<exists>d \<in> set (foldl AddCert p cs). Raw d = Raw c"
proof (induction cs arbitrary: p)
  case (Cons x cs)
  have "\<exists>d \<in> set (AddCert p x). Raw d = Raw x"
    by (auto simp: AddCert_def list_ex_iff)
  then show ?case
    using Cons pool_mono [of "AddCert p x" cs] by auto
qed simp

lemma pool_distinct: "distinct (map Raw p) \<Longrightarrow> distinct (map Raw (foldl AddCert p cs))"
proof (induction cs arbitrary: p)
  case (Cons c cs)
  have "distinct (map Raw (AddCert p c))"
    using Cons.prems by (auto simp: AddCert_def list_ex_iff)
  then show ?case using Cons.IH by simp
qed simp

text \<open>The two halves of a snapshot describe the same set of certificates, each kept once in the pool.\<close>

definition wf_snapshot :: "trustSnapshot \<Rightarrow> bool" where
  "wf_snapshot s \<longleftrightarrow> set (pool s) \<subseteq> set (intermediates s) \<and>
     Raw ` set (pool s) = Raw ` set (intermediates s) \<and> distinct (map Raw (pool s))"

lemma wf_newTrustSnapshot: "wf_snapshot (newTrustSnapshot cs)"
  using pool_subset [of "[]" cs] pool_complete [of _ cs "[]"] pool_distinct [of "[]" cs]
  by (auto simp: wf_snapshot_def newTrustSnapshot_def) (metis imageI)

lemma IssuerOf_Some:
  "IssuerOf P s cert = Some ca \<Longrightarrow> ca \<in> set (intermediates s) \<and> CheckSignatureFrom P cert ca = None"
  by (auto simp: IssuerOf_def find_Some_iff)

lemma IssuerOf_None:
  "IssuerOf P s cert = None \<longleftrightarrow> (\<forall>ca \<in> set (intermediates s). CheckSignatureFrom P cert ca \<noteq> None)"
  by (auto simp: IssuerOf_def find_None_iff)

lemma TrustStore_Verify_None:
  "TrustStore_Verify P s cert now kus = None \<longleftrightarrow>
     chain_Verify P cert (pool s) now (if kus = [] then [ExtKeyUsageAny] else kus) = None"
  by (simp add: TrustStore_Verify_def Let_def)

lemma TrustStore_Verify_reports:
  "TrustStore_Verify P s cert now kus = Some e \<Longrightarrow> reports e ErrCertificateNotTrusted"
  by (auto simp: TrustStore_Verify_def Let_def)

section \<open>Reloading\<close>

inductive trust_step :: "TrustStore \<Rightarrow> TrustStore \<Rightarrow> bool" where
  reload: "Reload ts cs = (err, ts') \<Longrightarrow> trust_step ts ts'"

inductive trust_reachable :: "TrustStore \<Rightarrow> bool" where
  static: "NewTrustStore cs = Inr ts \<Longrightarrow> trust_reachable ts"
| runtime: "trust_reachable NewRuntimeTrustStore"
| step: "trust_reachable ts \<Longrightarrow> trust_step ts ts' \<Longrightarrow> trust_reachable ts'"

inductive_cases trust_stepE: "trust_step ts ts'"

lemma trust_step_wf: "trust_step ts ts' \<Longrightarrow> wf_snapshot (snap ts) \<Longrightarrow> wf_snapshot (snap ts')"
  by (auto elim!: trust_stepE simp: Reload_def wf_newTrustSnapshot split: if_splits)

lemma trust_step_nonempty: "trust_step ts ts' \<Longrightarrow> Intermediates ts \<noteq> [] \<Longrightarrow> Intermediates ts' \<noteq> []"
  by (auto elim!: trust_stepE simp: Reload_def Intermediates_def newTrustSnapshot_def split: if_splits)

lemma trust_steps_nonempty:
  "trust_step\<^sup>*\<^sup>* ts ts' \<Longrightarrow> Intermediates ts \<noteq> [] \<Longrightarrow> Intermediates ts' \<noteq> []"
  by (induction rule: rtranclp_induct) (auto dest: trust_step_nonempty)

lemma trust_reachable_wf: "trust_reachable ts \<Longrightarrow> wf_snapshot (snap ts)"
  by (induction rule: trust_reachable.induct)
    (auto simp: NewTrustStore_def NewRuntimeTrustStore_def wf_newTrustSnapshot
      split: if_splits dest: trust_step_wf)

lemma wf_snapshot_empty: "wf_snapshot s \<Longrightarrow> pool s = [] \<longleftrightarrow> intermediates s = []"
  by (auto simp: wf_snapshot_def)

section \<open>The PEM loader\<close>

text \<open>\<^verbatim>\<open>pem.Decode\<close> returns a remainder shorter than its input when it finds a block.\<close>

definition pem_consumes :: "'a platform_scheme \<Rightarrow> bool" where
  "pem_consumes P \<longleftrightarrow> (\<forall>d b r. pem_Decode P d = Some (b, r) \<longrightarrow> length r < length d)"

text \<open>The blocks of a PEM document, in order.\<close>

function pem_blocks :: "'a platform_scheme \<Rightarrow> bytes \<Rightarrow> pem_block list" where
  "pem_blocks P d = (case pem_Decode P d of None \<Rightarrow> []
     | Some (b, r) \<Rightarrow> if length r < length d then b # pem_blocks P r else [b])"
  by pat_completeness auto
termination
  by (relation "measure (\<lambda>(P, d). length d)") auto

declare pem_blocks.simps [simp del]

definition parse_block :: "'a platform_scheme \<Rightarrow> pem_block \<Rightarrow> x509_cert result" where
  "parse_block P b =
     mapErr (\<lambda>err. FmtError ''parse PEM certificate: %w'' [] (Some err)) (ParseCertificate P (pem_Bytes b))"

definition cert_blocks :: "'a platform_scheme \<Rightarrow> bytes \<Rightarrow> pem_block list" where
  "cert_blocks P d = filter (\<lambda>b. pem_Type b = ''CERTIFICATE'') (pem_blocks P d)"

lemma pem_loop_blocks:
  assumes "pem_consumes P"
  shows "pem_loop P d acc =
    Some (bindE (mapE (parse_block P) (cert_blocks P d)) (\<lambda>cs. Inr (acc @ cs)))"
proof (induction "length d" arbitrary: d acc rule: less_induct)
  case less
  show ?case
  proof (cases "pem_Decode P d")
    case None
    then show ?thesis
      by (simp add: pem_loop.simps cert_blocks_def pem_blocks.simps [of P d])
  next
    case (Some br)
    obtain b r where br: "br = (b, r)" by fastforce
    have lt: "length r < length d" using assms Some br by (auto simp: pem_consumes_def)
    have bs: "cert_blocks P d =
        (if pem_Type b = ''CERTIFICATE'' then b # cert_blocks P r else cert_blocks P r)"
      using Some br lt by (simp add: cert_blocks_def pem_blocks.simps [of P d])
    show ?thesis
      using Some br less [OF lt] bs
      by (cases "ParseCertificate P (pem_Bytes b)"; cases "mapE (parse_block P) (cert_blocks P r)")
        (simp_all add: pem_loop.simps [of P d] parse_block_def)
  qed
qed

section \<open>Properties\<close>

lemma sample_pem_consumes: "pem_consumes sample_platform"
  by (auto simp: pem_consumes_def sample_platform_def sample_pem_def split: list.splits if_splits)

text \<open>C34: In every state a trust store can reach, static or runtime-managed and after any sequence of
  reloads, its pool and its list of issuers describe the same certificates, each once in the pool; so
  the pool is empty exactly when no issuer can be found.\<close>

theorem trust_store_invariant:
  assumes "trust_reachable ts"
  shows "set (pool (snap ts)) \<subseteq> set (Intermediates ts) \<and>
     Raw ` set (pool (snap ts)) = Raw ` set (Intermediates ts) \<and>
     distinct (map Raw (pool (snap ts))) \<and> (pool (snap ts) = [] \<longleftrightarrow> Intermediates ts = [])"
  using trust_reachable_wf [OF assms] wf_snapshot_empty [of "snap ts"]
  by (simp add: wf_snapshot_def Intermediates_def)

theorem trust_store_invariant_witness:
  "pool (snap (snd (Reload NewRuntimeTrustStore [sample_cert [2], sample_cert [2]]))) = [sample_cert [2]] \<and>
   Raw ` set (pool (snap (snd (Reload NewRuntimeTrustStore [sample_cert [2], sample_cert [2]])))) =
     Raw ` set (Intermediates (snd (Reload NewRuntimeTrustStore [sample_cert [2], sample_cert [2]])))"
proof -
  have "trust_reachable (snd (Reload NewRuntimeTrustStore [sample_cert [2], sample_cert [2]]))"
    by (rule trust_reachable.step [OF trust_reachable.runtime]) (rule trust_step.reload, rule prod.collapse [symmetric])
  from trust_store_invariant [OF this] show ?thesis
    by (simp add: Reload_def newTrustSnapshot_def AddCert_def)
qed

text \<open>A reload replaces the whole set by exactly the given certificates or, when it is given none,
  fails and changes nothing; so a store that trusts something trusts something after every sequence of
  reloads.\<close>

theorem reload_all_or_nothing:
  "(Reload ts cs = (None, ts') \<longleftrightarrow> cs \<noteq> [] \<and> ts' = ts\<lparr>snap := newTrustSnapshot cs\<rparr>) \<and>
   (Reload ts cs = (Some e, ts') \<longleftrightarrow> cs = [] \<and> ts' = ts \<and> e = errNoTrustedCA) \<and>
   (\<nexists>ts''. trust_step\<^sup>*\<^sup>* ts ts'' \<and> Intermediates ts \<noteq> [] \<and> Intermediates ts'' = [])"
  using trust_steps_nonempty [of ts] by (auto simp: Reload_def)

text \<open>C35: The PEM loader returns on every input when the decoder consumes what it decodes, and its result
  is the certificates of all CERTIFICATE blocks in order, the first parse error, or an error when
  there is no such block; other blocks are skipped.\<close>

theorem PEM_loader_correct:
  assumes "pem_consumes P"
  shows "LoadCertificatesFromPEM P (Inr data) =
     Some (bindE (mapE (parse_block P) (filter (\<lambda>b. pem_Type b = ''CERTIFICATE'') (pem_blocks P data)))
       (\<lambda>certs. if certs = [] then Inl errNoPEMCertificates else Inr certs))"
  using pem_loop_blocks [OF assms, of data "[]"]
  by (cases "mapE (parse_block P) (cert_blocks P data)")
    (simp_all add: LoadCertificatesFromPEM_def cert_blocks_def)

theorem PEM_loader_correct_witness:
  "LoadCertificatesFromPEM sample_platform (Inr [1, 2, 1, 1]) =
     Some (Inr [sample_cert [2], sample_cert [1]])"
  using PEM_loader_correct [OF sample_pem_consumes, of "[1, 2, 1, 1]"]
  by (simp add: sample_platform_def sample_pem_def pem_blocks.simps parse_block_def sample_parse_def)

end
