(* ===== verification/Ocsp_Request.thy ===== *)
theory Ocsp_Request
  imports Certificate
begin

text \<open>
  The requests of package \<^verbatim>\<open>ocsp\<close> (\<^verbatim>\<open>src/ocsp/client.go\<close>): their structures, the DER encoding that
  \<^verbatim>\<open>encoding/asn1\<close> derives from them, and \<^verbatim>\<open>buildRequest\<close>. SHA-1 and the response parser of
  \<^verbatim>\<open>golang.org/x/crypto/ocsp\<close> extend the platform record.
\<close>

section \<open>Requests and responses\<close>

definition oidOCSPNonce :: oid where "oidOCSPNonce = [1, 3, 6, 1, 5, 5, 7, 48, 1, 2]"
definition oidSHA1 :: oid where "oidSHA1 = [1, 3, 14, 3, 2, 26]"

text \<open>\<^verbatim>\<open>pkix.AlgorithmIdentifier\<close>; the parameters are the bytes of a raw value, empty when it is absent.\<close>

record AlgorithmIdentifier =
  alg_Algorithm :: oid
  alg_Parameters :: bytes

record certID =
  HashAlgorithm :: AlgorithmIdentifier
  IssuerNameHash :: bytes
  IssuerKeyHash :: bytes
  certID_SerialNumber :: int

record request =
  Cert :: certID

record tbsRequest =
  RequestList :: "request list"
  RequestExtensions :: "pkix_extension list"

record ocspRequest =
  TBSRequest :: tbsRequest

record publicKeyInfo =
  pki_Raw :: bytes
  pki_Algorithm :: AlgorithmIdentifier
  pki_PublicKey :: BitString

record ocsp_response =
  Status :: int
  resp_SerialNumber :: int
  ThisUpdate :: time
  NextUpdate :: time
  resp_Extensions :: "pkix_extension list"

definition Good :: int where "Good = 0"
definition Revoked :: int where "Revoked = 1"

record ocsp_platform = platform +
  sha1_Sum :: "bytes \<Rightarrow> bytes"
  xocsp_ParseResponse :: "bytes \<Rightarrow> x509_cert \<Rightarrow> ocsp_response result"
  xocsp_ParseResponseForCert ::
    "bytes \<Rightarrow> x509_cert option \<Rightarrow> x509_cert \<Rightarrow> ocsp_response result"

section \<open>DER\<close>

text \<open>\<^verbatim>\<open>asn1.Unmarshal\<close> into \<^verbatim>\<open>publicKeyInfo\<close>; the bytes after the value are not looked at.\<close>

definition decode_AlgorithmIdentifier :: "bytes \<Rightarrow> AlgorithmIdentifier option" where
  "decode_AlgorithmIdentifier content =
     map_option (\<lambda>(x, q). \<lparr>alg_Algorithm = x, alg_Parameters = q\<rparr>) (parse_oid_any content)"

definition decode_publicKeyInfo :: "bytes \<Rightarrow> publicKeyInfo option" where
  "decode_publicKeyInfo data =
     Option.bind (expect SEQUENCE data) (\<lambda>(content, rest).
     Option.bind (expect SEQUENCE content) (\<lambda>(alg, s1).
     Option.bind (decode_AlgorithmIdentifier alg) (\<lambda>a.
     Option.bind (expect BIT_STRING s1) (\<lambda>(bits, s2).
       map_option (\<lambda>k. \<lparr>pki_Raw = take (length data - length rest) data, pki_Algorithm = a, pki_PublicKey = k\<rparr>)
         (parseBitString bits)))))"

definition unmarshal_publicKeyInfo :: "bytes \<Rightarrow> publicKeyInfo result" where
  "unmarshal_publicKeyInfo data =
     (case decode_publicKeyInfo data of None \<Rightarrow> Inl asn1_error | Some pki \<Rightarrow> Inr pki)"

text \<open>
  \<^verbatim>\<open>asn1.Marshal\<close> of a request. An absent optional field is left out: the parameters of the algorithm
  identifier, the \<^verbatim>\<open>Critical\<close> flag of an extension (never set here) and the list of extensions.
\<close>

definition encode_AlgorithmIdentifier :: "AlgorithmIdentifier \<Rightarrow> bytes option" where
  "encode_AlgorithmIdentifier a =
     map_option (\<lambda>x. tlv SEQUENCE (tlv OBJECT_IDENTIFIER x @ alg_Parameters a)) (encode_oid (alg_Algorithm a))"

definition encode_certID :: "certID \<Rightarrow> bytes option" where
  "encode_certID c =
     map_option (\<lambda>a. tlv SEQUENCE (a @ tlv OCTET_STRING (IssuerNameHash c) @ tlv OCTET_STRING (IssuerKeyHash c)
         @ tlv INTEGER (encode_int (certID_SerialNumber c))))
       (encode_AlgorithmIdentifier (HashAlgorithm c))"

definition encode_request :: "request \<Rightarrow> bytes option" where
  "encode_request r = map_option (tlv SEQUENCE) (encode_certID (Cert r))"

definition encode_extension :: "pkix_extension \<Rightarrow> bytes option" where
  "encode_extension e =
     map_option (\<lambda>x. tlv SEQUENCE (tlv OBJECT_IDENTIFIER x @ tlv OCTET_STRING (ext_Value e))) (encode_oid (ext_Id e))"

definition CONTEXT_2 :: "nat \<times> bool \<times> nat" where "CONTEXT_2 = (2, True, 2)"

definition encode_tbsRequest :: "tbsRequest \<Rightarrow> bytes option" where
  "encode_tbsRequest t =
     Option.bind (those (map encode_request (RequestList t))) (\<lambda>rs.
     Option.bind (those (map encode_extension (RequestExtensions t))) (\<lambda>es.
       Some (tlv SEQUENCE (tlv SEQUENCE (concat rs)
         @ (if es = [] then [] else tlv CONTEXT_2 (tlv SEQUENCE (concat es)))))))"

definition marshal_ocspRequest :: "ocspRequest \<Rightarrow> bytes result" where
  "marshal_ocspRequest r =
     (case encode_tbsRequest (TBSRequest r) of None \<Rightarrow> Inl asn1_error | Some t \<Rightarrow> Inr (tlv SEQUENCE t))"

section \<open>Building a request\<close>

type_synonym entropy = "nat \<Rightarrow> bytes result"

definition wrapOCSPError :: "goerror \<Rightarrow> goerror" where
  "wrapOCSPError err = wrapped ErrOCSPRequestFailed err"

definition buildRequest ::
  "'a ocsp_platform_scheme \<Rightarrow> x509_cert \<Rightarrow> x509_cert \<Rightarrow> bytes option \<Rightarrow> bytes result" where
  "buildRequest P cert issuer nonce =
     (case unmarshal_publicKeyInfo (RawSubjectPublicKeyInfo issuer) of
        Inl err \<Rightarrow> Inl (FmtError ''parse issuer public key info: %w'' [] (Some err))
      | Inr pki \<Rightarrow>
          let nameHash = sha1_Sum P (RawSubject issuer);
              keyHash = sha1_Sum P (RightAlign (pki_PublicKey pki));
              tbs = \<lparr>RequestList = [\<lparr>Cert = \<lparr>
                       HashAlgorithm = \<lparr>alg_Algorithm = oidSHA1, alg_Parameters = []\<rparr>,
                       IssuerNameHash = nameHash, IssuerKeyHash = keyHash,
                       certID_SerialNumber = SerialNumber cert\<rparr>\<rparr>],
                     RequestExtensions = (case nonce of None \<Rightarrow> []
                       | Some v \<Rightarrow> [\<lparr>ext_Id = oidOCSPNonce, ext_Value = v\<rparr>])\<rparr>
          in marshal_ocspRequest \<lparr>TBSRequest = tbs\<rparr>)"

definition generateNonce :: "entropy \<Rightarrow> bytes result" where
  "generateNonce rand = rand 16"

definition responseNonce :: "ocsp_response \<Rightarrow> bytes option" where
  "responseNonce resp =
     map_option ext_Value (find (\<lambda>ext. ext_Id ext = oidOCSPNonce) (resp_Extensions resp))"

section \<open>What a responder reads\<close>

text \<open>The structures of a request, read from their DER encoding.\<close>

definition read_certID :: "bytes \<Rightarrow> certID option" where
  "read_certID c =
     Option.bind (expect SEQUENCE c) (\<lambda>(alg, s1).
     Option.bind (decode_AlgorithmIdentifier alg) (\<lambda>a.
     Option.bind (expect OCTET_STRING s1) (\<lambda>(nh, s2).
     Option.bind (expect OCTET_STRING s2) (\<lambda>(kh, s3).
     Option.bind (expect INTEGER s3) (\<lambda>(n, s4).
       Some \<lparr>HashAlgorithm = a, IssuerNameHash = nh, IssuerKeyHash = kh, certID_SerialNumber = decode_int n\<rparr>)))))"

definition read_request :: "bytes \<Rightarrow> request option" where
  "read_request c = Option.bind (expect SEQUENCE c) (\<lambda>(cid, s1). map_option request.make (read_certID cid))"

definition read_extension :: "bytes \<Rightarrow> pkix_extension option" where
  "read_extension c =
     Option.bind (expect OBJECT_IDENTIFIER c) (\<lambda>(x, s1).
     Option.bind (parseObjectIdentifier x) (\<lambda>i.
       map_option (\<lambda>(v, s2). \<lparr>ext_Id = i, ext_Value = v\<rparr>) (expect OCTET_STRING s1)))"

definition read_extensions :: "bytes \<Rightarrow> pkix_extension list option" where
  "read_extensions s =
     (if s = [] then Some []
      else Option.bind (expect CONTEXT_2 s) (\<lambda>(ex, s1).
           Option.bind (expect SEQUENCE ex) (\<lambda>(es, s2).
           Option.bind (parse_sequence_of SEQUENCE es) (\<lambda>cs. those (map read_extension cs)))))"

definition read_ocspRequest :: "bytes \<Rightarrow> ocspRequest option" where
  "read_ocspRequest data =
     Option.bind (expect SEQUENCE data) (\<lambda>(r, rest).
     Option.bind (expect SEQUENCE r) (\<lambda>(tbs, s1).
     Option.bind (expect SEQUENCE tbs) (\<lambda>(rs, s2).
     Option.bind (parse_sequence_of SEQUENCE rs) (\<lambda>cs.
     Option.bind (those (map read_request cs)) (\<lambda>reqs.
       map_option (\<lambda>es. \<lparr>TBSRequest = \<lparr>RequestList = reqs, RequestExtensions = es\<rparr>\<rparr>) (read_extensions s2))))))"

text \<open>Contents within the length limit of the reader; what a small value contains is small.\<close>

definition small :: "bytes \<Rightarrow> bool" where
  "small b \<longleftrightarrow> length b < 2147483648"

lemma small_tlv: "small (tlv ty c) \<Longrightarrow> small c"
  using length_tlv [of c ty] by (simp add: small_def)

lemma small_append: "small (a @ b) \<Longrightarrow> small a \<and> small b"
  by (simp add: small_def)

lemmas smallD = small_append small_tlv

lemma expect_small:
  "simple_type ty \<Longrightarrow> small c \<Longrightarrow> expect ty (tlv ty c @ rest) = Some (c, rest)"
  "simple_type ty \<Longrightarrow> small c \<Longrightarrow> expect ty (tlv ty c) = Some (c, [])"
  using expect_tlv [of ty c rest] expect_tlv [of ty c "[]"] by (simp_all add: small_def)

lemma CONTEXT_2_simple [simp]: "simple_type CONTEXT_2"
  by (simp add: simple_type_def CONTEXT_2_def)

lemma decode_encode_algorithm:
  assumes "oid_ok x" and "encode_oid x = Some b" and "small (tlv OBJECT_IDENTIFIER b)"
  shows "decode_AlgorithmIdentifier (tlv OBJECT_IDENTIFIER b) = Some \<lparr>alg_Algorithm = x, alg_Parameters = []\<rparr>"
  using parse_oid_any_der [of x None] assms by (simp add: oid_any_der_def decode_AlgorithmIdentifier_def small_def)

definition certID_der :: "bytes \<Rightarrow> certID \<Rightarrow> bytes" where
  "certID_der b c = tlv SEQUENCE (tlv OBJECT_IDENTIFIER b) @ tlv OCTET_STRING (IssuerNameHash c)
     @ tlv OCTET_STRING (IssuerKeyHash c) @ tlv INTEGER (encode_int (certID_SerialNumber c))"

lemma read_certID_der:
  assumes "HashAlgorithm c = \<lparr>alg_Algorithm = x, alg_Parameters = []\<rparr>" and "oid_ok x" and "encode_oid x = Some b"
    and "small (certID_der b c)"
  shows "read_certID (certID_der b c) = Some c"
proof -
  have sm: "small (tlv OBJECT_IDENTIFIER b)" "small (IssuerNameHash c)" "small (IssuerKeyHash c)"
      "small (encode_int (certID_SerialNumber c))"
    using assms(4) by (auto simp: certID_der_def dest!: smallD)
  then show ?thesis
    using assms(1-3) decode_encode_algorithm [of x b]
    by (simp add: read_certID_def certID_der_def expect_small decode_encode_int)
qed

definition extension_der :: "bytes \<Rightarrow> bytes \<Rightarrow> bytes" where
  "extension_der b v = tlv OBJECT_IDENTIFIER b @ tlv OCTET_STRING v"

lemma read_extension_der:
  assumes "parseObjectIdentifier b = Some x" and "small (extension_der b v)"
  shows "read_extension (extension_der b v) = Some \<lparr>ext_Id = x, ext_Value = v\<rparr>"
proof -
  have "small b" "small v" using assms(2) by (auto simp: extension_der_def dest!: smallD)
  then show ?thesis using assms(1) by (simp add: read_extension_def extension_der_def expect_small)
qed


text \<open>A list of one value, read by \<open>f\<close>.\<close>

lemma read_singleton:
  "small c \<Longrightarrow> f c = Some x \<Longrightarrow>
    Option.bind (parse_sequence_of SEQUENCE (tlv SEQUENCE c)) (\<lambda>cs. those (map f cs)) = Some [x]"
  using parse_sequence_of_tlv [of SEQUENCE "[c]"] by (simp add: small_def)

lemma encode_built:
  assumes "HashAlgorithm c = \<lparr>alg_Algorithm = x, alg_Parameters = []\<rparr>" and "encode_oid x = Some b"
    and "encode_oid y = Some d"
  shows "marshal_ocspRequest \<lparr>TBSRequest = \<lparr>RequestList = [\<lparr>Cert = c\<rparr>],
      RequestExtensions = (case nonce of None \<Rightarrow> [] | Some v \<Rightarrow> [\<lparr>ext_Id = y, ext_Value = v\<rparr>])\<rparr>\<rparr> =
    Inr (tlv SEQUENCE (tlv SEQUENCE (tlv SEQUENCE (tlv SEQUENCE (tlv SEQUENCE (certID_der b c)))
      @ (case nonce of None \<Rightarrow> [] | Some v \<Rightarrow> tlv CONTEXT_2 (tlv SEQUENCE (tlv SEQUENCE (extension_der d v)))))))"
  using assms
  by (cases nonce) (simp_all add: marshal_ocspRequest_def encode_tbsRequest_def encode_request_def
      encode_certID_def encode_AlgorithmIdentifier_def encode_extension_def certID_der_def extension_der_def)

lemma read_built:
  assumes "HashAlgorithm c = \<lparr>alg_Algorithm = x, alg_Parameters = []\<rparr>" and "oid_ok x" and "encode_oid x = Some b"
    and "encode_oid y = Some d" and "parseObjectIdentifier d = Some y"
    and "marshal_ocspRequest r = Inr data"
    and "r = \<lparr>TBSRequest = \<lparr>RequestList = [\<lparr>Cert = c\<rparr>],
      RequestExtensions = (case nonce of None \<Rightarrow> [] | Some v \<Rightarrow> [\<lparr>ext_Id = y, ext_Value = v\<rparr>])\<rparr>\<rparr>"
    and "small data"
  shows "read_ocspRequest data = Some r"
proof -
  let ?es = "case nonce of None \<Rightarrow> [] | Some v \<Rightarrow> tlv CONTEXT_2 (tlv SEQUENCE (tlv SEQUENCE (extension_der d v)))"
  let ?rs = "tlv SEQUENCE (tlv SEQUENCE (certID_der b c))"
  have data: "data = tlv SEQUENCE (tlv SEQUENCE (tlv SEQUENCE ?rs @ ?es))"
    using encode_built [OF assms(1,3,4), of nonce] assms(6) unfolding assms(7) by simp
  have sm: "small (tlv SEQUENCE (tlv SEQUENCE ?rs @ ?es))" "small (tlv SEQUENCE ?rs @ ?es)" "small ?rs" "small ?es"
    using assms(8) unfolding data by (blast dest: smallD)+
  have c: "small (tlv SEQUENCE (certID_der b c))" "small (certID_der b c)"
    using sm(3) by (blast dest: smallD)+
  have "read_request (tlv SEQUENCE (certID_der b c)) = Some \<lparr>Cert = c\<rparr>"
    using read_certID_der [OF assms(1-3) c(2)] c(2)
    by (simp add: read_request_def expect_small request.defs)
  from read_singleton [OF c(1), of read_request, OF this]
  have rs: "Option.bind (parse_sequence_of SEQUENCE ?rs) (\<lambda>cs. those (map read_request cs)) = Some [\<lparr>Cert = c\<rparr>]" .
  have es: "read_extensions ?es = Some (RequestExtensions (TBSRequest r))"
  proof (cases nonce)
    case (Some v)
    have v: "small (tlv SEQUENCE (tlv SEQUENCE (extension_der d v)))" "small (tlv SEQUENCE (extension_der d v))"
        "small (extension_der d v)"
      using sm(4) by (auto simp: Some dest: smallD)
    show ?thesis
      using read_singleton [OF v(3), of read_extension, OF read_extension_der [OF assms(5) v(3)]] v
      by (simp add: Some assms(7) read_extensions_def expect_small)
  qed (simp add: assms(7) read_extensions_def)
  have "read_ocspRequest data = Option.bind (Option.bind (parse_sequence_of SEQUENCE ?rs) (\<lambda>cs. those (map read_request cs)))
      (\<lambda>reqs. map_option (\<lambda>es. \<lparr>TBSRequest = \<lparr>RequestList = reqs, RequestExtensions = es\<rparr>\<rparr>) (read_extensions ?es))"
    unfolding data read_ocspRequest_def using sm by (simp add: expect_small)
  then show ?thesis unfolding rs es by (simp add: assms(7))
qed

section \<open>Properties\<close>

text \<open>The DER encoding of a subject public key with whole bytes.\<close>

definition spki_der :: "oid \<Rightarrow> bytes option \<Rightarrow> bytes \<Rightarrow> bytes" where
  "spki_der alg params key = tlv SEQUENCE (tlv SEQUENCE (oid_any_der alg params) @ tlv BIT_STRING (0 # key))"

lemma unmarshal_spki:
  assumes "oid_ok alg" and "small (spki_der alg params key)"
  shows "\<exists>pki. unmarshal_publicKeyInfo (spki_der alg params key @ rest) = Inr pki \<and> RightAlign (pki_PublicKey pki) = key"
proof -
  let ?c = "tlv SEQUENCE (oid_any_der alg params) @ tlv BIT_STRING (0 # key)"
  have sm: "small ?c" using assms(2) unfolding spki_der_def by (blast dest: smallD)
  have "small (oid_any_der alg params)" "small (0 # key)" using sm by (blast dest: smallD)+
  moreover have "\<exists>a. decode_AlgorithmIdentifier (oid_any_der alg params) = Some a"
    using parse_oid_any_der [OF assms(1), of params] calculation by (simp add: decode_AlgorithmIdentifier_def small_def)
  ultimately show ?thesis
    using sm by (auto simp: unmarshal_publicKeyInfo_def decode_publicKeyInfo_def spki_der_def expect_small parse_whole_bytes)
qed

lemma request_oids:
  "oid_ok oidSHA1" "\<exists>b. encode_oid oidSHA1 = Some b"
  "\<exists>b. encode_oid oidOCSPNonce = Some b \<and> parseObjectIdentifier b = Some oidOCSPNonce"
  using parse_encode_oid [of oidSHA1] parse_encode_oid [of oidOCSPNonce]
  by (auto simp: oidSHA1_def oidOCSPNonce_def)

text \<open>The request for a certificate, as a structure.\<close>

definition the_request ::
  "'a ocsp_platform_scheme \<Rightarrow> x509_cert \<Rightarrow> bytes \<Rightarrow> bytes \<Rightarrow> bytes option \<Rightarrow> ocspRequest" where
  "the_request P cert subject key nonce = \<lparr>TBSRequest = \<lparr>
     RequestList = [\<lparr>Cert = \<lparr>HashAlgorithm = \<lparr>alg_Algorithm = oidSHA1, alg_Parameters = []\<rparr>,
       IssuerNameHash = sha1_Sum P subject, IssuerKeyHash = sha1_Sum P key,
       certID_SerialNumber = SerialNumber cert\<rparr>\<rparr>],
     RequestExtensions = (case nonce of None \<Rightarrow> [] | Some v \<Rightarrow> [\<lparr>ext_Id = oidOCSPNonce, ext_Value = v\<rparr>])\<rparr>\<rparr>"

lemma buildRequest_spki:
  assumes "oid_ok alg" and "small (spki_der alg params key)"
    and "RawSubjectPublicKeyInfo issuer = spki_der alg params key @ trailing"
  obtains req where "buildRequest P cert issuer nonce = Inr req"
    and "marshal_ocspRequest (the_request P cert (RawSubject issuer) key nonce) = Inr req"
proof -
  obtain pki where "unmarshal_publicKeyInfo (RawSubjectPublicKeyInfo issuer) = Inr pki"
      "RightAlign (pki_PublicKey pki) = key"
    using unmarshal_spki [OF assms(1,2)] by (auto simp: assms(3))
  then have "buildRequest P cert issuer nonce = marshal_ocspRequest (the_request P cert (RawSubject issuer) key nonce)"
    by (simp add: buildRequest_def the_request_def Let_def)
  moreover obtain x d where "encode_oid oidSHA1 = Some x" "encode_oid oidOCSPNonce = Some d"
    using request_oids by blast
  ultimately show thesis using that by (simp add: the_request_def encode_built)
qed

lemma read_the_request:
  assumes "marshal_ocspRequest (the_request P cert subject key nonce) = Inr req" and "small req"
  shows "read_ocspRequest req = Some (the_request P cert subject key nonce)"
proof -
  obtain x d where x: "encode_oid oidSHA1 = Some x" and d: "encode_oid oidOCSPNonce = Some d"
      "parseObjectIdentifier d = Some oidOCSPNonce"
    using request_oids by blast
  show ?thesis
    by (rule read_built [OF _ request_oids(1) x d assms(1) _ assms(2)]) (simp_all add: the_request_def)
qed

text \<open>C39: For an issuer whose subject public key info is DER encoded, with anything after the value, a
  request is always built, and a responder that decodes it (it is below the length limit of DER readers)
  reads exactly one certificate, named by the SHA-1 hashes of the issuer's subject and public key bits and
  by its serial number, and the nonce as the only extension, if there is one.\<close>

theorem buildRequest_names_certificate:
  assumes "oid_ok alg" and "length (spki_der alg params key) < 2 ^ 31"
    and "RawSubjectPublicKeyInfo issuer = spki_der alg params key @ trailing"
  shows "\<exists>req. buildRequest P cert issuer nonce = Inr req \<and>
    (length req < 2 ^ 31 \<longrightarrow> read_ocspRequest req = Some \<lparr>TBSRequest = \<lparr>
       RequestList = [\<lparr>Cert = \<lparr>HashAlgorithm = \<lparr>alg_Algorithm = oidSHA1, alg_Parameters = []\<rparr>,
         IssuerNameHash = sha1_Sum P (RawSubject issuer), IssuerKeyHash = sha1_Sum P key,
         certID_SerialNumber = SerialNumber cert\<rparr>\<rparr>],
       RequestExtensions = (case nonce of None \<Rightarrow> [] | Some v \<Rightarrow> [\<lparr>ext_Id = oidOCSPNonce, ext_Value = v\<rparr>])\<rparr>\<rparr>)"
proof -
  obtain req where "buildRequest P cert issuer nonce = Inr req"
    and "marshal_ocspRequest (the_request P cert (RawSubject issuer) key nonce) = Inr req"
    by (rule buildRequest_spki [OF assms(1) _ assms(3)]) (use assms(2) in \<open>simp add: small_def\<close>)
  then show ?thesis
    using read_the_request [of P cert "RawSubject issuer" key nonce req] by (auto simp: small_def the_request_def)
qed

definition sample_response :: ocsp_response where
  "sample_response = \<lparr>Status = Good, resp_SerialNumber = 7, ThisUpdate = 0, NextUpdate = unix_time 600,
     resp_Extensions = []\<rparr>"

definition sample_ocsp :: ocsp_platform where
  "sample_ocsp = platform.extend sample_platform
     (ocsp_platform.fields (\<lambda>b. b)
        (\<lambda>b issuer. if b = [200] then Inr sample_response else Inl (ErrorString ''ocsp: parse error''))
        (\<lambda>b cert issuer. if b = [200] then Inr sample_response else Inl (ErrorString ''ocsp: parse error'')))"

lemma sample_ocsp_fields [simp]:
  "tables sample_ocsp = sample_unicode" "hash_sum sample_ocsp h d = d"
  "rsa_VerifyPKCS1v15 sample_ocsp k h d sig =
     (if sig = rev d then None else Some (ErrorString ''rsa: verification error''))"
  "ParseCertificate sample_ocsp = sample_parse"
  "CheckSignatureFrom sample_ocsp c ca =
     (if Raw ca = [2] then None else Some (ErrorString ''x509: not the issuer''))"
  "chain_Verify sample_ocsp c cas t kus = (if list_ex (\<lambda>ca. Raw ca = [2]) cas then None
     else Some (ErrorString ''x509: certificate signed by unknown authority''))"
  "pem_Decode sample_ocsp = sample_pem"
  "url_Parse sample_ocsp = sample_url" "sha1_Sum sample_ocsp b = b"
  "xocsp_ParseResponse sample_ocsp b issuer =
     (if b = [200] then Inr sample_response else Inl (ErrorString ''ocsp: parse error''))"
  by (simp_all add: sample_ocsp_def sample_platform_def platform.defs ocsp_platform.defs)

text \<open>The subject public key info of the sample certificates.\<close>

lemma sample_spki: "RawSubjectPublicKeyInfo (sample_cert raw) = spki_der [1, 2, 3] None [5] @ []"
  "small (spki_der [1, 2, 3] None [5])" "oid_ok [1, 2, 3]"
  by (simp_all add: sample_cert_def spki_der_def oid_any_der_def tlv_def encode_length_def encode_oid_def
      encode_arc_def appendBase128Int_def SEQUENCE_def OBJECT_IDENTIFIER_def BIT_STRING_def small_def)

theorem buildRequest_names_certificate_witness:
  "\<exists>req. buildRequest sample_ocsp (sample_cert [1]) (sample_cert [2]) (Some [9]) = Inr req \<and> length req < 2 ^ 31 \<and>
     map_option (\<lambda>r. map (certID_SerialNumber \<circ> Cert) (RequestList (TBSRequest r))) (read_ocspRequest req) = Some [7]"
proof -
  obtain req where req: "buildRequest sample_ocsp (sample_cert [1]) (sample_cert [2]) (Some [9]) = Inr req"
    and m: "marshal_ocspRequest (the_request sample_ocsp (sample_cert [1]) [2] [5] (Some [9])) = Inr req"
    using buildRequest_spki [OF sample_spki(3,2,1)] by (metis sample_cert_def x509_cert.select_convs(2))
  have "length req < 2 ^ 31"
    using m by (auto simp: the_request_def marshal_ocspRequest_def encode_tbsRequest_def encode_request_def
      encode_certID_def encode_AlgorithmIdentifier_def encode_extension_def tlv_def encode_length_def encode_oid_def
      encode_arc_def appendBase128Int_def high_digits.simps oidSHA1_def oidOCSPNonce_def encode_int_def
      nat_bytes.simps sample_cert_def)
  with req show ?thesis
    using buildRequest_names_certificate [of "[1, 2, 3]" None "[5]" "sample_cert [2]" "[]" sample_ocsp "sample_cert [1]" "Some [9]"]
      sample_spki by (simp add: small_def) (simp add: sample_cert_def)
qed

end
