(* ===== verification/Ocsp.thy ===== *)
theory Ocsp
  imports Ocsp_Request
begin

text \<open>
  Package \<^verbatim>\<open>ocsp\<close>: the HTTP transport (\<^verbatim>\<open>src/ocsp/client.go\<close>), the responder URL of a
  certificate (\<^verbatim>\<open>aia.go\<close>), the designated responder (\<^verbatim>\<open>designated.go\<close>) and the revocation check
  (\<^verbatim>\<open>checker.go\<close>). The clock and the entropy a check reads are its arguments.
\<close>

section \<open>The HTTP transport\<close>

text \<open>A client is given the URL, the request, the timeout and the time of the exchange: the network may
  answer one request differently at different times.\<close>

type_synonym ocsp_client = "string \<Rightarrow> bytes \<Rightarrow> duration \<Rightarrow> time \<Rightarrow> bytes result"

record http_request =
  Method :: string
  req_URL :: string
  ContentType :: string
  Accept :: string
  req_Body :: bytes

text \<open>A response body: the bytes that can be read and the error that ends them, if any.\<close>

record http_response =
  http_StatusCode :: int
  body_data :: bytes
  body_err :: "goerror option"

text \<open>
  \<open>new_request\<close> is the error of \<^verbatim>\<open>http.NewRequestWithContext\<close>, \<open>transport\<close> performs the
  exchange within the timeout.
\<close>

definition max_body :: nat where "max_body = 2 ^ 20"

definition HTTPClient_Do ::
  "(string \<Rightarrow> goerror option) \<Rightarrow> (http_request \<Rightarrow> duration \<Rightarrow> time \<Rightarrow> http_response result) \<Rightarrow> ocsp_client" where
  "HTTPClient_Do new_request transport responderURL req timeout0 now =
     (let timeout = (if timeout0 \<le> 0 then 5 * second else timeout0) in
      checkE (new_request responderURL)
       (bindE (transport \<lparr>Method = ''POST'', req_URL = responderURL,
            ContentType = ''application/ocsp-request'', Accept = ''application/ocsp-response'',
            req_Body = req\<rparr> timeout now)
         (\<lambda>resp.
           if http_StatusCode resp \<noteq> 200
           then Inl (FmtError ''OCSP responder returned HTTP %d''
                  [decimal (nat (http_StatusCode resp))] None)
           else if length (body_data resp) < max_body \<and> body_err resp \<noteq> None
           then Inl (the (body_err resp))
           else Inr (take max_body (body_data resp)))))"

section \<open>Responder selection\<close>

definition errNoOCSPResponder :: goerror where
  "errNoOCSPResponder = ErrorString ''certificate has no OCSP responder URL''"

definition AIAOCSPURL :: "x509_cert \<Rightarrow> string result" where
  "AIAOCSPURL cert =
     (case OCSPServer cert of [] \<Rightarrow> Inl errNoOCSPResponder | u # _ \<Rightarrow> Inr u)"

record DesignatedServiceConfiguration =
  URL :: string
  ResponderCertificate :: "x509_cert option"
  SupportedIssuers :: "x509_cert list"
  NonceDisabled :: bool

definition Supports :: "DesignatedServiceConfiguration option \<Rightarrow> x509_cert \<Rightarrow> bool" where
  "Supports d issuer =
     (case d of
        None \<Rightarrow> False
      | Some cfg \<Rightarrow>
          if SupportedIssuers cfg = [] then True
          else list_ex (\<lambda>ca. Raw ca = Raw issuer) (SupportedIssuers cfg))"

record Options =
  Client :: "ocsp_client option"
  RequestTimeout :: duration
  Designated :: "DesignatedServiceConfiguration option"
  NonceDisabledURLs :: "string list"
  AllowedResponderURLs :: "string list"
  AllowedResponseTimeSkew :: duration
  MaxResponseThisUpdateAge :: duration

definition DefaultOptions :: "ocsp_client \<Rightarrow> Options" where
  "DefaultOptions http =
     \<lparr>Client = Some http, RequestTimeout = 5 * second, Designated = None,
      NonceDisabledURLs = [], AllowedResponderURLs = [],
      AllowedResponseTimeSkew = 15 * minute, MaxResponseThisUpdateAge = 2 * minute\<rparr>"

record Checker =
  opts :: Options

definition NewChecker :: "ocsp_client \<Rightarrow> Options \<Rightarrow> Checker" where
  "NewChecker http o1 =
     (let def1 = DefaultOptions http;
          o2 = (if Client o1 = None then o1\<lparr>Client := Client def1\<rparr> else o1);
          o3 = (if RequestTimeout o2 \<le> 0 then o2\<lparr>RequestTimeout := RequestTimeout def1\<rparr> else o2);
          o4 = (if AllowedResponseTimeSkew o3 \<le> 0
                then o3\<lparr>AllowedResponseTimeSkew := AllowedResponseTimeSkew def1\<rparr> else o3);
          o5 = (if MaxResponseThisUpdateAge o4 \<le> 0
                then o4\<lparr>MaxResponseThisUpdateAge := MaxResponseThisUpdateAge def1\<rparr> else o4)
      in \<lparr>opts = o5\<rparr>)"

definition hostOf :: "'a platform_scheme \<Rightarrow> string \<Rightarrow> string" where
  "hostOf P rawURL =
     (case url_Parse P (TrimSpace (tables P) rawURL) of
        Inl err \<Rightarrow> []
      | Inr u \<Rightarrow> if url_Host u = [] then [] else ToLower (tables P) (Hostname u))"

definition hasScheme :: "string \<Rightarrow> bool" where
  "hasScheme v \<longleftrightarrow> Contains v ''://''"

definition trim_norm :: "unicode \<Rightarrow> string \<Rightarrow> string" where
  "trim_norm U s = ToLower U (TrimSuffix (TrimSpace U s) ''/'')"

definition equalFoldTrim :: "unicode \<Rightarrow> string \<Rightarrow> string \<Rightarrow> bool" where
  "equalFoldTrim U a b \<longleftrightarrow> trim_norm U a = trim_norm U b"

definition isResponderAllowed :: "'a platform_scheme \<Rightarrow> Checker \<Rightarrow> string \<Rightarrow> bool" where
  "isResponderAllowed P c responderURL \<longleftrightarrow>
     AllowedResponderURLs (opts c) = [] \<or>
     (let host = hostOf P responderURL in
      list_ex (\<lambda>allowed.
          equalFoldTrim (tables P) allowed responderURL \<or>
          (hostOf P allowed \<noteq> [] \<and> hostOf P allowed = host) \<or>
          (\<not> hasScheme allowed \<and> equalFoldTrim (tables P) allowed host))
        (AllowedResponderURLs (opts c)))"

definition isNonceDisabled :: "Checker \<Rightarrow> string \<Rightarrow> bool" where
  "isNonceDisabled c u \<longleftrightarrow> list_ex (\<lambda>v. v = u) (NonceDisabledURLs (opts c))"

definition errOCSPResponderNotAllowed :: goerror where
  "errOCSPResponderNotAllowed = ResponderNotAllowed"

definition errResponderNotAllowed_Error :: string where
  "errResponderNotAllowed_Error = ''AIA OCSP responder URL is not on the configured allowlist''"

definition resolveResponder ::
  "'a platform_scheme \<Rightarrow> Checker \<Rightarrow> x509_cert \<Rightarrow> x509_cert \<Rightarrow>
   (string \<times> x509_cert option \<times> bool) result" where
  "resolveResponder P c cert issuer =
     (if Supports (Designated (opts c)) issuer
      then (let d = the (Designated (opts c)) in
            Inr (URL d, ResponderCertificate d, NonceDisabled d))
      else case AIAOCSPURL cert of
        Inl err \<Rightarrow> Inl (wrapOCSPError err)
      | Inr u \<Rightarrow> if \<not> isResponderAllowed P c u then Inl (wrapOCSPError errOCSPResponderNotAllowed)
                 else Inr (u, None, isNonceDisabled c u))"

section \<open>The check\<close>

definition errNonceMismatch :: goerror where
  "errNonceMismatch = ErrorString ''OCSP response nonce does not match request''"

definition errUnknownStatus :: goerror where
  "errUnknownStatus = ErrorString ''OCSP responder returned unknown certificate status''"

definition errThisUpdateInFuture :: goerror where
  "errThisUpdateInFuture = ErrorString ''OCSP response thisUpdate is in the future''"

definition errResponseExpired :: goerror where
  "errResponseExpired = ErrorString ''OCSP response nextUpdate has passed''"

definition errThisUpdateTooOld :: goerror where
  "errThisUpdateTooOld = ErrorString ''OCSP response thisUpdate is too old''"

definition errNilClient :: goerror where
  "errNilClient = ErrorString ''panic: nil pointer dereference''"

definition checkFreshness :: "Checker \<Rightarrow> ocsp_response \<Rightarrow> time \<Rightarrow> goerror option" where
  "checkFreshness c resp now =
     (let skew = AllowedResponseTimeSkew (opts c) in
      if now + skew < ThisUpdate resp then Some (wrapOCSPError errThisUpdateInFuture)
      else if NextUpdate resp \<noteq> zero_time \<and> NextUpdate resp < now + duration_neg skew
      then Some (wrapOCSPError errResponseExpired)
      else if time_sub now (ThisUpdate resp) >
                duration_add (MaxResponseThisUpdateAge (opts c)) skew
      then Some (wrapOCSPError errThisUpdateTooOld)
      else None)"

definition parseAndVerify ::
  "'a ocsp_platform_scheme \<Rightarrow> bytes \<Rightarrow> x509_cert \<Rightarrow> x509_cert option \<Rightarrow> ocsp_response result" where
  "parseAndVerify P respBytes issuer responderCert =
     (case responderCert of
        Some rc \<Rightarrow> xocsp_ParseResponseForCert P respBytes None rc
      | None \<Rightarrow> xocsp_ParseResponse P respBytes issuer)"

definition client_Do :: "Checker \<Rightarrow> ocsp_client" where
  "client_Do c = (case Client (opts c) of Some f \<Rightarrow> f | None \<Rightarrow> (\<lambda>_ _ _ _. Inl errNilClient))"

definition judge :: "Checker \<Rightarrow> bytes option \<Rightarrow> ocsp_response \<Rightarrow> time \<Rightarrow> goerror option" where
  "judge c nonce resp now =
     (if (case (nonce, responseNonce resp) of (Some n, Some got) \<Rightarrow> got \<noteq> n | _ \<Rightarrow> False)
      then Some (wrapOCSPError errNonceMismatch)
      else seqE (checkFreshness c resp now)
        (if Status resp = Good then None
         else if Status resp = Revoked then Some (Typed ErrCertificateRevoked)
         else Some (wrapOCSPError errUnknownStatus)))"

definition Check ::
  "'a ocsp_platform_scheme \<Rightarrow> Checker \<Rightarrow> entropy \<Rightarrow> time \<Rightarrow> x509_cert \<Rightarrow> x509_cert \<Rightarrow> goerror option"
  where
  "Check P c rand now cert issuer =
     (case resolveResponder P c cert issuer of
        Inl err \<Rightarrow> Some err
      | Inr (responderURL, responderCert, nonceDisabled) \<Rightarrow>
          (case (if nonceDisabled then Inr None
                 else bindE (generateNonce rand) (\<lambda>n. Inr (Some n))) of
             Inl err \<Rightarrow> Some (wrapOCSPError err)
           | Inr nonce \<Rightarrow>
               (case buildRequest P cert issuer nonce of
                  Inl err \<Rightarrow> Some (wrapOCSPError err)
                | Inr reqBytes \<Rightarrow>
                    (case client_Do c responderURL reqBytes (RequestTimeout (opts c)) now of
                       Inl err \<Rightarrow> Some (wrapOCSPError err)
                     | Inr respBytes \<Rightarrow>
                         (case parseAndVerify P respBytes issuer responderCert of
                            Inl err \<Rightarrow> Some (wrapOCSPError err)
                          | Inr resp \<Rightarrow> judge c nonce resp now)))))"

section \<open>What an accepting check has seen\<close>

lemma checkFreshness_None:
  "checkFreshness c resp now = None \<longleftrightarrow>
     ThisUpdate resp \<le> now + AllowedResponseTimeSkew (opts c) \<and>
     (NextUpdate resp = zero_time \<or> now + duration_neg (AllowedResponseTimeSkew (opts c)) \<le> NextUpdate resp) \<and>
     time_sub now (ThisUpdate resp)
       \<le> duration_add (MaxResponseThisUpdateAge (opts c)) (AllowedResponseTimeSkew (opts c))"
  by (auto simp: checkFreshness_def Let_def)

lemma checkFreshness_reports: "checkFreshness c resp now = Some e \<Longrightarrow> reports e ErrOCSPRequestFailed"
  by (auto simp: checkFreshness_def Let_def wrapOCSPError_def split: if_splits)

lemma judge_None:
  "judge c nonce resp now = None \<longleftrightarrow>
     Status resp = Good \<and> checkFreshness c resp now = None \<and>
     (\<forall>n got. nonce = Some n \<longrightarrow> responseNonce resp = Some got \<longrightarrow> got = n)"
  by (auto simp: judge_def result_simps split: option.split)

lemma judge_reports:
  "judge c nonce resp now = Some e \<Longrightarrow>
     reports e ErrOCSPRequestFailed \<or> e = Typed ErrCertificateRevoked"
  by (auto simp: judge_def result_simps wrapOCSPError_def dest: checkFreshness_reports split: if_splits)

lemma resolveResponder_Inr:
  "resolveResponder P c cert issuer = Inr (u, rc, nd) \<Longrightarrow>
     (\<exists>d. Designated (opts c) = Some d \<and> Supports (Some d) issuer \<and>
        u = URL d \<and> rc = ResponderCertificate d \<and> nd = NonceDisabled d) \<or>
     (\<not> Supports (Designated (opts c)) issuer \<and> (\<exists>us. OCSPServer cert = u # us) \<and>
        isResponderAllowed P c u \<and> rc = None \<and> nd = isNonceDisabled c u)"
  by (cases "Designated (opts c)")
    (auto simp: resolveResponder_def Supports_def AIAOCSPURL_def
      split: sum.splits if_splits list.splits)

lemma resolveResponder_reports:
  "resolveResponder P c cert issuer = Inl e \<Longrightarrow> reports e ErrOCSPRequestFailed"
  by (auto simp: resolveResponder_def wrapOCSPError_def Let_def split: sum.splits if_splits)

text \<open>The exchange an accepting check went through, step by step.\<close>

definition exchange ::
  "'a ocsp_platform_scheme \<Rightarrow> Checker \<Rightarrow> entropy \<Rightarrow> time \<Rightarrow> x509_cert \<Rightarrow> x509_cert \<Rightarrow>
   string \<Rightarrow> bytes option \<Rightarrow> ocsp_response \<Rightarrow> bool" where
  "exchange P c rand now cert issuer u nonce resp \<longleftrightarrow>
     (\<exists>rc nd req respBytes.
        resolveResponder P c cert issuer = Inr (u, rc, nd) \<and>
        (if nd then nonce = None else \<exists>n. generateNonce rand = Inr n \<and> nonce = Some n) \<and>
        buildRequest P cert issuer nonce = Inr req \<and>
        client_Do c u req (RequestTimeout (opts c)) now = Inr respBytes \<and>
        parseAndVerify P respBytes issuer rc = Inr resp)"

lemma Check_None:
  "Check P c rand now cert issuer = None \<longleftrightarrow>
     (\<exists>u nonce resp. exchange P c rand now cert issuer u nonce resp \<and> judge c nonce resp now = None)"
proof
  assume "Check P c rand now cert issuer = None"
  then show "\<exists>u nonce resp. exchange P c rand now cert issuer u nonce resp \<and> judge c nonce resp now = None"
    by (auto simp: Check_def exchange_def result_simps split: sum.splits if_splits) blast+
next
  assume "\<exists>u nonce resp. exchange P c rand now cert issuer u nonce resp \<and> judge c nonce resp now = None"
  then show "Check P c rand now cert issuer = None"
    by (auto simp: Check_def exchange_def split: if_splits)
qed

lemma Check_reports:
  "Check P c rand now cert issuer = Some e \<Longrightarrow>
     reports e ErrOCSPRequestFailed \<or> e = Typed ErrCertificateRevoked"
  by (auto simp: Check_def wrapOCSPError_def dest: judge_reports resolveResponder_reports
      split: sum.splits prod.splits)

lemma NewChecker_positive:
  "0 < AllowedResponseTimeSkew (opts (NewChecker http o1))"
  "0 < MaxResponseThisUpdateAge (opts (NewChecker http o1))"
  "0 < RequestTimeout (opts (NewChecker http o1))"
  "Client (opts (NewChecker http o1)) \<noteq> None"
  by (simp_all add: NewChecker_def DefaultOptions_def Let_def second_def minute_def)

lemma NewChecker_keeps:
  "AllowedResponderURLs (opts (NewChecker http o1)) = AllowedResponderURLs o1"
  "Designated (opts (NewChecker http o1)) = Designated o1"
  "NonceDisabledURLs (opts (NewChecker http o1)) = NonceDisabledURLs o1"
  by (simp_all add: NewChecker_def Let_def)

text \<open>A sum of two positive durations never reads larger than the true sum, even when it wraps.\<close>

lemma duration_add_le:
  assumes "0 \<le> a" and "a \<le> max_int64" and "0 \<le> b" and "b \<le> max_int64"
  shows "duration_add a b \<le> a + b"
proof (cases "a + b \<le> max_int64")
  case True
  then show ?thesis
    using assms by (simp add: duration_add_def wrap64_id in_int64_def min_int64_def)
next
  case False
  have "wrap64 (a + b) \<le> max_int64"
    using wrap64_range [of "a + b"] by (simp add: in_int64_def)
  then show ?thesis using False by (simp add: duration_add_def)
qed

lemma duration_neg_id: "0 \<le> d \<Longrightarrow> d \<le> max_int64 \<Longrightarrow> duration_neg d = - d"
  by (simp add: duration_neg_def wrap64_id in_int64_def min_int64_def max_int64_def)

section \<open>Freshness in true time\<close>

lemma freshness_bounds:
  assumes "0 < AllowedResponseTimeSkew (opts c)" and "AllowedResponseTimeSkew (opts c) \<le> max_int64"
    and "0 < MaxResponseThisUpdateAge (opts c)" and "MaxResponseThisUpdateAge (opts c) \<le> max_int64"
    and "AllowedResponseTimeSkew (opts c) + MaxResponseThisUpdateAge (opts c) \<noteq> max_int64"
    and "checkFreshness c resp now = None"
  shows "ThisUpdate resp \<le> now + AllowedResponseTimeSkew (opts c) \<and>
     now - ThisUpdate resp \<le> MaxResponseThisUpdateAge (opts c) + AllowedResponseTimeSkew (opts c) \<and>
     (NextUpdate resp = zero_time \<or> now - AllowedResponseTimeSkew (opts c) \<le> NextUpdate resp)"
proof -
  let ?skew = "AllowedResponseTimeSkew (opts c)" and ?age = "MaxResponseThisUpdateAge (opts c)"
  have f: "ThisUpdate resp \<le> now + ?skew"
    "NextUpdate resp = zero_time \<or> now + duration_neg ?skew \<le> NextUpdate resp"
    "time_sub now (ThisUpdate resp) \<le> duration_add ?age ?skew"
    using assms(6) by (auto simp: checkFreshness_None)
  have le: "duration_add ?age ?skew \<le> ?age + ?skew"
    using assms(1-4) by (intro duration_add_le) auto
  have range: "in_int64 (duration_add ?age ?skew)" by (simp add: duration_add_def wrap64_range)
  have "duration_add ?age ?skew \<noteq> max_int64"
  proof (cases "?age + ?skew \<le> max_int64")
    case True
    then show ?thesis
      using assms(1, 3, 5) by (simp add: duration_add_def wrap64_id in_int64_def min_int64_def)
  next
    case False
    then have "duration_add ?age ?skew = ?age + ?skew - 18446744073709551616"
      using assms(2, 4) by (simp add: duration_add_def wrap64_over max_int64_def)
    then show ?thesis using assms(2, 4) by (simp add: max_int64_def)
  qed
  then have "duration_add ?age ?skew < max_int64" "min_int64 \<le> duration_add ?age ?skew"
    using range by (auto simp: in_int64_def)
  then have "now - ThisUpdate resp \<le> duration_add ?age ?skew"
    using f(3) time_sub_gt_iff [of "duration_add ?age ?skew" now "ThisUpdate resp"] by linarith
  then show ?thesis
    using f(1, 2) le assms(1, 2) by (auto simp: duration_neg_id)
qed

lemma NewChecker_timeout:
  "0 < RequestTimeout o1 \<Longrightarrow> RequestTimeout (opts (NewChecker http o1)) = RequestTimeout o1"
  by (simp add: NewChecker_def DefaultOptions_def Let_def)

section \<open>Which hosts are contacted\<close>

lemma client_Do_update: "client_Do (c\<lparr>opts := (opts c)\<lparr>Client := Some f\<rparr>\<rparr>) = f"
  by (simp add: client_Do_def)

lemma resolve_client:
  "resolveResponder P (c\<lparr>opts := (opts c)\<lparr>Client := f\<rparr>\<rparr>) cert issuer = resolveResponder P c cert issuer"
  by (simp add: resolveResponder_def isResponderAllowed_def isNonceDisabled_def split: sum.split)

lemma judge_client: "judge (c\<lparr>opts := (opts c)\<lparr>Client := f\<rparr>\<rparr>) nonce resp now = judge c nonce resp now"
  by (simp add: judge_def checkFreshness_def Let_def)

section \<open>Properties\<close>

definition may_contact :: "'a platform_scheme \<Rightarrow> Checker \<Rightarrow> string \<Rightarrow> bool" where
  "may_contact P c u \<longleftrightarrow>
     (\<exists>d. Designated (opts c) = Some d \<and> u = URL d) \<or> isResponderAllowed P c u"


definition sample_client :: ocsp_client where
  "sample_client u req t now = (if u = ''http://ocsp.test'' then Inr [200] else Inl (ErrorString ''no route''))"

definition sample_rand :: entropy where
  "sample_rand n = Inr (replicate n 5)"

definition sample_checker :: Checker where
  "sample_checker = NewChecker sample_client
     \<lparr>Client = None, RequestTimeout = 0, Designated = None, NonceDisabledURLs = [],
      AllowedResponderURLs = [''http://ocsp.test''], AllowedResponseTimeSkew = 0,
      MaxResponseThisUpdateAge = 0\<rparr>"

lemma sample_checker_opts:
  "opts sample_checker =
     \<lparr>Client = Some sample_client, RequestTimeout = 5 * second, Designated = None,
      NonceDisabledURLs = [], AllowedResponderURLs = [''http://ocsp.test''],
      AllowedResponseTimeSkew = 15 * minute, MaxResponseThisUpdateAge = 2 * minute\<rparr>"
  by (simp add: sample_checker_def NewChecker_def DefaultOptions_def Let_def)

lemma sample_allowed: "isResponderAllowed P sample_checker ''http://ocsp.test''"
  by (simp add: isResponderAllowed_def sample_checker_opts equalFoldTrim_def Let_def)

lemma sample_check:
  "Check sample_ocsp sample_checker sample_rand (unix_time 60) (sample_cert [1]) (sample_cert [2]) = None"
proof -
  obtain req where "buildRequest sample_ocsp (sample_cert [1]) (sample_cert [2]) (Some (replicate 16 5)) = Inr req"
    by (rule buildRequest_spki [OF sample_spki(3,2,1)])
  moreover have "OCSPServer (sample_cert [1]) = [''http://ocsp.test'']" by (simp add: sample_cert_def)
  ultimately show ?thesis
    by (simp add: Check_def resolveResponder_def Supports_def AIAOCSPURL_def sample_allowed
        isNonceDisabled_def generateNonce_def sample_rand_def client_Do_def
        sample_client_def parseAndVerify_def judge_def responseNonce_def checkFreshness_def
        sample_checker_opts sample_response_def
        unix_time_small time_sub_def duration_add_def duration_neg_def wrap64_def max_int64_def
        min_int64_def second_def minute_def zero_time_def unix_time_def unixToInternal_def Good_def Let_def)
qed


text \<open>C13: A certificate passes the revocation check of a checker made by \<^verbatim>\<open>NewChecker\<close> only when some
  responder answered Good in the exchange of this very check, the answer repeats the request's nonce
  if it carries one, was produced no later than the allowed skew from now and no earlier than the
  maximum age plus the skew, and its next update, if any, is not past by more than the skew. The
  bounds hold in true time: no saturated or wrapped duration weakens them.\<close>

theorem OCSP_accept_sound:
  assumes "c = NewChecker http o1"
    and "AllowedResponseTimeSkew (opts c) \<le> max_int64" and "MaxResponseThisUpdateAge (opts c) \<le> max_int64"
    and "AllowedResponseTimeSkew (opts c) + MaxResponseThisUpdateAge (opts c) \<noteq> max_int64"
    and "Check P c rand now cert issuer = None"
  shows "\<exists>u nonce resp. exchange P c rand now cert issuer u nonce resp \<and> may_contact P c u \<and>
     Status resp = Good \<and>
     (nonce = None \<or> responseNonce resp = None \<or> responseNonce resp = nonce) \<and>
     ThisUpdate resp \<le> now + AllowedResponseTimeSkew (opts c) \<and>
     now - ThisUpdate resp \<le> MaxResponseThisUpdateAge (opts c) + AllowedResponseTimeSkew (opts c) \<and>
     (NextUpdate resp = zero_time \<or> now - AllowedResponseTimeSkew (opts c) \<le> NextUpdate resp)"
proof -
  obtain u nonce resp where ex: "exchange P c rand now cert issuer u nonce resp"
    and j: "judge c nonce resp now = None"
    using assms(5) by (auto simp: Check_None)
  have "may_contact P c u"
    using ex by (auto simp: exchange_def may_contact_def dest: resolveResponder_Inr)
  moreover have "Status resp = Good" using j by (simp add: judge_None)
  moreover have "nonce = None \<or> responseNonce resp = None \<or> responseNonce resp = nonce"
    using j by (cases nonce; cases "responseNonce resp") (simp_all add: judge_None)
  moreover have "checkFreshness c resp now = None" using j by (simp add: judge_None)
  ultimately show ?thesis
    using ex freshness_bounds [of c resp now] NewChecker_positive [of http o1] assms(1-4) by blast
qed

theorem OCSP_accept_sound_witness:
  "\<exists>u nonce resp. exchange sample_ocsp sample_checker sample_rand (unix_time 60) (sample_cert [1]) (sample_cert [2])
       u nonce resp \<and> Status resp = Good \<and>
     unix_time 60 - ThisUpdate resp \<le> 17 * minute"
  using OCSP_accept_sound [OF sample_checker_def, of sample_ocsp sample_rand "unix_time 60"
      "sample_cert [1]" "sample_cert [2]"] sample_check
  by (auto simp: sample_checker_opts max_int64_def minute_def second_def)


text \<open>The HTTP transport returns a body only for an answer with status 200 to a POST of the request
  within a positive timeout, and never more than the first mebibyte of it.\<close>

theorem HTTPClient_Do_bounded:
  "HTTPClient_Do new_request transport u req t now = Inr b \<longleftrightarrow>
     new_request u = None \<and>
     (\<exists>resp. transport \<lparr>Method = ''POST'', req_URL = u, ContentType = ''application/ocsp-request'',
          Accept = ''application/ocsp-response'', req_Body = req\<rparr> (if 0 < t then t else 5 * second) now = Inr resp \<and>
        http_StatusCode resp = 200 \<and> b = take (2 ^ 20) (body_data resp) \<and> length b \<le> 2 ^ 20 \<and>
        (body_err resp = None \<or> 2 ^ 20 \<le> length (body_data resp)))"
  by (auto simp: HTTPClient_Do_def result_simps Let_def max_body_def not_less split: if_splits)

end
