(* ===== verification/Validator.thy ===== *)
theory Validator
  imports Token Trust_Store Ocsp
begin

text \<open>
  \<^verbatim>\<open>src/validator.go\<close> and \<^verbatim>\<open>src/validator_options.go\<close>: the validation pipeline of an
  authentication token, the canonical form of a site origin, and the validator's builder. What one
  call of \<^verbatim>\<open>Validate\<close> reads from the outside is the record \<open>validate_run\<close>: the clock, the
  entropy of the OCSP nonce, and the two snapshots of the trust store that \<^verbatim>\<open>Verify\<close> and
  \<^verbatim>\<open>IssuerOf\<close> load, which differ when a reload falls between them.
\<close>

section \<open>The pipeline\<close>

definition errOriginRequired :: goerror where
  "errOriginRequired = ErrorString ''site origin is required''"

record authTokenValidator =
  origins :: "string list"
  ocspEnabled :: bool
  ocspChecker :: "Checker option"
  disallowedPolicies :: "oid list"

record validate_run =
  run_now :: time
  verify_snap :: trustSnapshot
  issuer_snap :: trustSnapshot
  run_ocsp_now :: time
  run_rand :: entropy

definition verifySignature ::
  "'a platform_scheme \<Rightarrow> authTokenValidator \<Rightarrow> AuthToken \<Rightarrow> x509_cert \<Rightarrow> string \<Rightarrow> goerror option" where
  "verifySignature P v token cert challengeNonce =
     (case HashFor (Algorithm token) of
        None \<Rightarrow> Some (Typed ErrTokenUnsupportedFormat)
      | Some h \<Rightarrow>
          if \<not> Available h then Some (Typed ErrTokenSignatureInvalid)
          else case decodeSignature token of
            Inl err \<Rightarrow> Some err
          | Inr sig \<Rightarrow>
              let nonceHash = hash_sum P h (bytes_of challengeNonce) in
              if list_ex (\<lambda>origin.
                   Verify P cert (Algorithm token)
                     (hash_sum P h (bytes_of origin) @ nonceHash) sig = None) (origins v)
              then None else Some (Typed ErrTokenSignatureInvalid))"

definition checkRevocation ::
  "'a ocsp_platform_scheme \<Rightarrow> authTokenValidator \<Rightarrow> validate_run \<Rightarrow> x509_cert \<Rightarrow> goerror option" where
  "checkRevocation P v R cert =
     (if ocspEnabled v then
        (case IssuerOf P (issuer_snap R) cert of
           None \<Rightarrow> Some (Typed ErrCertificateNotTrusted)
         | Some issuer \<Rightarrow>
             (case ocspChecker v of
                None \<Rightarrow> Some errNilClient
              | Some c \<Rightarrow> Check P c (run_rand R) (run_ocsp_now R) cert issuer))
      else None)"

definition Validate ::
  "'a ocsp_platform_scheme \<Rightarrow> authTokenValidator \<Rightarrow> validate_run \<Rightarrow> AuthToken option \<Rightarrow> string \<Rightarrow>
   x509_cert result" where
  "Validate P v R token currentChallengeNonce =
     (case token of
        None \<Rightarrow> Inl (wrapped ErrTokenParse errEmptyToken)
      | Some t \<Rightarrow>
          if currentChallengeNonce = [] then Inl (Typed ErrChallengeNonceNotFound)
          else bindE (decodeCertificate t) (\<lambda>der.
            bindE (mapErr (wrapped ErrTokenParse) (ParseCertificate P der)) (\<lambda>cert.
            checkE (CheckValidity cert (run_now R))
            (checkE (CheckKeyUsageForAuthentication cert)
            (checkE (CheckDisallowedPolicies cert (disallowedPolicies v))
            (checkE (TrustStore_Verify P (verify_snap R) cert (run_now R) [ExtKeyUsageClientAuth])
            (checkE (checkRevocation P v R cert)
            (checkE (verifySignature P v t cert currentChallengeNonce)
            (bindE (mapErr (wrapped ErrTokenParse) (SubjectCN cert)) (\<lambda>_.
             Inr cert)))))))))) "

section \<open>Origins\<close>

definition isLoopbackHost :: "unicode \<Rightarrow> string \<Rightarrow> bool" where
  "isLoopbackHost U host \<longleftrightarrow> ToLower U host \<in> {''localhost'', ''127.0.0.1'', ''::1''}"

definition errOriginHTTPS :: goerror where
  "errOriginHTTPS = ErrorString ''site origin must use https''"

definition errOriginExtra :: goerror where
  "errOriginExtra = ErrorString ''site origin must not contain a path, query or fragment''"

definition normalizeOrigin :: "'a platform_scheme \<Rightarrow> string \<Rightarrow> bool \<Rightarrow> string result" where
  "normalizeOrigin P origin allowInsecureLocalhost =
     (case url_Parse P origin of
        Inl err \<Rightarrow> Inl (JoinError [errOriginRequired, err])
      | Inr u \<Rightarrow>
          if url_Scheme u \<noteq> ''https'' \<and>
             (\<not> allowInsecureLocalhost \<or> url_Scheme u \<noteq> ''http'' \<or>
              \<not> isLoopbackHost (tables P) (Hostname u))
          then Inl errOriginHTTPS
          else if url_Host u = [] then Inl errOriginRequired
          else if (url_Path u \<noteq> [] \<and> url_Path u \<noteq> ''/'') \<or> url_RawQuery u \<noteq> [] \<or> url_Fragment u \<noteq> []
          then Inl errOriginExtra
          else Inr (TrimSuffix (url_Scheme u @ ''://'' @ url_Host u) ''/''))"

section \<open>The builder\<close>

record AuthTokenValidatorBuilder =
  ab_origins :: "string list"
  ab_allowInsecureLocalhost :: bool
  ab_trustedCAs :: "x509_cert list"
  ab_trustStore :: "TrustStore option"
  ab_ocspEnabled :: bool
  ab_ocspClient :: "ocsp_client option"
  ab_ocspRequestTimeout :: duration
  ab_designatedOCSP :: "DesignatedServiceConfiguration option"
  ab_nonceDisabledOCSPURL :: "string list"
  ab_allowedOCSPURLs :: "string list"
  ab_ocspSkew :: duration
  ab_ocspMaxThisUpdateAge :: duration
  ab_disallowedPolicies :: "oid list"

definition NewAuthTokenValidatorBuilder :: AuthTokenValidatorBuilder where
  "NewAuthTokenValidatorBuilder =
     \<lparr>ab_origins = [], ab_allowInsecureLocalhost = False, ab_trustedCAs = [], ab_trustStore = None,
      ab_ocspEnabled = True, ab_ocspClient = None, ab_ocspRequestTimeout = 5 * second,
      ab_designatedOCSP = None, ab_nonceDisabledOCSPURL = [], ab_allowedOCSPURLs = [],
      ab_ocspSkew = 15 * minute, ab_ocspMaxThisUpdateAge = 2 * minute,
      ab_disallowedPolicies = DefaultDisallowedPolicies\<rparr>"

definition WithSiteOrigin :: "string \<Rightarrow> AuthTokenValidatorBuilder \<Rightarrow> AuthTokenValidatorBuilder" where
  "WithSiteOrigin origin b = b\<lparr>ab_origins := ab_origins b @ [origin]\<rparr>"

definition WithSiteOrigins :: "string list \<Rightarrow> AuthTokenValidatorBuilder \<Rightarrow> AuthTokenValidatorBuilder" where
  "WithSiteOrigins os b = b\<lparr>ab_origins := ab_origins b @ os\<rparr>"

definition WithAllowInsecureLocalhostOrigin ::
  "AuthTokenValidatorBuilder \<Rightarrow> AuthTokenValidatorBuilder" where
  "WithAllowInsecureLocalhostOrigin b = b\<lparr>ab_allowInsecureLocalhost := True\<rparr>"

definition WithTrustedCertificateAuthorities ::
  "x509_cert list \<Rightarrow> AuthTokenValidatorBuilder \<Rightarrow> AuthTokenValidatorBuilder" where
  "WithTrustedCertificateAuthorities cas b = b\<lparr>ab_trustedCAs := ab_trustedCAs b @ cas\<rparr>"

definition WithTrustStore ::
  "TrustStore option \<Rightarrow> AuthTokenValidatorBuilder \<Rightarrow> AuthTokenValidatorBuilder" where
  "WithTrustStore ts b = b\<lparr>ab_trustStore := ts\<rparr>"

definition WithoutUserCertificateRevocationCheckWithOcsp ::
  "AuthTokenValidatorBuilder \<Rightarrow> AuthTokenValidatorBuilder" where
  "WithoutUserCertificateRevocationCheckWithOcsp b = b\<lparr>ab_ocspEnabled := False\<rparr>"

definition WithDesignatedOcspServiceConfiguration ::
  "DesignatedServiceConfiguration option \<Rightarrow> AuthTokenValidatorBuilder \<Rightarrow> AuthTokenValidatorBuilder" where
  "WithDesignatedOcspServiceConfiguration cfg b = b\<lparr>ab_designatedOCSP := cfg\<rparr>"

definition WithOcspClient ::
  "ocsp_client option \<Rightarrow> AuthTokenValidatorBuilder \<Rightarrow> AuthTokenValidatorBuilder" where
  "WithOcspClient c b = b\<lparr>ab_ocspClient := c\<rparr>"

definition WithOcspRequestTimeout ::
  "duration \<Rightarrow> AuthTokenValidatorBuilder \<Rightarrow> AuthTokenValidatorBuilder" where
  "WithOcspRequestTimeout d b = (if d > 0 then b\<lparr>ab_ocspRequestTimeout := d\<rparr> else b)"

definition WithDisallowedCertificatePolicies ::
  "oid list \<Rightarrow> AuthTokenValidatorBuilder \<Rightarrow> AuthTokenValidatorBuilder" where
  "WithDisallowedCertificatePolicies oids b = b\<lparr>ab_disallowedPolicies := oids\<rparr>"

definition WithNonceDisabledOcspUrls ::
  "string list \<Rightarrow> AuthTokenValidatorBuilder \<Rightarrow> AuthTokenValidatorBuilder" where
  "WithNonceDisabledOcspUrls us b = b\<lparr>ab_nonceDisabledOCSPURL := ab_nonceDisabledOCSPURL b @ us\<rparr>"

definition WithAllowedOcspResponderURLs ::
  "string list \<Rightarrow> AuthTokenValidatorBuilder \<Rightarrow> AuthTokenValidatorBuilder" where
  "WithAllowedOcspResponderURLs us b = b\<lparr>ab_allowedOCSPURLs := ab_allowedOCSPURLs b @ us\<rparr>"

definition WithAllowedOcspResponseTimeSkew ::
  "duration \<Rightarrow> AuthTokenValidatorBuilder \<Rightarrow> AuthTokenValidatorBuilder" where
  "WithAllowedOcspResponseTimeSkew d b = (if d > 0 then b\<lparr>ab_ocspSkew := d\<rparr> else b)"

definition WithMaxOcspResponseThisUpdateAge ::
  "duration \<Rightarrow> AuthTokenValidatorBuilder \<Rightarrow> AuthTokenValidatorBuilder" where
  "WithMaxOcspResponseThisUpdateAge d b = (if d > 0 then b\<lparr>ab_ocspMaxThisUpdateAge := d\<rparr> else b)"

definition errBothTrustSources :: goerror where
  "errBothTrustSources = ErrorString
     ''webeid: use either WithTrustStore or WithTrustedCertificateAuthorities, not both''"

text \<open>
  \<^verbatim>\<open>Build\<close> returns the validator together with the trust store it reads; \<open>http\<close> is the default
  OCSP client.
\<close>

definition resolve_trust :: "AuthTokenValidatorBuilder \<Rightarrow> TrustStore result" where
  "resolve_trust b =
     (case ab_trustStore b of
        None \<Rightarrow> NewTrustStore (ab_trustedCAs b)
      | Some ts \<Rightarrow> if ab_trustedCAs b \<noteq> [] then Inl errBothTrustSources else Inr ts)"

definition Build ::
  "'a platform_scheme \<Rightarrow> ocsp_client \<Rightarrow> AuthTokenValidatorBuilder \<Rightarrow>
   (authTokenValidator \<times> TrustStore) result" where
  "Build P http b =
     (if ab_origins b = [] then Inl errOriginRequired
      else bindE (mapE (\<lambda>o1. normalizeOrigin P o1 (ab_allowInsecureLocalhost b)) (ab_origins b))
        (\<lambda>normalizedOrigins. bindE (resolve_trust b) (\<lambda>trust.
          Inr (\<lparr>origins = normalizedOrigins, ocspEnabled = ab_ocspEnabled b,
                ocspChecker = (if ab_ocspEnabled b
                  then Some (NewChecker http
                    \<lparr>Client = ab_ocspClient b, RequestTimeout = ab_ocspRequestTimeout b,
                     Designated = ab_designatedOCSP b,
                     NonceDisabledURLs = ab_nonceDisabledOCSPURL b,
                     AllowedResponderURLs = ab_allowedOCSPURLs b,
                     AllowedResponseTimeSkew = ab_ocspSkew b,
                     MaxResponseThisUpdateAge = ab_ocspMaxThisUpdateAge b\<rparr>)
                  else None),
                disallowedPolicies = ab_disallowedPolicies b\<rparr>, trust))))"

section \<open>What validation decides\<close>

text \<open>
  The specification of an acceptable token: the certificate it carries is current, made for
  authentication, free of disallowed policies, trusted and, when revocation checking is on, not
  revoked according to its issuer's responder; it names a subject; and the token's signature under
  that certificate covers this nonce and one of the site's origins.
\<close>

definition signed_for_site ::
  "'a platform_scheme \<Rightarrow> authTokenValidator \<Rightarrow> AuthToken \<Rightarrow> x509_cert \<Rightarrow> string \<Rightarrow> bool" where
  "signed_for_site P v t cert nonce \<longleftrightarrow>
     (\<exists>h sig origin. jwaToHash (Algorithm t) = Some h \<and>
        StdEncoding_DecodeString (tok_Signature t) = Some sig \<and> origin \<in> set (origins v) \<and>
        Verify P cert (Algorithm t)
          (hash_sum P h (bytes_of origin) @ hash_sum P h (bytes_of nonce)) sig = None)"

definition not_revoked ::
  "'a ocsp_platform_scheme \<Rightarrow> authTokenValidator \<Rightarrow> validate_run \<Rightarrow> x509_cert \<Rightarrow> bool" where
  "not_revoked P v R cert \<longleftrightarrow>
     (\<exists>issuer c. IssuerOf P (issuer_snap R) cert = Some issuer \<and> ocspChecker v = Some c \<and>
        Check P c (run_rand R) (run_ocsp_now R) cert issuer = None)"

lemma verifySignature_None: "verifySignature P v t cert nonce = None \<longleftrightarrow> signed_for_site P v t cert nonce"
  by (auto simp: verifySignature_def signed_for_site_def HashFor_def decodeSignature_def Let_def list_ex_iff
      split: option.splits sum.splits)

lemma checkRevocation_None:
  "checkRevocation P v R cert = None \<longleftrightarrow> \<not> ocspEnabled v \<or> not_revoked P v R cert"
  by (auto simp: checkRevocation_def not_revoked_def split: option.splits)

lemma SubjectCN_Inr: "SubjectCN cert = Inr cn \<longleftrightarrow> CommonName (Subject cert) \<noteq> [] \<and> cn = CommonName (Subject cert)"
  by (auto simp: SubjectCN_def)

lemma decodeCertificate_Inr:
  "decodeCertificate t = Inr der \<longleftrightarrow> StdEncoding_DecodeString (UnverifiedCertificate t) = Some der"
  by (auto simp: decodeCertificate_def split: option.splits)

lemma Validate_Inr:
  "Validate P v R (Some t) nonce = Inr cert \<longleftrightarrow>
     nonce \<noteq> [] \<and>
     (\<exists>der. StdEncoding_DecodeString (UnverifiedCertificate t) = Some der \<and> ParseCertificate P der = Inr cert) \<and>
     CheckValidity cert (run_now R) = None \<and> CheckKeyUsageForAuthentication cert = None \<and>
     CheckDisallowedPolicies cert (disallowedPolicies v) = None \<and>
     TrustStore_Verify P (verify_snap R) cert (run_now R) [ExtKeyUsageClientAuth] = None \<and>
     (\<not> ocspEnabled v \<or> not_revoked P v R cert) \<and>
     signed_for_site P v t cert nonce \<and> CommonName (Subject cert) \<noteq> []"
  by (auto simp: Validate_def result_simps verifySignature_None checkRevocation_None SubjectCN_Inr
      decodeCertificate_Inr)

text \<open>The sentinels validation reports.\<close>

definition validation_errors :: "web_error list" where
  "validation_errors =
     [ErrTokenParse, ErrTokenUnsupportedFormat, ErrTokenSignatureInvalid, ErrChallengeNonceNotFound,
      ErrCertificateExpired, ErrCertificateNotYetValid, ErrCertificateNotTrusted, ErrCertificateRevoked,
      ErrCertificateDisallowedPolicy, ErrUserCertificateWrongPurpose, ErrOCSPRequestFailed]"

definition is_validation_error :: "goerror \<Rightarrow> bool" where
  "is_validation_error e \<longleftrightarrow> (\<exists>b \<in> set validation_errors. reports e b)"

lemma reports_validation:
  "reports e ErrTokenParse \<Longrightarrow> is_validation_error e"
  "reports e ErrTokenUnsupportedFormat \<Longrightarrow> is_validation_error e"
  "reports e ErrTokenSignatureInvalid \<Longrightarrow> is_validation_error e"
  "reports e ErrChallengeNonceNotFound \<Longrightarrow> is_validation_error e"
  "reports e ErrCertificateExpired \<Longrightarrow> is_validation_error e"
  "reports e ErrCertificateNotYetValid \<Longrightarrow> is_validation_error e"
  "reports e ErrCertificateNotTrusted \<Longrightarrow> is_validation_error e"
  "reports e ErrCertificateRevoked \<Longrightarrow> is_validation_error e"
  "reports e ErrCertificateDisallowedPolicy \<Longrightarrow> is_validation_error e"
  "reports e ErrUserCertificateWrongPurpose \<Longrightarrow> is_validation_error e"
  "reports e ErrOCSPRequestFailed \<Longrightarrow> is_validation_error e"
  by (auto simp: is_validation_error_def validation_errors_def)

lemma verifySignature_error: "verifySignature P v t cert nonce = Some e \<Longrightarrow> is_validation_error e"
  by (auto simp: verifySignature_def decodeSignature_def Let_def intro: reports_validation
      split: option.splits sum.splits if_splits)

lemma checkRevocation_error:
  "(ocspEnabled v \<Longrightarrow> ocspChecker v \<noteq> None) \<Longrightarrow> checkRevocation P v R cert = Some e \<Longrightarrow> is_validation_error e"
  by (auto simp: checkRevocation_def dest!: Check_reports intro: reports_validation
      split: option.splits if_splits)

lemma check_validation:
  "CheckValidity cert now = Some e \<Longrightarrow> is_validation_error e"
  "CheckKeyUsageForAuthentication cert = Some e \<Longrightarrow> is_validation_error e"
  "CheckDisallowedPolicies cert bad = Some e \<Longrightarrow> is_validation_error e"
  "TrustStore_Verify P s cert now kus = Some e \<Longrightarrow> is_validation_error e"
  by (auto dest!: check_reports TrustStore_Verify_reports intro: reports_validation)

lemma Validate_error:
  assumes "ocspEnabled v \<Longrightarrow> ocspChecker v \<noteq> None" and "Validate P v R token nonce = Inl e"
  shows "is_validation_error e"
  using assms(2)
  by (auto simp: Validate_def result_simps decodeCertificate_def SubjectCN_def
      intro: reports_validation check_validation verifySignature_error
        checkRevocation_error [OF assms(1)]
      split: option.splits if_splits)

section \<open>What the builder produces\<close>

text \<open>A canonical site origin: https, or http to a loopback host where that was allowed.\<close>

definition canonical_origin :: "'a platform_scheme \<Rightarrow> bool \<Rightarrow> string \<Rightarrow> bool" where
  "canonical_origin P insecure s \<longleftrightarrow>
     (\<exists>u. url_Host u \<noteq> [] \<and> s = TrimSuffix (url_Scheme u @ ''://'' @ url_Host u) ''/'' \<and>
        (url_Scheme u = ''https'' \<or>
         insecure \<and> url_Scheme u = ''http'' \<and> isLoopbackHost (tables P) (Hostname u)))"

lemma normalizeOrigin_Inr:
  "normalizeOrigin P origin insecure = Inr s \<longleftrightarrow>
     (\<exists>u. url_Parse P origin = Inr u \<and> url_Host u \<noteq> [] \<and>
        (url_Path u = [] \<or> url_Path u = ''/'') \<and> url_RawQuery u = [] \<and> url_Fragment u = [] \<and>
        (url_Scheme u = ''https'' \<or>
         insecure \<and> url_Scheme u = ''http'' \<and> isLoopbackHost (tables P) (Hostname u)) \<and>
        s = TrimSuffix (url_Scheme u @ ''://'' @ url_Host u) ''/'')"
  by (cases "url_Parse P origin") (simp_all add: normalizeOrigin_def, blast?)

lemma normalizeOrigin_canonical: "normalizeOrigin P origin insecure = Inr s \<Longrightarrow> canonical_origin P insecure s"
  by (auto simp: normalizeOrigin_Inr canonical_origin_def)

lemma resolve_trust_Inr:
  "resolve_trust b = Inr ts \<longleftrightarrow>
     (ab_trustStore b = Some ts \<and> ab_trustedCAs b = []) \<or>
     (ab_trustStore b = None \<and> ab_trustedCAs b \<noteq> [] \<and> ts = \<lparr>snap = newTrustSnapshot (ab_trustedCAs b)\<rparr>)"
  by (auto simp: resolve_trust_def NewTrustStore_def split: option.splits)

section \<open>A sample validator\<close>

definition sample_validator :: authTokenValidator where
  "sample_validator = \<lparr>origins = [''https://app.test''], ocspEnabled = True,
     ocspChecker = Some sample_checker, disallowedPolicies = DefaultDisallowedPolicies\<rparr>"

definition sample_run :: validate_run where
  "sample_run = \<lparr>run_now = unix_time 60, verify_snap = newTrustSnapshot [sample_cert [2]],
     issuer_snap = newTrustSnapshot [sample_cert [2]], run_ocsp_now = unix_time 60, run_rand = sample_rand\<rparr>"

definition sample_token :: "string \<Rightarrow> AuthToken" where
  "sample_token nonce = \<lparr>UnverifiedCertificate = StdEncoding_EncodeToString [1], Algorithm = ''RS256'',
     tok_Signature = StdEncoding_EncodeToString (rev (bytes_of ''https://app.test'' @ bytes_of nonce)),
     Format = ''web-eid:1.0'', AppVersion = []\<rparr>"

lemma sample_checks:
  "CheckValidity (sample_cert [1]) (run_now sample_run) = None"
  "CheckKeyUsageForAuthentication (sample_cert [1]) = None"
  "CheckDisallowedPolicies (sample_cert [1]) ps = None"
  "TrustStore_Verify sample_ocsp (verify_snap sample_run) (sample_cert [1]) (run_now sample_run) kus = None"
  by (simp_all add: check_None sample_cert_def sample_run_def unix_time_small second_def
      KeyUsageDigitalSignature_def ExtKeyUsageClientAuth_def extractPolicies_def TrustStore_Verify_None
      newTrustSnapshot_def AddCert_def)

lemma sample_not_revoked: "not_revoked sample_ocsp sample_validator sample_run (sample_cert [1])"
  using sample_check
  by (simp add: not_revoked_def sample_validator_def sample_run_def IssuerOf_def newTrustSnapshot_def)
    (simp add: sample_cert_def)

lemma sample_signed: "signed_for_site sample_ocsp sample_validator (sample_token nonce) (sample_cert [1]) nonce"
  by (simp add: signed_for_site_def sample_validator_def sample_token_def jwaToHash_def std64.dec_enc
      Verify_def sample_cert_def HasPrefix_def)

lemma sample_token_cert: "StdEncoding_DecodeString (UnverifiedCertificate (sample_token n)) = Some [1]"
  by (simp add: sample_token_def std64.dec_enc)

lemma sample_Validate:
  "nonce \<noteq> [] \<Longrightarrow>
     Validate sample_ocsp sample_validator sample_run (Some (sample_token nonce)) nonce = Inr (sample_cert [1])"
  by (simp add: Validate_Inr sample_checks sample_not_revoked sample_signed sample_token_cert
      sample_parse_def) (simp add: sample_cert_def)

definition sample_builder_config :: AuthTokenValidatorBuilder where
  "sample_builder_config = WithSiteOrigin ''https://app.test''
     (WithTrustedCertificateAuthorities [sample_cert [2]] NewAuthTokenValidatorBuilder)"

lemma sample_Build: "\<exists>v ts. Build sample_platform sample_client sample_builder_config = Inr (v, ts)"
  by (simp add: sample_builder_config_def Build_def WithSiteOrigin_def WithTrustedCertificateAuthorities_def
      NewAuthTokenValidatorBuilder_def normalizeOrigin_def sample_platform_def sample_url_def
      TrimPrefix_def HasPrefix_def resolve_trust_def NewTrustStore_def)

section \<open>Properties\<close>

text \<open>C2: A token is accepted, and the result is a given certificate, exactly when the challenge nonce is
  not empty, the token carries that certificate in base64 DER, the certificate is within its validity
  period, has the digital-signature key usage and the client-authentication (or any) extended usage,
  asserts no disallowed policy, chains to the trusted set for client authentication, is not revoked
  when revocation checking is on, has a common name, and verifies the token's signature over the hash
  of one of the configured origins followed by the hash of the nonce.\<close>

theorem Validate_iff:
  "Validate P v R (Some t) nonce = Inr cert \<longleftrightarrow>
     nonce \<noteq> [] \<and>
     (\<exists>der. StdEncoding_DecodeString (UnverifiedCertificate t) = Some der \<and> ParseCertificate P der = Inr cert) \<and>
     NotBefore cert \<le> run_now R \<and> run_now R \<le> NotAfter cert \<and>
     and (KeyUsage cert) KeyUsageDigitalSignature \<noteq> 0 \<and>
     (ExtKeyUsageClientAuth \<in> set (ExtKeyUsage cert) \<or> ExtKeyUsageAny \<in> set (ExtKeyUsage cert)) \<and>
     (disallowedPolicies v = [] \<or>
      (\<exists>ps. extractPolicies cert = Inr ps \<and> set ps \<inter> set (disallowedPolicies v) = {})) \<and>
     chain_Verify P cert (pool (verify_snap R)) (run_now R) [ExtKeyUsageClientAuth] = None \<and>
     (\<not> ocspEnabled v \<or>
      (\<exists>issuer c. IssuerOf P (issuer_snap R) cert = Some issuer \<and> ocspChecker v = Some c \<and>
         Check P c (run_rand R) (run_ocsp_now R) cert issuer = None)) \<and>
     CommonName (Subject cert) \<noteq> [] \<and>
     (\<exists>h sig. jwaToHash (Algorithm t) = Some h \<and> StdEncoding_DecodeString (tok_Signature t) = Some sig \<and>
        (\<exists>origin \<in> set (origins v). Verify P cert (Algorithm t)
           (hash_sum P h (bytes_of origin) @ hash_sum P h (bytes_of nonce)) sig = None))"
  by (simp add: Validate_Inr check_None TrustStore_Verify_None signed_for_site_def not_revoked_def) blast

theorem Validate_iff_witness:
  "\<exists>v t cert issuer c. Validate sample_ocsp v sample_run (Some t) ''AAAA'' = Inr cert \<and>
     ocspEnabled v \<and> IssuerOf sample_ocsp (issuer_snap sample_run) cert = Some issuer \<and>
     Check sample_ocsp c (run_rand sample_run) (run_ocsp_now sample_run) cert issuer = None \<and>
     CommonName (Subject cert) \<noteq> []"
proof -
  have ok: "Validate sample_ocsp sample_validator sample_run (Some (sample_token ''AAAA'')) ''AAAA'' =
      Inr (sample_cert [1])"
    by (simp add: sample_Validate)
  have on: "ocspEnabled sample_validator" by (simp add: sample_validator_def)
  from ok [unfolded Validate_iff] on ok show ?thesis by blast
qed

text \<open>C28: Every failure of a validator that was built by the builder is one of eleven typed errors, with
  that error's code, client message and status; the status is 400, 401 or 502. No library error
  reaches the client.\<close>

theorem Validate_errors_typed:
  assumes "Build Q http b = Inr (v, ts)" and "Validate P v R token nonce = Inl e"
  shows "\<exists>w base. e = Typed w \<and> base \<in> set validation_errors \<and> Code w = Code base \<and>
     SafeError w = Message base \<and> StatusCode w = HTTPStatus base \<and> StatusCode w \<in> {400, 401, 502}"
proof -
  have "ocspEnabled v \<Longrightarrow> ocspChecker v \<noteq> None"
    using assms(1) by (auto simp: Build_def bindE_Inr split: if_splits)
  from Validate_error [OF this assms(2)]
  obtain base cause where base: "base \<in> set validation_errors" "e = Typed (withCause base cause)"
    by (auto simp: is_validation_error_def reports_def)
  from base(1) have "HTTPStatus base \<in> {400, 401, 502}"
    by (auto simp: validation_errors_def sentinel_defs newError_def)
  then show ?thesis using base by (auto simp: SafeError_def StatusCode_def)
qed

theorem Validate_errors_typed_witness:
  "\<exists>v ts w base. Build sample_platform sample_client sample_builder_config = Inr (v, ts) \<and>
     Validate sample_ocsp v sample_run None ''n'' = Inl (Typed w) \<and> base \<in> set validation_errors \<and>
     SafeError w = Message base"
proof -
  obtain v ts where b: "Build sample_platform sample_client sample_builder_config = Inr (v, ts)"
    using sample_Build by blast
  have e: "Validate sample_ocsp v sample_run None ''n'' = Inl (wrapped ErrTokenParse errEmptyToken)"
    by (simp add: Validate_def)
  from Validate_errors_typed [OF b e] b e show ?thesis by fastforce
qed



text \<open>Validation does not look at the token's format or application version: a token of an unsupported
  major version is accepted whenever the same token of version 1 is. Only \<^verbatim>\<open>Parse\<close> checks the format.\<close>

theorem Validate_ignores_format:
  "Validate P v R (Some (t\<lparr>Format := f, AppVersion := a\<rparr>)) nonce = Validate P v R (Some t) nonce"
proof -
  have "decodeCertificate (t\<lparr>Format := f, AppVersion := a\<rparr>) = decodeCertificate t"
    "verifySignature P v (t\<lparr>Format := f, AppVersion := a\<rparr>) c nonce = verifySignature P v t c nonce" for c
    by (simp_all add: decodeCertificate_def verifySignature_def decodeSignature_def split: option.split)
  then show ?thesis by (simp add: Validate_def)
qed

end
