(* ===== verification/Signing.thy ===== *)
theory Signing
  imports Trust_Store Ocsp Signature
begin

text \<open>
  Package \<^verbatim>\<open>signing\<close> (\<^verbatim>\<open>src/signing/\<close>): validation of the signing certificate, negotiation of
  hash function and algorithm with the card (\<^verbatim>\<open>hash.go\<close>, \<^verbatim>\<open>certificate.go\<close>,
  \<^verbatim>\<open>signer.go\<close>), and verification of a card signature value (\<^verbatim>\<open>verify.go\<close>).
\<close>

section \<open>Hash functions\<close>

record SignatureAlgorithm =
  CryptoAlgorithm :: string
  HashFunction :: string
  PaddingScheme :: string

definition errNoPreference :: goerror where
  "errNoPreference = ErrorString ''hash preference list is empty''"

definition errEmptySignature :: goerror where
  "errEmptySignature = ErrorString ''signature value is empty''"

definition errUnknownHash :: "string \<Rightarrow> goerror" where
  "errUnknownHash name = FmtError ''unknown hash function %q'' [name] None"

definition equalFoldHash :: "unicode \<Rightarrow> string \<Rightarrow> string \<Rightarrow> bool" where
  "equalFoldHash U a b \<longleftrightarrow> EqualFold U a b"

definition SupportedHashFunctions :: "string list" where
  "SupportedHashFunctions =
     [''SHA-224'', ''SHA-256'', ''SHA-384'', ''SHA-512'',
      ''SHA3-224'', ''SHA3-256'', ''SHA3-384'', ''SHA3-512'']"

definition IsSupportedHashFunction :: "string \<Rightarrow> bool" where
  "IsSupportedHashFunction name \<longleftrightarrow> list_ex (\<lambda>h. h = name) SupportedHashFunctions"

definition SelectHashFunction ::
  "unicode \<Rightarrow> string list \<Rightarrow> SignatureAlgorithm list \<Rightarrow> string result" where
  "SelectHashFunction U preference supported =
     (let offered = set (map (\<lambda>s. ToUpper U (HashFunction s)) supported) in
      case find (\<lambda>want. ToUpper U want \<in> offered) preference of
        Some want \<Rightarrow> Inr want
      | None \<Rightarrow> Inl (Typed ErrNoSupportedHashFunction))"

definition pickAlgorithmForHash ::
  "unicode \<Rightarrow> string \<Rightarrow> SignatureAlgorithm list \<Rightarrow> SignatureAlgorithm" where
  "pickAlgorithmForHash U hashFn supported =
     (case find (\<lambda>s. equalFoldHash U (HashFunction s) hashFn) supported of
        Some s \<Rightarrow> s
      | None \<Rightarrow> \<lparr>CryptoAlgorithm = [], HashFunction = hashFn, PaddingScheme = []\<rparr>)"

section \<open>The signing certificate\<close>

definition ParseSigningCertificate :: "'a platform_scheme \<Rightarrow> bytes \<Rightarrow> x509_cert result" where
  "ParseSigningCertificate P der =
     mapErr (wrapped ErrSigningCertificateInvalid) (ParseCertificate P der)"

definition validateSigningCertificate :: "x509_cert \<Rightarrow> time \<Rightarrow> goerror option" where
  "validateSigningCertificate cert now =
     (if CheckValidity cert now \<noteq> None then Some (Typed ErrSigningCertificateInvalid)
      else CheckKeyUsageForSigning cert)"

section \<open>The signer\<close>

text \<open>
  A signer with a trust store has \<open>hasTrust\<close>; as in the validator, the two snapshots a call
  loads are part of \<open>signing_run\<close>.
\<close>

record Signer =
  hashPreference :: "string list"
  hasTrust :: bool
  sg_ocspChecker :: "Checker option"
  acceptedPolicies :: "oid list"

record signing_run =
  sg_now :: time
  sg_verify_snap :: trustSnapshot
  sg_issuer_snap :: trustSnapshot
  sg_ocsp_now :: time
  sg_rand :: entropy

record signing_Options =
  HashPreference :: "string list"
  Trust :: bool
  OCSPChecker :: "Checker option"
  AcceptedPolicies :: "oid list"

definition NewSigner :: "signing_Options \<Rightarrow> Signer result" where
  "NewSigner o1 =
     (if HashPreference o1 = [] then Inl (wrapped ErrNoSupportedHashFunction errNoPreference)
      else case find (\<lambda>h. \<not> IsSupportedHashFunction h) (HashPreference o1) of
        Some h \<Rightarrow> Inl (wrapped ErrNoSupportedHashFunction (errUnknownHash h))
      | None \<Rightarrow> Inr \<lparr>hashPreference = HashPreference o1, hasTrust = Trust o1,
                      sg_ocspChecker = OCSPChecker o1, acceptedPolicies = AcceptedPolicies o1\<rparr>)"

definition checkSigningTrust ::
  "'a ocsp_platform_scheme \<Rightarrow> Signer \<Rightarrow> signing_run \<Rightarrow> x509_cert \<Rightarrow> goerror option" where
  "checkSigningTrust P s R cert =
     (if hasTrust s then
        (if TrustStore_Verify P (sg_verify_snap R) cert (sg_now R) [] \<noteq> None
         then Some (Typed ErrSigningCertificateInvalid)
         else case sg_ocspChecker s of
           None \<Rightarrow> None
         | Some c \<Rightarrow>
             (case IssuerOf P (sg_issuer_snap R) cert of
                None \<Rightarrow> Some (Typed ErrSigningCertificateInvalid)
              | Some issuer \<Rightarrow> Check P c (sg_rand R) (sg_ocsp_now R) cert issuer))
      else None)"

definition PrepareSigning ::
  "'a ocsp_platform_scheme \<Rightarrow> Signer \<Rightarrow> signing_run \<Rightarrow> bytes \<Rightarrow> SignatureAlgorithm list \<Rightarrow>
   (x509_cert \<times> SignatureAlgorithm \<times> string) result" where
  "PrepareSigning P s R signingCertDER supported =
     bindE (ParseSigningCertificate P signingCertDER) (\<lambda>cert.
     checkE (validateSigningCertificate cert (sg_now R))
     (checkE (CheckAcceptedPolicies cert (acceptedPolicies s))
     (checkE (checkSigningTrust P s R cert)
     (bindE (SelectHashFunction (tables P) (hashPreference s) supported) (\<lambda>hashFn.
      Inr (cert, pickAlgorithmForHash (tables P) hashFn supported, hashFn))))))"

definition Finalize :: "'a platform_scheme \<Rightarrow> bytes \<Rightarrow> bytes \<Rightarrow> (x509_cert \<times> bytes) result" where
  "Finalize P signatureValue authCertDER =
     (if signatureValue = [] then Inl (wrapped ErrSigningCertificateInvalid errEmptySignature)
      else bindE (mapErr (wrapped ErrSigningCertificateInvalid) (ParseCertificate P authCertDER))
        (\<lambda>authCert. Inr (authCert, signatureValue)))"

section \<open>Verified finalize\<close>

definition hashNameToCryptoHash :: "string \<rightharpoonup> crypto_hash" where
  "hashNameToCryptoHash = map_of
     [(''SHA-224'', SHA224), (''SHA-256'', SHA256), (''SHA-384'', SHA384), (''SHA-512'', SHA512)]"

definition errUnsupportedRSAHash :: goerror where
  "errUnsupportedRSAHash =
     ErrorString ''hash function is not supported for RSA signature verification''"

definition errDigestLength :: goerror where
  "errDigestLength = ErrorString ''digest length does not match the hash function''"

definition errUnsupportedPubKey :: goerror where
  "errUnsupportedPubKey = ErrorString ''unsupported public key type in signing certificate''"

definition errValueLength :: goerror where
  "errValueLength =
     ErrorString ''ECDSA signature value is not raw P1363 r||s of the expected length''"

definition VerifySignatureValue ::
  "'a platform_scheme \<Rightarrow> x509_cert option \<Rightarrow> SignatureAlgorithm \<Rightarrow> bytes \<Rightarrow> bytes \<Rightarrow> goerror option" where
  "VerifySignatureValue P cert algo digest signatureValue =
     (case cert of
        None \<Rightarrow> Some (wrapped ErrSignatureValueInvalid errEmptySignature)
      | Some c \<Rightarrow>
          if digest = [] \<or> signatureValue = []
          then Some (wrapped ErrSignatureValueInvalid errEmptySignature)
          else case PublicKey c of
            ECDSAPublicKey pub \<Rightarrow>
              let byteLen = coord_len (Curve pub) in
              if length signatureValue \<noteq> 2 * byteLen
              then Some (wrapped ErrSignatureValueInvalid errValueLength)
              else if \<not> ecdsa_Verify P pub digest (SetBytes (take byteLen signatureValue))
                          (SetBytes (drop byteLen signatureValue))
              then Some (Typed ErrSignatureValueInvalid) else None
          | RSAPublicKey pub \<Rightarrow>
              (case hashNameToCryptoHash (ToUpper (tables P) (HashFunction algo)) of
                 None \<Rightarrow> Some (wrapped ErrSignatureValueInvalid errUnsupportedRSAHash)
               | Some h \<Rightarrow>
                   if hash_Size h \<noteq> length digest
                   then Some (wrapped ErrSignatureValueInvalid errDigestLength)
                   else if EqualFold (tables P) (PaddingScheme algo) ''PSS''
                   then map_option (wrapped ErrSignatureValueInvalid)
                          (rsa_VerifyPSS P pub h digest signatureValue)
                   else map_option (wrapped ErrSignatureValueInvalid)
                          (rsa_VerifyPKCS1v15 P pub h digest signatureValue))
          | OtherPublicKey \<Rightarrow> Some (wrapped ErrSignatureValueInvalid errUnsupportedPubKey))"

section \<open>Lemmas\<close>

lemma validateSigningCertificate_None:
  "validateSigningCertificate cert now = None \<longleftrightarrow>
     CheckValidity cert now = None \<and> CheckKeyUsageForSigning cert = None"
  by (simp add: validateSigningCertificate_def)

lemma checkSigningTrust_None:
  "checkSigningTrust P s R cert = None \<longleftrightarrow>
     (hasTrust s \<longrightarrow> TrustStore_Verify P (sg_verify_snap R) cert (sg_now R) [] = None \<and>
       (\<forall>c. sg_ocspChecker s = Some c \<longrightarrow>
         (\<exists>issuer. IssuerOf P (sg_issuer_snap R) cert = Some issuer \<and>
            Check P c (sg_rand R) (sg_ocsp_now R) cert issuer = None)))"
  by (auto simp: checkSigningTrust_def split: option.splits)

lemma PrepareSigning_Inr:
  "PrepareSigning P s R der supported = Inr (cert, algo, hashFn) \<longleftrightarrow>
     ParseCertificate P der = Inr cert \<and> validateSigningCertificate cert (sg_now R) = None \<and>
     CheckAcceptedPolicies cert (acceptedPolicies s) = None \<and> checkSigningTrust P s R cert = None \<and>
     SelectHashFunction (tables P) (hashPreference s) supported = Inr hashFn \<and>
     algo = pickAlgorithmForHash (tables P) hashFn supported"
  by (auto simp: PrepareSigning_def ParseSigningCertificate_def result_simps)

definition offers :: "unicode \<Rightarrow> SignatureAlgorithm list \<Rightarrow> string \<Rightarrow> bool" where
  "offers U supported h \<longleftrightarrow> (\<exists>a \<in> set supported. ToUpper U (HashFunction a) = ToUpper U h)"

lemma SelectHashFunction_offers:
  "SelectHashFunction U pref supported =
     (case find (offers U supported) pref of Some h \<Rightarrow> Inr h | None \<Rightarrow> Inl (Typed ErrNoSupportedHashFunction))"
proof -
  have "(\<lambda>want. ToUpper U want \<in> set (map (\<lambda>s. ToUpper U (HashFunction s)) supported)) = offers U supported"
    by (force simp: offers_def)
  then show ?thesis by (simp only: SelectHashFunction_def Let_def)
qed

lemma SelectHashFunction_Inr:
  "SelectHashFunction U pref supported = Inr h \<longleftrightarrow>
     (\<exists>i < length pref. offers U supported h \<and> h = pref ! i \<and> (\<forall>j < i. \<not> offers U supported (pref ! j)))"
proof -
  have "SelectHashFunction U pref supported = Inr h \<longleftrightarrow> find (offers U supported) pref = Some h"
    by (simp add: SelectHashFunction_offers split: option.split)
  then show ?thesis by (auto simp: find_Some_iff)
qed

lemma NewSigner_Inr:
  "NewSigner o1 = Inr s \<longleftrightarrow>
     HashPreference o1 \<noteq> [] \<and> list_all IsSupportedHashFunction (HashPreference o1) \<and>
     s = \<lparr>hashPreference = HashPreference o1, hasTrust = Trust o1, sg_ocspChecker = OCSPChecker o1,
          acceptedPolicies = AcceptedPolicies o1\<rparr>"
  by (auto simp: NewSigner_def find_None_iff find_Some_iff list_all_iff split: option.splits)

lemma supported_hash_ascii: "IsSupportedHashFunction h \<Longrightarrow> is_ascii h"
proof -
  assume "IsSupportedHashFunction h"
  then have "h \<in> set SupportedHashFunctions" by (simp add: IsSupportedHashFunction_def list_ex_iff)
  moreover have "list_all is_ascii SupportedHashFunctions"
    by (simp add: SupportedHashFunctions_def is_ascii_def ascii_char_def)
  ultimately show ?thesis by (simp add: list_all_iff)
qed

lemma pick_in:
  "a \<in> set supported \<Longrightarrow> EqualFold U (HashFunction a) h \<Longrightarrow>
     pickAlgorithmForHash U h supported \<in> set supported \<and>
     EqualFold U (HashFunction (pickAlgorithmForHash U h supported)) h"
  by (auto simp: pickAlgorithmForHash_def equalFoldHash_def find_None_iff find_Some_iff split: option.splits)

text \<open>A card signature value is accepted against a digest exactly when neither is empty and the signing
  certificate's key verifies it: for an EC key as the fixed-width r and s of the curve, for an RSA key
  only under a known SHA-2 name whose length the digest has, with PSS exactly when the algorithm says
  so; no other kind of key verifies anything.\<close>

lemma VerifySignatureValue_None:
  "VerifySignatureValue P (Some cert) algo digest sig = None \<longleftrightarrow>
     digest \<noteq> [] \<and> sig \<noteq> [] \<and>
     ((\<exists>pub r s. PublicKey cert = ECDSAPublicKey pub \<and> splitP1363 sig pub = Inr (r, s) \<and>
         ecdsa_Verify P pub digest r s) \<or>
      (\<exists>pub h. PublicKey cert = RSAPublicKey pub \<and>
         hashNameToCryptoHash (ToUpper (tables P) (HashFunction algo)) = Some h \<and>
         length digest = hash_Size h \<and>
         (if EqualFold (tables P) (PaddingScheme algo) ''PSS''
          then rsa_VerifyPSS P pub h digest sig = None
          else rsa_VerifyPKCS1v15 P pub h digest sig = None)))"
  by (auto simp: VerifySignatureValue_def splitP1363_def Let_def
      split: option.splits public_key.splits if_splits)

section \<open>A sample signer\<close>

definition sample_algorithms :: "SignatureAlgorithm list" where
  "sample_algorithms =
     [\<lparr>CryptoAlgorithm = ''RSA'', HashFunction = ''SHA-512'', PaddingScheme = ''PKCS1.5''\<rparr>,
      \<lparr>CryptoAlgorithm = ''RSA'', HashFunction = ''SHA-256'', PaddingScheme = ''PSS''\<rparr>]"

definition sample_signer_options :: signing_Options where
  "sample_signer_options = \<lparr>HashPreference = [''SHA-384'', ''SHA-256''], Trust = True,
     OCSPChecker = None, AcceptedPolicies = []\<rparr>"

definition sample_signer :: Signer where
  "sample_signer = \<lparr>hashPreference = [''SHA-384'', ''SHA-256''], hasTrust = True,
     sg_ocspChecker = Some sample_checker, acceptedPolicies = []\<rparr>"

definition sample_signing_run :: signing_run where
  "sample_signing_run = \<lparr>sg_now = unix_time 60, sg_verify_snap = newTrustSnapshot [sample_cert [2]],
     sg_issuer_snap = newTrustSnapshot [sample_cert [2]], sg_ocsp_now = unix_time 60, sg_rand = sample_rand\<rparr>"

lemma sample_select:
  "SelectHashFunction sample_unicode [''SHA-384'', ''SHA-256''] sample_algorithms = Inr ''SHA-256''"
proof -
  have up: "is_ascii ''SHA-384''" "is_ascii ''SHA-256''" "is_ascii ''SHA-512''"
    by (simp_all add: is_ascii_def ascii_char_def)
  show ?thesis
    by (simp add: SelectHashFunction_def sample_algorithms_def ToUpper_ascii up ascii_upper_def
        in_range_def char_of_eq)
qed

section \<open>Properties\<close>

text \<open>C16: Preparing a signature succeeds, with a certificate, an algorithm and a hash function, exactly when
  the certificate parses, is within its validity period, has the content-commitment key usage,
  asserts one of the accepted policies if any are required, chains to the trusted set and is not
  revoked where these checks are configured, and the hash function and algorithm are the negotiated
  ones.\<close>

theorem PrepareSigning_iff:
  "PrepareSigning P s R der supported = Inr (cert, algo, hashFn) \<longleftrightarrow>
     ParseCertificate P der = Inr cert \<and> NotBefore cert \<le> sg_now R \<and> sg_now R \<le> NotAfter cert \<and>
     and (KeyUsage cert) KeyUsageContentCommitment \<noteq> 0 \<and>
     (acceptedPolicies s = [] \<or>
      (\<exists>ps. extractPolicies cert = Inr ps \<and> set ps \<inter> set (acceptedPolicies s) \<noteq> {})) \<and>
     (\<not> hasTrust s \<or>
      chain_Verify P cert (pool (sg_verify_snap R)) (sg_now R) [ExtKeyUsageAny] = None \<and>
      (sg_ocspChecker s = None \<or>
       (\<exists>c issuer. sg_ocspChecker s = Some c \<and> IssuerOf P (sg_issuer_snap R) cert = Some issuer \<and>
          Check P c (sg_rand R) (sg_ocsp_now R) cert issuer = None))) \<and>
     SelectHashFunction (tables P) (hashPreference s) supported = Inr hashFn \<and>
     algo = pickAlgorithmForHash (tables P) hashFn supported"
  by (cases "sg_ocspChecker s")
    (auto simp: PrepareSigning_Inr validateSigningCertificate_None check_None checkSigningTrust_None
      TrustStore_Verify_None)

theorem PrepareSigning_iff_witness:
  "PrepareSigning sample_ocsp sample_signer sample_signing_run [1] sample_algorithms =
     Inr (sample_cert [1], pickAlgorithmForHash sample_unicode ''SHA-256'' sample_algorithms, ''SHA-256'')"
proof -
  have "IssuerOf sample_ocsp (newTrustSnapshot [sample_cert [2]]) (sample_cert [1]) = Some (sample_cert [2])"
    by (simp add: IssuerOf_def newTrustSnapshot_def) (simp add: sample_cert_def)
  with sample_check sample_select show ?thesis
    unfolding PrepareSigning_iff
    by (simp add: sample_signer_def sample_signing_run_def sample_parse_def newTrustSnapshot_def AddCert_def)
      (simp add: sample_cert_def unix_time_small second_def KeyUsageContentCommitment_def)
qed

text \<open>Negotiation with a signer made by \<^verbatim>\<open>NewSigner\<close>: the chosen hash function is a known one, it is
  the first preference that the card offers, and the algorithm returned with it is one the card
  offered for that very hash function (up to letter case), never an invented one.\<close>

theorem negotiation_sound:
  assumes "NewSigner o1 = Inr s" and "list_all (\<lambda>a. is_ascii (HashFunction a)) supported"
    and "SelectHashFunction U (hashPreference s) supported = Inr h"
  shows "IsSupportedHashFunction h \<and>
     (\<exists>i < length (hashPreference s). h = hashPreference s ! i \<and>
        (\<forall>j < i. \<forall>a \<in> set supported. ToUpper U (HashFunction a) \<noteq> ToUpper U (hashPreference s ! j))) \<and>
     pickAlgorithmForHash U h supported \<in> set supported \<and>
     EqualFold U (HashFunction (pickAlgorithmForHash U h supported)) h"
proof -
  obtain i a where i: "i < length (hashPreference s)" "h = hashPreference s ! i"
    and first: "\<forall>j < i. \<forall>a \<in> set supported. ToUpper U (HashFunction a) \<noteq> ToUpper U (hashPreference s ! j)"
    and a: "a \<in> set supported" "ToUpper U (HashFunction a) = ToUpper U h"
    using assms(3) unfolding SelectHashFunction_Inr offers_def by blast
  have h: "IsSupportedHashFunction h"
    using assms(1) i by (auto simp: NewSigner_Inr list_all_length)
  have "EqualFold U (HashFunction a) h"
    using ToUpper_EqualFold [OF _ supported_hash_ascii [OF h] a(2)] a(1) assms(2) by (auto simp: list_all_iff)
  from pick_in [OF a(1) this] show ?thesis using h i first by blast
qed

theorem negotiation_sound_witness:
  "\<exists>s h. NewSigner sample_signer_options = Inr s \<and>
     SelectHashFunction sample_unicode (hashPreference s) sample_algorithms = Inr h \<and> h = ''SHA-256'' \<and>
     pickAlgorithmForHash sample_unicode h sample_algorithms \<in> set sample_algorithms"
proof -
  obtain s where s: "NewSigner sample_signer_options = Inr s"
    and pref: "hashPreference s = [''SHA-384'', ''SHA-256'']"
    by (simp add: NewSigner_def sample_signer_options_def IsSupportedHashFunction_def SupportedHashFunctions_def)
  have ascii: "list_all (\<lambda>a. is_ascii (HashFunction a)) sample_algorithms"
    by (simp add: sample_algorithms_def is_ascii_def ascii_char_def)
  have h: "SelectHashFunction sample_unicode (hashPreference s) sample_algorithms = Inr ''SHA-256''"
    using sample_select pref by simp
  from negotiation_sound [OF s ascii h] s h show ?thesis by blast
qed

end
