(* ===== verification/Assertion.thy ===== *)
theory Assertion
  imports Platform Go_JSON
begin

text \<open>
  Package \<^verbatim>\<open>assertion\<close> (\<^verbatim>\<open>src/assertion/assertion.go\<close>): the identity assertion, a compact
  ES256 JWS that the service issues and the consuming service verifies offline, and the JWK set
  that carries the verification keys. ECDSA key generation and signing are parameters, gathered in
  \<open>jose_platform\<close>; the JSON documents, base64url, the SEC 1 point encoding and the curve equation
  are modelled concretely. A clock or a random source that is read is a field of \<open>world\<close>.
\<close>

section \<open>Points on the NIST curves\<close>

fun curve_P :: "curve \<Rightarrow> nat" where
  "curve_P P224 = 2 ^ 224 - 2 ^ 96 + 1"
| "curve_P P256 = 2 ^ 256 - 2 ^ 224 + 2 ^ 192 + 2 ^ 96 - 1"
| "curve_P P384 = 2 ^ 384 - 2 ^ 128 - 2 ^ 96 + 2 ^ 32 - 1"
| "curve_P P521 = 2 ^ 521 - 1"

fun curve_B :: "curve \<Rightarrow> nat" where
  "curve_B P224 = 18958286285566608000408668544493926415504680968679321075787234672564"
| "curve_B P256 =
     41058363725152142129326129780047268409114441015993725554835256314039467401291"
| "curve_B P384 =
     27580193559959705877849011840389048093056905856361568521428707301988689241309860865136260764883745107765439761230575"
| "curve_B P521 =
     1093849038073734274511112390766805569936207598951683748994586394495953116150735016013708737573759623248592132296706313309438452531591012912142327488478985984"

definition on_curve :: "ec_public \<Rightarrow> bool" where
  "on_curve k \<longleftrightarrow>
     (let p = curve_P (Curve k); x = ecX k; y = ecY k in
      x < p \<and> y < p \<and> (y * y) mod p = (x * x * x + (p - 3) * x + curve_B (Curve k)) mod p)"

text \<open>\<^verbatim>\<open>(*ecdsa.PublicKey).Bytes\<close> and \<^verbatim>\<open>ecdsa.ParseUncompressedPublicKey\<close>.\<close>

definition ec_Bytes :: "ec_public \<Rightarrow> bytes result" where
  "ec_Bytes k =
     (if on_curve k
      then Inr (4 # FillBytes (coord_len (Curve k)) (ecX k) @ FillBytes (coord_len (Curve k)) (ecY k))
      else Inl (ErrorString ''ecdsa: invalid public key''))"

definition ParseUncompressedPublicKey :: "curve \<Rightarrow> bytes \<Rightarrow> ec_public result" where
  "ParseUncompressedPublicKey c data =
     (let n = coord_len c;
          k = \<lparr>Curve = c, ecX = SetBytes (take n (tl data)), ecY = SetBytes (drop n (tl data))\<rparr> in
      if data = [] \<or> hd data \<noteq> 4 then Inl (ErrorString ''ecdsa: invalid uncompressed public key'')
      else if length data \<noteq> 1 + 2 * n \<or> \<not> on_curve k
      then Inl (ErrorString ''invalid point encoding'') else Inr k)"

section \<open>Data\<close>

definition ErrInvalidToken :: goerror where
  "ErrInvalidToken = ErrorString ''assertion: malformed token''"
definition ErrAlgorithm :: goerror where
  "ErrAlgorithm = ErrorString ''assertion: unexpected algorithm''"
definition ErrUnknownKey :: goerror where
  "ErrUnknownKey = ErrorString ''assertion: unknown signing key id''"
definition ErrSignature :: goerror where
  "ErrSignature = ErrorString ''assertion: signature verification failed''"
definition ErrIssuer :: goerror where
  "ErrIssuer = ErrorString ''assertion: unexpected issuer''"
definition ErrAudience :: goerror where
  "ErrAudience = ErrorString ''assertion: unexpected audience''"
definition ErrExpired :: goerror where
  "ErrExpired = ErrorString ''assertion: assertion has expired''"
definition ErrNotYetValid :: goerror where
  "ErrNotYetValid = ErrorString ''assertion: assertion is not yet valid''"

definition defaultIssuerTTL :: duration where "defaultIssuerTTL = 2 * minute"
definition p256ByteLen :: nat where "p256ByteLen = 32"

record assertion_Subject =
  s_NationalID :: string
  s_Country :: string
  s_GivenName :: string
  s_FamilyName :: string
  s_LoA :: string

record Claims =
  c_Issuer :: string
  c_Audience :: string
  c_Subject :: string
  c_IssuedAt :: int
  c_Expiry :: int
  c_JWTID :: string
  c_NationalID :: string
  c_Country :: string
  c_GivenName :: string
  c_FamilyName :: string
  c_LoA :: string
  c_LoginMethod :: string

record jwsHeader =
  Alg :: string
  Typ :: string
  Kid :: string

record JWK =
  jwk_Kty :: string
  jwk_Crv :: string
  jwk_X :: string
  jwk_Y :: string
  jwk_Kid :: string
  jwk_Use :: string
  jwk_Alg :: string

record JWKS =
  jwks_Keys :: "JWK list"

record ec_private =
  priv_Public :: ec_public
  priv_D :: nat

record SigningKey =
  KID :: string
  Key :: "ec_private option"

subsection \<open>JSON documents\<close>

definition jwsHeader_fields :: "jwsHeader field list" where
  "jwsHeader_fields =
     [(''alg'', set_string (\<lambda>s h. h\<lparr>Alg := s\<rparr>)), (''typ'', set_string (\<lambda>s h. h\<lparr>Typ := s\<rparr>)),
      (''kid'', set_string (\<lambda>s h. h\<lparr>Kid := s\<rparr>))]"

definition marshal_header :: "jwsHeader \<Rightarrow> bytes result" where
  "marshal_header h = Inr (json_Marshal (JObj
     (string_member ''alg'' (Alg h) @ string_member ''typ'' (Typ h) @ string_member ''kid'' (Kid h))))"

definition unmarshal_header :: "bytes \<Rightarrow> jwsHeader result" where
  "unmarshal_header = json_Unmarshal (decode_struct jwsHeader_fields \<lparr>Alg = [], Typ = [], Kid = []\<rparr>)"

definition Claims_fields :: "Claims field list" where
  "Claims_fields =
     [(''iss'', set_string (\<lambda>s c. c\<lparr>c_Issuer := s\<rparr>)), (''aud'', set_string (\<lambda>s c. c\<lparr>c_Audience := s\<rparr>)),
      (''sub'', set_string (\<lambda>s c. c\<lparr>c_Subject := s\<rparr>)), (''iat'', set_int64 (\<lambda>n c. c\<lparr>c_IssuedAt := n\<rparr>)),
      (''exp'', set_int64 (\<lambda>n c. c\<lparr>c_Expiry := n\<rparr>)), (''jti'', set_string (\<lambda>s c. c\<lparr>c_JWTID := s\<rparr>)),
      (''national_id'', set_string (\<lambda>s c. c\<lparr>c_NationalID := s\<rparr>)),
      (''country'', set_string (\<lambda>s c. c\<lparr>c_Country := s\<rparr>)),
      (''given_name'', set_string (\<lambda>s c. c\<lparr>c_GivenName := s\<rparr>)),
      (''family_name'', set_string (\<lambda>s c. c\<lparr>c_FamilyName := s\<rparr>)),
      (''loa'', set_string (\<lambda>s c. c\<lparr>c_LoA := s\<rparr>)),
      (''login_method'', set_string (\<lambda>s c. c\<lparr>c_LoginMethod := s\<rparr>))]"

definition Claims_zero :: Claims where
  "Claims_zero = \<lparr>c_Issuer = [], c_Audience = [], c_Subject = [], c_IssuedAt = 0, c_Expiry = 0, c_JWTID = [],
     c_NationalID = [], c_Country = [], c_GivenName = [], c_FamilyName = [], c_LoA = [], c_LoginMethod = []\<rparr>"

definition marshal_claims :: "Claims \<Rightarrow> bytes result" where
  "marshal_claims c = Inr (json_Marshal (JObj
     (string_member ''iss'' (c_Issuer c) @ string_member ''aud'' (c_Audience c) @
      string_member ''sub'' (c_Subject c) @ int_member ''iat'' (c_IssuedAt c) @
      int_member ''exp'' (c_Expiry c) @ string_member ''jti'' (c_JWTID c) @
      string_member ''national_id'' (c_NationalID c) @ omitempty ''country'' (c_Country c) @
      omitempty ''given_name'' (c_GivenName c) @ omitempty ''family_name'' (c_FamilyName c) @
      string_member ''loa'' (c_LoA c) @ string_member ''login_method'' (c_LoginMethod c))))"

definition unmarshal_claims :: "bytes \<Rightarrow> Claims result" where
  "unmarshal_claims = json_Unmarshal (decode_struct Claims_fields Claims_zero)"

definition JWK_fields :: "JWK field list" where
  "JWK_fields =
     [(''kty'', set_string (\<lambda>s k. k\<lparr>jwk_Kty := s\<rparr>)), (''crv'', set_string (\<lambda>s k. k\<lparr>jwk_Crv := s\<rparr>)),
      (''x'', set_string (\<lambda>s k. k\<lparr>jwk_X := s\<rparr>)), (''y'', set_string (\<lambda>s k. k\<lparr>jwk_Y := s\<rparr>)),
      (''kid'', set_string (\<lambda>s k. k\<lparr>jwk_Kid := s\<rparr>)), (''use'', set_string (\<lambda>s k. k\<lparr>jwk_Use := s\<rparr>)),
      (''alg'', set_string (\<lambda>s k. k\<lparr>jwk_Alg := s\<rparr>))]"

definition decode_JWK :: "json \<Rightarrow> JWK option" where
  "decode_JWK = decode_struct JWK_fields
     \<lparr>jwk_Kty = [], jwk_Crv = [], jwk_X = [], jwk_Y = [], jwk_Kid = [], jwk_Use = [], jwk_Alg = []\<rparr>"

definition encode_JWK :: "JWK \<Rightarrow> json" where
  "encode_JWK k = JObj
     (string_member ''kty'' (jwk_Kty k) @ string_member ''crv'' (jwk_Crv k) @ string_member ''x'' (jwk_X k) @
      string_member ''y'' (jwk_Y k) @ string_member ''kid'' (jwk_Kid k) @ string_member ''use'' (jwk_Use k) @
      string_member ''alg'' (jwk_Alg k))"

definition JWKS_fields :: "JWKS field list" where
  "JWKS_fields = [(''keys'', set_slice decode_JWK (\<lambda>ks d. d\<lparr>jwks_Keys := ks\<rparr>))]"

definition marshal_jwks :: "JWKS \<Rightarrow> bytes result" where
  "marshal_jwks d = Inr (json_Marshal (JObj [(escape ''keys'', JArr (map encode_JWK (jwks_Keys d)))]))"

definition unmarshal_jwks :: "bytes \<Rightarrow> JWKS result" where
  "unmarshal_jwks = json_Unmarshal (decode_struct JWKS_fields \<lparr>jwks_Keys = []\<rparr>)"

text \<open>
  The ECDSA operations that draw from the random source (the first argument stands for what they
  draw).
\<close>

record jose_platform = platform +
  ecdsa_GenerateKey :: "nat \<Rightarrow> curve \<Rightarrow> ec_private result"
  ecdsa_Sign :: "nat \<Rightarrow> ec_private \<Rightarrow> bytes \<Rightarrow> (nat \<times> nat) result"

record world =
  w_now :: time
  w_rand :: "nat \<Rightarrow> bytes result"
  w_seed :: nat

definition b64 :: "bytes \<Rightarrow> string" where
  "b64 b = RawURLEncoding_EncodeToString b"

definition url_decode :: "string \<Rightarrow> bytes result" where
  "url_decode s =
     (case RawURLEncoding_DecodeString s of None \<Rightarrow> Inl base64_error | Some b \<Rightarrow> Inr b)"

section \<open>The issuer\<close>

definition GenerateKey :: "'a jose_platform_scheme \<Rightarrow> nat \<Rightarrow> string \<Rightarrow> SigningKey result" where
  "GenerateKey P seed kid =
     (if kid = [] then Inl (ErrorString ''assertion: key id is required'')
      else bindE (ecdsa_GenerateKey P seed P256) (\<lambda>k. Inr \<lparr>KID = kid, Key = Some k\<rparr>))"

record Issuer =
  i_key :: SigningKey
  i_iss :: string
  i_aud :: string
  i_ttl :: duration
  i_now :: "world \<Rightarrow> time"
  i_genJTI :: "world \<Rightarrow> string result"

definition WithClock :: "(world \<Rightarrow> time) option \<Rightarrow> Issuer \<Rightarrow> Issuer" where
  "WithClock now i = (case now of None \<Rightarrow> i | Some f \<Rightarrow> i\<lparr>i_now := f\<rparr>)"

definition WithJTIGenerator :: "(world \<Rightarrow> string result) option \<Rightarrow> Issuer \<Rightarrow> Issuer" where
  "WithJTIGenerator f i = (case f of None \<Rightarrow> i | Some g \<Rightarrow> i\<lparr>i_genJTI := g\<rparr>)"

definition randomJTI :: "world \<Rightarrow> string result" where
  "randomJTI W = bindE (w_rand W 16) (\<lambda>buf. Inr (RawURLEncoding_EncodeToString buf))"

definition NewIssuer ::
  "SigningKey \<Rightarrow> string \<Rightarrow> string \<Rightarrow> duration \<Rightarrow> (Issuer \<Rightarrow> Issuer) list \<Rightarrow> Issuer result" where
  "NewIssuer key issuerURL audience ttl options =
     (case Key key of
        None \<Rightarrow> Inl (ErrorString ''assertion: a signing key is required'')
      | Some k \<Rightarrow>
          if Curve (priv_Public k) \<noteq> P256
          then Inl (ErrorString ''assertion: ES256 requires a P-256 key'')
          else if KID key = [] then Inl (ErrorString ''assertion: a key id is required'')
          else if issuerURL = [] \<or> audience = []
          then Inl (ErrorString ''assertion: issuer and audience are required'')
          else Inr (foldl (\<lambda>i opt. opt i)
            \<lparr>i_key = key, i_iss = issuerURL, i_aud = audience,
             i_ttl = (if ttl \<le> 0 then defaultIssuerTTL else ttl),
             i_now = w_now, i_genJTI = randomJTI\<rparr> options))"

text \<open>\<^verbatim>\<open>(*big.Int).FillBytes\<close> panics when the integer does not fit the buffer.\<close>

definition errFillBytes :: goerror where
  "errFillBytes = ErrorString ''panic: math/big: buffer too small to fit value''"

definition errNilKey :: goerror where
  "errNilKey = ErrorString ''panic: nil pointer dereference''"

definition fill_half :: "nat \<Rightarrow> bytes result" where
  "fill_half n = (if n < 256 ^ p256ByteLen then Inr (FillBytes p256ByteLen n) else Inl errFillBytes)"

definition sign ::
  "'a jose_platform_scheme \<Rightarrow> nat \<Rightarrow> SigningKey \<Rightarrow> Claims \<Rightarrow> string result" where
  "sign P seed key claims =
     bindE (marshal_header \<lparr>Alg = ''ES256'', Typ = ''JWT'', Kid = KID key\<rparr>) (\<lambda>hdr.
     bindE (marshal_claims claims) (\<lambda>payload.
       let signingInput = b64 hdr @ CHR ''.'' # b64 payload;
           digest = hash_sum P SHA256 (bytes_of signingInput) in
       case Key key of None \<Rightarrow> Inl errNilKey | Some k \<Rightarrow>
       bindE (ecdsa_Sign P seed k digest) (\<lambda>(r, s).
       bindE (fill_half r) (\<lambda>rb. bindE (fill_half s) (\<lambda>sb.
         Inr (signingInput @ CHR ''.'' # b64 (rb @ sb)))))))"

definition issue_claims :: "Issuer \<Rightarrow> assertion_Subject \<Rightarrow> string \<Rightarrow> time \<Rightarrow> Claims" where
  "issue_claims i s jti now =
     \<lparr>c_Issuer = i_iss i, c_Audience = i_aud i, c_Subject = s_NationalID s,
      c_IssuedAt = time_unix now, c_Expiry = time_unix (now + i_ttl i), c_JWTID = jti,
      c_NationalID = s_NationalID s, c_Country = s_Country s, c_GivenName = s_GivenName s,
      c_FamilyName = s_FamilyName s, c_LoA = s_LoA s, c_LoginMethod = ''webEid''\<rparr>"

definition Issue ::
  "'a jose_platform_scheme \<Rightarrow> world \<Rightarrow> Issuer \<Rightarrow> assertion_Subject \<Rightarrow> string result" where
  "Issue P W i s =
     (if s_NationalID s = [] then Inl (ErrorString ''assertion: subject national id is required'')
      else bindE (i_genJTI i W) (\<lambda>jti.
        sign P (w_seed W) (i_key i) (issue_claims i s jti (i_now i W))))"

section \<open>Key sets\<close>

record KeySet =
  ks_keys :: "string \<rightharpoonup> ec_public"

definition NewKeySet :: KeySet where
  "NewKeySet = \<lparr>ks_keys = Map.empty\<rparr>"

definition KeySet_Add :: "KeySet \<Rightarrow> string \<Rightarrow> ec_public option \<Rightarrow> KeySet" where
  "KeySet_Add ks kid pub =
     (case pub of
        None \<Rightarrow> ks
      | Some k \<Rightarrow> if kid \<noteq> [] then ks\<lparr>ks_keys := (ks_keys ks)(kid \<mapsto> k)\<rparr> else ks)"

definition KeySet_get :: "KeySet \<Rightarrow> string \<Rightarrow> ec_public option" where
  "KeySet_get ks kid = ks_keys ks kid"

definition Issuer_KeySet :: "Issuer \<Rightarrow> KeySet" where
  "Issuer_KeySet i = KeySet_Add NewKeySet (KID (i_key i)) (map_option priv_Public (Key (i_key i)))"

definition jwkFromPublic :: "string \<Rightarrow> ec_public \<Rightarrow> JWK result" where
  "jwkFromPublic kid pub =
     bindE (ec_Bytes pub) (\<lambda>raw.
       let byteLen = (BitSize (Curve pub) + 7) div 8;
           x = take byteLen (drop 1 raw); y = drop (1 + byteLen) raw in
       Inr \<lparr>jwk_Kty = ''EC'', jwk_Crv = ''P-256'', jwk_X = b64 x, jwk_Y = b64 y,
            jwk_Kid = kid, jwk_Use = ''sig'', jwk_Alg = ''ES256''\<rparr>)"

text \<open>
  \<^verbatim>\<open>for kid, pub := range ks.keys\<close> visits the entries in an unspecified order: \<open>order\<close> lists
  the key ids as this run visits them.
\<close>

definition iterates :: "KeySet \<Rightarrow> string list \<Rightarrow> bool" where
  "iterates ks order \<longleftrightarrow> distinct order \<and> set order = dom (ks_keys ks)"

definition KeySet_JWKS :: "KeySet \<Rightarrow> string list \<Rightarrow> JWKS result" where
  "KeySet_JWKS ks order =
     bindE (mapE (\<lambda>kid. jwkFromPublic kid (the (ks_keys ks kid))) order)
       (\<lambda>out. Inr \<lparr>jwks_Keys = out\<rparr>)"

definition MarshalJWKS :: "KeySet \<Rightarrow> string list \<Rightarrow> bytes result" where
  "MarshalJWKS ks order = bindE (KeySet_JWKS ks order) (marshal_jwks)"

definition Issuer_JWKS :: "Issuer \<Rightarrow> string list \<Rightarrow> bytes result" where
  "Issuer_JWKS i order = MarshalJWKS (Issuer_KeySet i) order"

definition p256PublicKey :: "bytes \<Rightarrow> bytes \<Rightarrow> ec_public result" where
  "p256PublicKey xb yb =
     (if length xb > p256ByteLen \<or> length yb > p256ByteLen then Inl ErrInvalidToken
      else ParseUncompressedPublicKey P256
        (4 # (replicate (p256ByteLen - length xb) 0 @ xb)
           @ (replicate (p256ByteLen - length yb) 0 @ yb)))"

fun add_keys :: "KeySet \<Rightarrow> JWK list \<Rightarrow> KeySet result" where
  "add_keys ks [] = Inr ks"
| "add_keys ks (k # rest) =
     (if jwk_Kty k \<noteq> ''EC'' \<or> jwk_Crv k \<noteq> ''P-256'' then add_keys ks rest
      else bindE (mapErr (\<lambda>_. ErrInvalidToken) (url_decode (jwk_X k))) (\<lambda>xb.
           bindE (mapErr (\<lambda>_. ErrInvalidToken) (url_decode (jwk_Y k))) (\<lambda>yb.
           bindE (mapErr (\<lambda>_. ErrInvalidToken) (p256PublicKey xb yb)) (\<lambda>pub.
             add_keys (KeySet_Add ks (jwk_Kid k) (Some pub)) rest))))"

definition KeySetFromJWKS :: "bytes \<Rightarrow> KeySet result" where
  "KeySetFromJWKS data =
     bindE (unmarshal_jwks data) (\<lambda>doc. add_keys NewKeySet (jwks_Keys doc))"

section \<open>The verifier\<close>

record Verifier =
  v_keys :: KeySet
  v_iss :: string
  v_aud :: string
  v_leeway :: duration
  v_now :: "world \<Rightarrow> time"

definition WithVerifierClock :: "(world \<Rightarrow> time) option \<Rightarrow> Verifier \<Rightarrow> Verifier" where
  "WithVerifierClock now v = (case now of None \<Rightarrow> v | Some f \<Rightarrow> v\<lparr>v_now := f\<rparr>)"

definition WithLeeway :: "duration \<Rightarrow> Verifier \<Rightarrow> Verifier" where
  "WithLeeway d v = (if d \<ge> 0 then v\<lparr>v_leeway := d\<rparr> else v)"

definition NewVerifier ::
  "KeySet option \<Rightarrow> string \<Rightarrow> string \<Rightarrow> (Verifier \<Rightarrow> Verifier) list \<Rightarrow> Verifier result" where
  "NewVerifier keys issuerURL audience options =
     (case keys of
        None \<Rightarrow> Inl (ErrorString ''assertion: a key set is required'')
      | Some ks \<Rightarrow>
          if issuerURL = [] \<or> audience = []
          then Inl (ErrorString ''assertion: issuer and audience are required'')
          else Inr (foldl (\<lambda>v opt. opt v)
            \<lparr>v_keys = ks, v_iss = issuerURL, v_aud = audience, v_leeway = 30 * second, v_now = w_now\<rparr>
            options))"

definition check_claims :: "Verifier \<Rightarrow> time \<Rightarrow> Claims \<Rightarrow> goerror option" where
  "check_claims v now claims =
     (if c_Issuer claims \<noteq> v_iss v then Some ErrIssuer
      else if c_Audience claims \<noteq> v_aud v then Some ErrAudience
      else if c_Expiry claims \<noteq> 0 \<and> unix_time (c_Expiry claims) + v_leeway v < now
      then Some ErrExpired
      else if c_IssuedAt claims \<noteq> 0 \<and> now + v_leeway v < unix_time (c_IssuedAt claims)
      then Some ErrNotYetValid
      else None)"

definition Verifier_Verify ::
  "'a jose_platform_scheme \<Rightarrow> world \<Rightarrow> Verifier \<Rightarrow> string \<Rightarrow> Claims result" where
  "Verifier_Verify P W v token =
     (case split_on CHR ''.'' token of
        [p0, p1, p2] \<Rightarrow>
          bindE (mapErr (\<lambda>_. ErrInvalidToken) (url_decode p0)) (\<lambda>hdrBytes.
          bindE (mapErr (\<lambda>_. ErrInvalidToken) (unmarshal_header hdrBytes)) (\<lambda>hdr.
          if Alg hdr \<noteq> ''ES256'' then Inl ErrAlgorithm
          else case KeySet_get (v_keys v) (Kid hdr) of None \<Rightarrow> Inl ErrUnknownKey | Some pub \<Rightarrow>
          bindE (mapErr (\<lambda>_. ErrInvalidToken) (url_decode p2)) (\<lambda>sig.
          if length sig \<noteq> 2 * p256ByteLen then Inl ErrInvalidToken
          else let digest = hash_sum P SHA256 (bytes_of (p0 @ CHR ''.'' # p1));
                   r = SetBytes (take p256ByteLen sig); s = SetBytes (drop p256ByteLen sig) in
          if \<not> ecdsa_Verify P pub digest r s then Inl ErrSignature
          else bindE (mapErr (\<lambda>_. ErrInvalidToken) (url_decode p1)) (\<lambda>payload.
          bindE (mapErr (\<lambda>_. ErrInvalidToken) (unmarshal_claims payload)) (\<lambda>claims.
          checkE (check_claims v (v_now v W) claims) (Inr claims))))))
      | _ \<Rightarrow> Inl ErrInvalidToken)"

section \<open>What the parameters promise\<close>

text \<open>
  The encoder writes malformed UTF-8 as U+FFFD, so a document is given back unchanged when its strings
  are valid UTF-8 and its numbers fit \<^verbatim>\<open>int64\<close>. A signature that \<^verbatim>\<open>ecdsa.Sign\<close> returns verifies under the public key, and its
  two integers are below the group order, so they fit 32 bytes on P-256.
\<close>

definition utf8_header :: "jwsHeader \<Rightarrow> bool" where
  "utf8_header h \<longleftrightarrow> list_all valid_utf8 [Alg h, Typ h, Kid h]"

definition utf8_claims :: "Claims \<Rightarrow> bool" where
  "utf8_claims c \<longleftrightarrow> list_all valid_utf8
     [c_Issuer c, c_Audience c, c_Subject c, c_JWTID c, c_NationalID c, c_Country c, c_GivenName c,
      c_FamilyName c, c_LoA c, c_LoginMethod c] \<and> in_int64 (c_IssuedAt c) \<and> in_int64 (c_Expiry c)"

definition utf8_jwk :: "JWK \<Rightarrow> bool" where
  "utf8_jwk k \<longleftrightarrow> list_all valid_utf8
     [jwk_Kty k, jwk_Crv k, jwk_X k, jwk_Y k, jwk_Kid k, jwk_Use k, jwk_Alg k]"

definition signs_for :: "'a jose_platform_scheme \<Rightarrow> ec_private \<Rightarrow> bool" where
  "signs_for P k \<longleftrightarrow>
     (\<forall>seed d r s. ecdsa_Sign P seed k d = Inr (r, s) \<longrightarrow>
        ecdsa_Verify P (priv_Public k) d r s \<and> r < 256 ^ 32 \<and> s < 256 ^ 32)"

section \<open>Documents round trip\<close>

lemma unmarshal_header_marshal:
  assumes "utf8_header h" and "marshal_header h = Inr b"
  shows "unmarshal_header b = Inr h"
proof -
  have "b = json_Marshal (JObj
      (string_member ''alg'' (Alg h) @ string_member ''typ'' (Typ h) @ string_member ''kid'' (Kid h)))"
    using assms(2) by (simp add: marshal_header_def)
  moreover have "decode_struct jwsHeader_fields \<lparr>Alg = [], Typ = [], Kid = []\<rparr> (JObj
      (string_member ''alg'' (Alg h) @ string_member ''typ'' (Typ h) @ string_member ''kid'' (Kid h))) = Some h"
    using assms(1) by (cases h) (simp add: utf8_header_def jwsHeader_fields_def json_simps)
  ultimately show ?thesis
    by (simp only: unmarshal_header_def) (rule Unmarshal_Marshal, simp_all add: maxNestingDepth_def)
qed

lemma unmarshal_claims_marshal:
  assumes "utf8_claims c" and "marshal_claims c = Inr b"
  shows "unmarshal_claims b = Inr c"
proof -
  from assms(2) obtain ms where b: "b = json_Marshal (JObj ms)" and ms: "JObj ms = JObj
     (string_member ''iss'' (c_Issuer c) @ string_member ''aud'' (c_Audience c) @
      string_member ''sub'' (c_Subject c) @ int_member ''iat'' (c_IssuedAt c) @
      int_member ''exp'' (c_Expiry c) @ string_member ''jti'' (c_JWTID c) @
      string_member ''national_id'' (c_NationalID c) @ omitempty ''country'' (c_Country c) @
      omitempty ''given_name'' (c_GivenName c) @ omitempty ''family_name'' (c_FamilyName c) @
      string_member ''loa'' (c_LoA c) @ string_member ''login_method'' (c_LoginMethod c))"
    by (simp add: marshal_claims_def)
  have "decode_struct Claims_fields Claims_zero (JObj ms) = Some c"
    using assms(1) unfolding ms
    by (cases c) (simp add: utf8_claims_def Claims_fields_def Claims_zero_def json_simps)
  moreover have "encoded (JObj ms)" "json_depth (JObj ms) \<le> maxNestingDepth"
    unfolding ms by (simp_all add: maxNestingDepth_def)
  ultimately show ?thesis unfolding unmarshal_claims_def b by (intro Unmarshal_Marshal)
qed

lemma decode_encode_JWK: "utf8_jwk k \<Longrightarrow> decode_JWK (encode_JWK k) = Some k"
  by (cases k) (simp add: utf8_jwk_def decode_JWK_def encode_JWK_def JWK_fields_def json_simps)

lemma encode_JWK_encoded: "encoded (encode_JWK k)" "json_depth (encode_JWK k) = 1"
  by (simp_all add: encode_JWK_def)

lemma unmarshal_jwks_marshal:
  assumes "list_all utf8_jwk (jwks_Keys d)" and "marshal_jwks d = Inr b"
  shows "unmarshal_jwks b = Inr d"
proof -
  let ?v = "JObj [(escape ''keys'', JArr (map encode_JWK (jwks_Keys d)))]"
  have b: "b = json_Marshal ?v" using assms(2) by (simp add: marshal_jwks_def)
  have "decode_slice decode_JWK (JArr (map encode_JWK (jwks_Keys d))) = Some (jwks_Keys d)"
    using assms(1) by (intro decode_slice_all) (simp add: list_all_iff decode_encode_JWK)
  then have "decode_struct JWKS_fields \<lparr>jwks_Keys = []\<rparr> ?v = Some d"
    by (simp add: JWKS_fields_def json_simps)
  moreover have "encoded ?v" by (auto simp: list_all_iff encode_JWK_encoded)
  moreover have "json_depth ?v \<le> Suc 9999"
    unfolding json_depth_JObj by (simp add: foldr_max_le encode_JWK_encoded)
  then have "json_depth ?v \<le> maxNestingDepth" by (simp add: maxNestingDepth_def del: json_depth.simps)
  ultimately show ?thesis unfolding unmarshal_jwks_def b by (intro Unmarshal_Marshal)
qed

section \<open>Points and JWK sets\<close>

lemma coord_len_P256 [simp]: "coord_len P256 = 32"
  by (simp add: coord_len_def)

lemma on_curve_bound: "on_curve k \<Longrightarrow> Curve k = P256 \<Longrightarrow> ecX k < 256 ^ 32 \<and> ecY k < 256 ^ 32"
  by (simp add: on_curve_def Let_def)

lemma url_decode_b64 [simp]: "url_decode (b64 b) = Inr b"
  by (simp add: url_decode_def b64_def url64.dec_enc)

lemma b64_is_ascii: "is_ascii (RawURLEncoding_EncodeToString b)"
proof -
  have "list_all ascii_char url_alphabet" by code_simp
  then show ?thesis using url64.enc_chars [of b] by (auto simp: is_ascii_def list_all_iff)
qed

lemma b64_ascii: "valid_utf8 (RawURLEncoding_EncodeToString b)"
  by (rule valid_utf8_ascii [OF b64_is_ascii])

text \<open>Padding on the left with zero bytes does not change a coordinate, so stripped ones are accepted.\<close>

lemma p256PublicKey_eq:
  assumes "length xb \<le> 32" and "length yb \<le> 32"
  shows "p256PublicKey xb yb =
    (let k = \<lparr>Curve = P256, ecX = SetBytes xb, ecY = SetBytes yb\<rparr> in
     if on_curve k then Inr k else Inl (ErrorString ''invalid point encoding''))"
  using assms
  by (simp add: p256PublicKey_def p256ByteLen_def ParseUncompressedPublicKey_def SetBytes_zeros Let_def)

lemma p256PublicKey_FillBytes:
  assumes "on_curve k" and "Curve k = P256"
  shows "p256PublicKey (FillBytes 32 (ecX k)) (FillBytes 32 (ecY k)) = Inr k"
proof -
  have k: "\<lparr>Curve = P256, ecX = ecX k, ecY = ecY k\<rparr> = k" using assms(2) by (cases k) simp
  have "p256PublicKey (FillBytes 32 (ecX k)) (FillBytes 32 (ecY k)) =
      (let k = \<lparr>Curve = P256, ecX = ecX k, ecY = ecY k\<rparr> in
       if on_curve k then Inr k else Inl (ErrorString ''invalid point encoding''))"
    using on_curve_bound [OF assms] by (simp add: p256PublicKey_eq SetBytes_FillBytes_id)
  then show ?thesis
    using assms by (simp add: k Let_def)
qed

definition p256_set :: "KeySet \<Rightarrow> bool" where
  "p256_set ks \<longleftrightarrow> (\<forall>kid k. ks_keys ks kid = Some k \<longrightarrow> kid \<noteq> [] \<and> valid_utf8 kid \<and> Curve k = P256)"

lemma jwkFromPublic_Inr:
  "Curve k = P256 \<Longrightarrow> jwkFromPublic kid k = Inr j \<longleftrightarrow>
     on_curve k \<and> j = \<lparr>jwk_Kty = ''EC'', jwk_Crv = ''P-256'', jwk_X = b64 (FillBytes 32 (ecX k)),
       jwk_Y = b64 (FillBytes 32 (ecY k)), jwk_Kid = kid, jwk_Use = ''sig'', jwk_Alg = ''ES256''\<rparr>"
  by (auto simp: jwkFromPublic_def ec_Bytes_def coord_len_def)

lemma jwkFromPublic_utf8:
  "Curve k = P256 \<Longrightarrow> jwkFromPublic kid k = Inr j \<Longrightarrow> valid_utf8 kid \<Longrightarrow> utf8_jwk j"
  by (auto simp: jwkFromPublic_Inr utf8_jwk_def b64_def b64_ascii intro!: valid_utf8_ascii)
    (simp_all add: is_ascii_def ascii_char_def)

lemma add_keys_jwks:
  assumes "p256_set ks" and "set order \<subseteq> dom (ks_keys ks)"
    and "mapE (\<lambda>kid. jwkFromPublic kid (the (ks_keys ks kid))) order = Inr js"
  shows "add_keys acc js = Inr \<lparr>ks_keys = ks_keys acc ++ (ks_keys ks |` set order)\<rparr>"
  using assms(2, 3)
proof (induction order arbitrary: acc js)
  case Nil
  then show ?case by simp
next
  case (Cons kid order)
  obtain k where k: "ks_keys ks kid = Some k" using Cons.prems(1) by auto
  then have ok: "kid \<noteq> []" "Curve k = P256" using assms(1) by (auto simp: p256_set_def)
  obtain j js' where js: "js = j # js'" and j: "jwkFromPublic kid k = Inr j"
    and rest: "mapE (\<lambda>kid. jwkFromPublic kid (the (ks_keys ks kid))) order = Inr js'"
    using Cons.prems(2) k by (auto simp: bindE_Inr simp del: mapE_Inr)
  let ?acc = "KeySet_Add acc kid (Some k)"
  have "add_keys acc js = add_keys ?acc js'"
    using j ok by (auto simp: js jwkFromPublic_Inr p256PublicKey_FillBytes)
  also have "\<dots> = Inr \<lparr>ks_keys = ks_keys ?acc ++ (ks_keys ks |` set order)\<rparr>"
    using Cons.IH [OF _ rest] Cons.prems(1) by simp
  also have "ks_keys ?acc ++ (ks_keys ks |` set order) =
      ks_keys acc ++ (ks_keys ks |` set (kid # order))"
    using ok(1) k by (auto simp: KeySet_Add_def map_add_def restrict_map_def split: option.splits)
  finally show ?case .
qed

lemma jwks_round_trip:
  assumes "p256_set ks" and "iterates ks order" and "MarshalJWKS ks order = Inr doc"
  shows "KeySetFromJWKS doc = Inr ks"
proof -
  obtain js where js: "mapE (\<lambda>kid. jwkFromPublic kid (the (ks_keys ks kid))) order = Inr js"
    and doc: "marshal_jwks \<lparr>jwks_Keys = js\<rparr> = Inr doc"
    using assms(3) by (auto simp: MarshalJWKS_def KeySet_JWKS_def bindE_Inr)
  have dom: "set order = dom (ks_keys ks)" using assms(2) by (simp add: iterates_def)
  have "list_all utf8_jwk js"
    using js dom assms(1)
    by (auto simp: mapE_Inr list_all_length list_all2_conv_all_nth p256_set_def subset_iff domIff
        intro!: jwkFromPublic_utf8) (metis nth_mem domIff option.collapse)+
  then have "unmarshal_jwks doc = Inr \<lparr>jwks_Keys = js\<rparr>"
    using unmarshal_jwks_marshal [OF _ doc] by simp
  moreover have "add_keys NewKeySet js = Inr \<lparr>ks_keys = ks_keys ks |` dom (ks_keys ks)\<rparr>"
    using add_keys_jwks [OF assms(1) _ js] dom by (simp add: NewKeySet_def)
  moreover have "ks_keys ks |` dom (ks_keys ks) = ks_keys ks"
    by (rule ext) (auto simp: restrict_map_def domIff)
  ultimately show ?thesis by (simp add: KeySetFromJWKS_def)
qed

section \<open>Verification\<close>

lemma check_claims_None:
  "check_claims v now c = None \<longleftrightarrow>
     c_Issuer c = v_iss v \<and> c_Audience c = v_aud v \<and>
     (c_Expiry c = 0 \<or> now \<le> unix_time (c_Expiry c) + v_leeway v) \<and>
     (c_IssuedAt c = 0 \<or> unix_time (c_IssuedAt c) \<le> now + v_leeway v)"
  by (auto simp: check_claims_def)

text \<open>The signed compact serialisation of a header and a payload part, under a public key.\<close>

definition signed_parts ::
  "'a jose_platform_scheme \<Rightarrow> ec_public \<Rightarrow> string \<Rightarrow> string \<Rightarrow> bytes \<Rightarrow> bool" where
  "signed_parts P pub p0 p1 sig \<longleftrightarrow>
     length sig = 64 \<and>
     ecdsa_Verify P pub (hash_sum P SHA256 (bytes_of (p0 @ CHR ''.'' # p1)))
       (SetBytes (take 32 sig)) (SetBytes (drop 32 sig))"

lemma Verify_parts:
  "split_on CHR ''.'' token = [p0, p1, p2] \<Longrightarrow>
   Verifier_Verify P W v token = Inr claims \<longleftrightarrow>
     (\<exists>hb hdr pub sig pl. url_decode p0 = Inr hb \<and> unmarshal_header hb = Inr hdr \<and>
        Alg hdr = ''ES256'' \<and> ks_keys (v_keys v) (Kid hdr) = Some pub \<and>
        url_decode p2 = Inr sig \<and> signed_parts P pub p0 p1 sig \<and>
        url_decode p1 = Inr pl \<and> unmarshal_claims pl = Inr claims \<and>
        check_claims v (v_now v W) claims = None)"
  (is "_ \<Longrightarrow> _ \<longleftrightarrow> ?R")
proof
  assume "split_on CHR ''.'' token = [p0, p1, p2]" and "Verifier_Verify P W v token = Inr claims"
  then show ?R
    by (auto simp: Verifier_Verify_def result_simps KeySet_get_def signed_parts_def p256ByteLen_def
        Let_def split: option.splits if_splits)
next
  assume "split_on CHR ''.'' token = [p0, p1, p2]" and ?R
  then show "Verifier_Verify P W v token = Inr claims"
    by (elim exE conjE)
      (simp add: Verifier_Verify_def KeySet_get_def signed_parts_def p256ByteLen_def Let_def)
qed

lemma Verify_three:
  assumes "Verifier_Verify P W v token = Inr claims"
  shows "\<exists>p0 p1 p2. split_on CHR ''.'' token = [p0, p1, p2]"
  using assms by (auto simp: Verifier_Verify_def split: list.splits)

lemma sign_Inr:
  "sign P seed key claims = Inr tok \<Longrightarrow>
     \<exists>hdr payload k r s. marshal_header \<lparr>Alg = ''ES256'', Typ = ''JWT'', Kid = KID key\<rparr> = Inr hdr \<and>
       marshal_claims claims = Inr payload \<and> Key key = Some k \<and>
       ecdsa_Sign P seed k
         (hash_sum P SHA256 (bytes_of (b64 hdr @ CHR ''.'' # b64 payload))) = Inr (r, s) \<and>
       r < 256 ^ 32 \<and> s < 256 ^ 32 \<and>
       tok = b64 hdr @ CHR ''.'' # b64 payload @ CHR ''.'' # b64 (FillBytes 32 r @ FillBytes 32 s)"
  by (auto simp: sign_def bindE_Inr fill_half_def p256ByteLen_def Let_def
      split: option.splits if_splits)

lemma split_compact:
  "split_on CHR ''.'' (b64 a @ CHR ''.'' # b64 b @ CHR ''.'' # b64 c) = [b64 a, b64 b, b64 c]"
  unfolding b64_def by (rule url64.split_three [OF dot_not_url])

lemma sign_verify:
  assumes "signs_for P k" and "Key key = Some k"
    and "valid_utf8 (KID key)" and "utf8_claims claims"
    and "ks_keys (v_keys v) (KID key) = Some (priv_Public k)"
    and "check_claims v (v_now v W) claims = None"
    and "sign P seed key claims = Inr tok"
  shows "Verifier_Verify P W v tok = Inr claims"
proof -
  let ?h = "\<lparr>Alg = ''ES256'', Typ = ''JWT'', Kid = KID key\<rparr>"
  obtain hdr payload r s where h: "marshal_header ?h = Inr hdr"
    and pl: "marshal_claims claims = Inr payload"
    and sg: "ecdsa_Sign P seed k
      (hash_sum P SHA256 (bytes_of (b64 hdr @ CHR ''.'' # b64 payload))) = Inr (r, s)"
    and rs: "r < 256 ^ 32" "s < 256 ^ 32"
    and tok: "tok = b64 hdr @ CHR ''.'' # b64 payload @ CHR ''.'' # b64 (FillBytes 32 r @ FillBytes 32 s)"
    using sign_Inr [OF assms(7)] assms(2) by auto
  have "utf8_header ?h"
    using assms(3) by (auto simp: utf8_header_def intro!: valid_utf8_ascii)
      (simp_all add: is_ascii_def ascii_char_def)
  then have hdr: "unmarshal_header hdr = Inr ?h" using unmarshal_header_marshal h by blast
  have cl: "unmarshal_claims payload = Inr claims" using unmarshal_claims_marshal pl assms(4) by blast
  have "signed_parts P (priv_Public k) (b64 hdr) (b64 payload) (FillBytes 32 r @ FillBytes 32 s)"
    using assms(1) sg rs by (auto simp: signs_for_def signed_parts_def SetBytes_FillBytes_id)
  then show ?thesis
    using hdr cl assms(5, 6) by (simp add: tok Verify_parts [OF split_compact])
qed

lemma issue_claims_current:
  assumes "v_iss v = i_iss i" and "v_aud v = i_aud i"
    and "go_time now" and "go_time (now + i_ttl i)"
    and "now \<le> t + v_leeway v" and "t + second \<le> now + i_ttl i + v_leeway v"
  shows "check_claims v t (issue_claims i s jti now) = None"
  using assms unix_time_le [OF assms(3)] unix_time_gt [OF assms(4)]
  by (auto simp: check_claims_None issue_claims_def)

lemma time_unix_range: "in_int64 (time_unix t)"
  by (simp add: time_unix_def wrap64_range)

definition utf8_subject :: "assertion_Subject \<Rightarrow> bool" where
  "utf8_subject s \<longleftrightarrow> list_all valid_utf8
     [s_NationalID s, s_Country s, s_GivenName s, s_FamilyName s, s_LoA s]"

lemma issue_claims_utf8:
  "utf8_subject s \<Longrightarrow> valid_utf8 jti \<Longrightarrow> valid_utf8 (i_iss i) \<Longrightarrow> valid_utf8 (i_aud i) \<Longrightarrow>
     utf8_claims (issue_claims i s jti now)"
  by (auto simp: utf8_subject_def utf8_claims_def issue_claims_def time_unix_range
      intro!: valid_utf8_ascii) (simp_all add: is_ascii_def ascii_char_def)

lemma Issue_Inr:
  "Issue P W i s = Inr tok \<longleftrightarrow> s_NationalID s \<noteq> [] \<and>
     (\<exists>jti. i_genJTI i W = Inr jti \<and>
        sign P (w_seed W) (i_key i) (issue_claims i s jti (i_now i W)) = Inr tok)"
  by (auto simp: Issue_def bindE_Inr)

text \<open>An assertion is ASCII text.\<close>

lemma sign_utf8: "sign P seed key claims = Inr tok \<Longrightarrow> valid_utf8 tok"
  using b64_is_ascii
  by (auto simp: sign_def bindE_Inr b64_def Let_def is_ascii_def ascii_char_def list_all_append
      intro!: valid_utf8_ascii split: option.splits)

lemma Issue_utf8: "Issue P W i s = Inr tok \<Longrightarrow> valid_utf8 tok"
  by (auto simp: Issue_Inr dest: sign_utf8)

lemma NewIssuer_Inr:
  "NewIssuer key iss aud ttl [] = Inr i \<longleftrightarrow>
     (\<exists>k. Key key = Some k \<and> Curve (priv_Public k) = P256) \<and> KID key \<noteq> [] \<and> iss \<noteq> [] \<and> aud \<noteq> [] \<and>
     i = \<lparr>i_key = key, i_iss = iss, i_aud = aud, i_ttl = (if ttl \<le> 0 then 2 * minute else ttl),
          i_now = w_now, i_genJTI = randomJTI\<rparr>"
  by (auto simp: NewIssuer_def defaultIssuerTTL_def split: option.splits)

lemma randomJTI_utf8: "randomJTI W = Inr jti \<Longrightarrow> valid_utf8 jti"
  by (auto simp: randomJTI_def bindE_Inr b64_ascii)

section \<open>A sample JOSE platform\<close>

text \<open>
  A signature scheme that satisfies \<open>signs_for\<close>, with the base point of P-256 as the public key.
\<close>

definition base_point :: ec_public where
  "base_point = \<lparr>Curve = P256,
     ecX = 48439561293906451759052585252797914202762949526041747995844080717082404635286,
     ecY = 36134250956749795798585127919587881956611106672985015071877198253568414405109\<rparr>"

definition sample_key :: ec_private where
  "sample_key = \<lparr>priv_Public = base_point, priv_D = 1\<rparr>"

definition sample_jose :: jose_platform where
  "sample_jose = platform.extend sample_platform
     (jose_platform.fields (\<lambda>seed c. Inr sample_key) (\<lambda>seed k d. Inr (1, 2)))"

lemma sample_jose_fields [simp]:
  "hash_sum sample_jose h d = d" "ecdsa_Verify sample_jose k d r s \<longleftrightarrow> r = 1 \<and> s = 2"
  "ecdsa_Sign sample_jose seed sk d = Inr (1, 2)"
  by (simp_all add: sample_jose_def sample_platform_def platform.defs jose_platform.defs)

lemma sample_signs_for: "signs_for sample_jose k"
  by (simp add: signs_for_def)

lemma base_point_on_curve: "on_curve base_point"
proof -
  let ?p = "115792089210356248762697446949407573530086143415290314195533631308867097853951 :: nat"
  let ?x = "48439561293906451759052585252797914202762949526041747995844080717082404635286 :: nat"
  let ?y = "36134250956749795798585127919587881956611106672985015071877198253568414405109 :: nat"
  let ?r = "38841243268434338802906935583467503580982897597684987572860931569745790234001 :: nat"
  have "?y * ?y =
      11276107902616505813297874115423378275166393229135779582683496500509631641880 * ?p + ?r"
    by simp
  moreover have "?x * ?x * ?x + (?p - 3) * ?x + curve_B P256 =
      981570988164258562257936101525215858910690391106138407341175333813841188485261487412605372841583104686333854138388118582640433620635866693747671541792774 * ?p + ?r"
    by simp
  ultimately have eqs: "(?y * ?y) mod ?p = ?r mod ?p"
    "(?x * ?x * ?x + (?p - 3) * ?x + curve_B P256) mod ?p = ?r mod ?p"
    by (simp_all only: mod_mult_self3)
  have "curve_P P256 = ?p" "?x < ?p" "?y < ?p" by simp_all
  then show ?thesis by (simp only: on_curve_def base_point_def ec_public.simps Let_def eqs simp_thms)
qed

section \<open>Properties\<close>

lemma Issuer_KeySet_Some:
  "Key (i_key i) = Some k \<Longrightarrow> KID (i_key i) \<noteq> [] \<Longrightarrow>
     ks_keys (Issuer_KeySet i) = [KID (i_key i) \<mapsto> priv_Public k]"
  by (simp add: Issuer_KeySet_def KeySet_Add_def NewKeySet_def)

lemma issue_verify:
  assumes "Key key = Some k" and "signs_for P k"
    and "valid_utf8 (KID key)" and "valid_utf8 iss" and "valid_utf8 aud" and "utf8_subject subj"
    and "NewIssuer key iss aud ttl [] = Inr i"
    and "iterates (Issuer_KeySet i) order" and "Issuer_JWKS i order = Inr doc"
    and "go_time (w_now W)" and "go_time (w_now W + i_ttl i)"
    and "Issue P W i subj = Inr tok"
    and "w_now W \<le> w_now W' + 30 * second" and "w_now W' \<le> w_now W + i_ttl i + 29 * second"
  shows "\<exists>ks v claims. KeySetFromJWKS doc = Inr ks \<and> NewVerifier (Some ks) iss aud [] = Inr v \<and>
     Verifier_Verify P W' v tok = Inr claims \<and>
     c_Subject claims = s_NationalID subj \<and> c_NationalID claims = s_NationalID subj \<and>
     c_Country claims = s_Country subj \<and> c_GivenName claims = s_GivenName subj \<and>
     c_FamilyName claims = s_FamilyName subj \<and> c_LoA claims = s_LoA subj \<and>
     c_LoginMethod claims = ''webEid''"
proof -
  from assms(7) have i: "i_key i = key" "i_iss i = iss" "i_aud i = aud" "i_now i = w_now"
    "i_genJTI i = randomJTI" and ok: "KID key \<noteq> []" "iss \<noteq> []" "aud \<noteq> []" "Curve (priv_Public k) = P256"
    using assms(1) by (auto simp: NewIssuer_Inr)
  have keys: "ks_keys (Issuer_KeySet i) = [KID key \<mapsto> priv_Public k]"
    using Issuer_KeySet_Some [of i k] i ok assms(1) by simp
  have "p256_set (Issuer_KeySet i)"
    using keys ok assms(3) by (auto simp: p256_set_def split: if_splits)
  from jwks_round_trip [OF this assms(8)]
  have ks: "KeySetFromJWKS doc = Inr (Issuer_KeySet i)"
    using assms(9) by (simp add: Issuer_JWKS_def)
  let ?v = "\<lparr>v_keys = Issuer_KeySet i, v_iss = iss, v_aud = aud, v_leeway = 30 * second, v_now = w_now\<rparr>"
  have v: "NewVerifier (Some (Issuer_KeySet i)) iss aud [] = Inr ?v"
    using ok by (simp add: NewVerifier_def)
  obtain jti where jti: "randomJTI W = Inr jti"
    and sg: "sign P (w_seed W) key (issue_claims i subj jti (w_now W)) = Inr tok"
    using assms(12) i by (auto simp: Issue_Inr)
  let ?c = "issue_claims i subj jti (w_now W)"
  have "utf8_claims ?c"
    using issue_claims_utf8 [OF assms(6) randomJTI_utf8 [OF jti]] i assms(4, 5) by simp
  moreover have "check_claims ?v (v_now ?v W') ?c = None"
    using issue_claims_current [of ?v i "w_now W" "w_now W'" subj jti] assms(10, 11, 13, 14) i
    by (simp add: second_def)
  ultimately have "Verifier_Verify P W' ?v tok = Inr ?c"
    using sign_verify [OF assms(2, 1, 3), of ?c ?v W' "w_seed W" tok] keys sg by simp
  then show ?thesis using ks v by (auto simp: issue_claims_def)
qed

text \<open>C11: End to end: an assertion issued for a subject is accepted by a verifier that was given nothing
  but the published JWK set, the issuer and the audience, at every clock reading from 30 seconds before
  the issue until 29 seconds after the lifetime, and the verifier reads back exactly the subject.\<close>

theorem assertion_end_to_end:
  assumes "Key key = Some k" and "signs_for P k"
    and "valid_utf8 (KID key)" and "valid_utf8 iss" and "valid_utf8 aud" and "utf8_subject subj"
    and "NewIssuer key iss aud ttl [] = Inr i"
    and "iterates (Issuer_KeySet i) order" and "Issuer_JWKS i order = Inr doc"
    and "go_time (w_now W)" and "go_time (w_now W + i_ttl i)"
    and "Issue P W i subj = Inr tok"
    and "w_now W \<le> w_now W' + 30 * second" and "w_now W' \<le> w_now W + i_ttl i + 29 * second"
  shows "\<exists>ks v claims. KeySetFromJWKS doc = Inr ks \<and> NewVerifier (Some ks) iss aud [] = Inr v \<and>
     Verifier_Verify P W' v tok = Inr claims \<and>
     c_Subject claims = s_NationalID subj \<and> c_NationalID claims = s_NationalID subj \<and>
     c_Country claims = s_Country subj \<and> c_GivenName claims = s_GivenName subj \<and>
     c_FamilyName claims = s_FamilyName subj \<and> c_LoA claims = s_LoA subj \<and>
     c_LoginMethod claims = ''webEid''"
  by (rule issue_verify [OF assms])

definition sample_signing_key :: SigningKey where
  "sample_signing_key = \<lparr>KID = ''k1'', Key = Some sample_key\<rparr>"

definition sample_world :: "time \<Rightarrow> world" where
  "sample_world t = \<lparr>w_now = t, w_rand = (\<lambda>n. Inr (replicate n 7)), w_seed = 0\<rparr>"

definition sample_subject :: assertion_Subject where
  "sample_subject = \<lparr>s_NationalID = ''PNOLV-1'', s_Country = ''LV'', s_GivenName = ''LIGA'',
     s_FamilyName = ''KALNINA'', s_LoA = ''high''\<rparr>"

definition sample_issuer :: Issuer where
  "sample_issuer = \<lparr>i_key = sample_signing_key, i_iss = ''https://i'', i_aud = ''svc:auth'',
     i_ttl = 2 * minute, i_now = w_now, i_genJTI = randomJTI\<rparr>"

lemma sample_issuer_new: "NewIssuer sample_signing_key ''https://i'' ''svc:auth'' 0 [] = Inr sample_issuer"
  by (simp add: NewIssuer_Inr sample_issuer_def sample_signing_key_def sample_key_def base_point_def)

lemma sample_ascii:
  "valid_utf8 ''k1''" "valid_utf8 ''https://i''" "valid_utf8 ''svc:auth''" "utf8_subject sample_subject"
  by (simp_all add: utf8_subject_def sample_subject_def valid_utf8_ascii is_ascii_def ascii_char_def)

lemma sample_jwks: "\<exists>doc. Issuer_JWKS sample_issuer [''k1''] = Inr doc"
  by (simp add: Issuer_JWKS_def MarshalJWKS_def KeySet_JWKS_def jwkFromPublic_def ec_Bytes_def
      sample_issuer_def sample_signing_key_def sample_key_def Issuer_KeySet_def KeySet_Add_def
      NewKeySet_def base_point_on_curve marshal_jwks_def Let_def)

lemma sample_issue: "\<exists>tok. Issue sample_jose (sample_world 0) sample_issuer sample_subject = Inr tok"
  by (simp add: Issue_def sample_subject_def sample_issuer_def randomJTI_def sample_world_def sign_def
      sample_signing_key_def fill_half_def p256ByteLen_def marshal_header_def marshal_claims_def Let_def)

theorem assertion_end_to_end_witness:
  "\<exists>doc tok ks v claims. Issuer_JWKS sample_issuer [''k1''] = Inr doc \<and>
     Issue sample_jose (sample_world 0) sample_issuer sample_subject = Inr tok \<and>
     KeySetFromJWKS doc = Inr ks \<and> NewVerifier (Some ks) ''https://i'' ''svc:auth'' [] = Inr v \<and>
     Verifier_Verify sample_jose (sample_world (60 * second)) v tok = Inr claims \<and>
     c_Subject claims = ''PNOLV-1''"
proof -
  obtain doc where doc: "Issuer_JWKS sample_issuer [''k1''] = Inr doc" using sample_jwks by blast
  obtain tok where tok: "Issue sample_jose (sample_world 0) sample_issuer sample_subject = Inr tok"
    using sample_issue by blast
  have key: "Key sample_signing_key = Some sample_key" "valid_utf8 (KID sample_signing_key)"
    by (simp_all add: sample_signing_key_def sample_ascii)
  have it: "iterates (Issuer_KeySet sample_issuer) [''k1'']"
    by (simp add: iterates_def sample_issuer_def sample_signing_key_def Issuer_KeySet_def KeySet_Add_def
        NewKeySet_def)
  have t: "go_time (w_now (sample_world 0))" "go_time (w_now (sample_world 0) + i_ttl sample_issuer)"
    "w_now (sample_world 0) \<le> w_now (sample_world (60 * second)) + 30 * second"
    "w_now (sample_world (60 * second)) \<le> w_now (sample_world 0) + i_ttl sample_issuer + 29 * second"
    by (simp_all add: go_time_def sample_world_def sample_issuer_def in_int64_def min_int64_def
        max_int64_def unixToInternal_def minute_def second_def)
  show ?thesis
    using assertion_end_to_end [OF key(1) sample_signs_for key(2) sample_ascii(2-4)
        sample_issuer_new it doc t(1, 2) tok t(3, 4)] doc tok
    by (auto simp: sample_subject_def)
qed

text \<open>C12: A verifier accepts a string as an assertion with given claims exactly when it has three parts,
  its header names ES256 and a key id of the verifier's key set, its third part is the 64 bytes of
  an ECDSA signature under that key over the first two parts as transmitted, its second part decodes
  to the claims, issuer and audience are the configured ones, and the clock is within the claims'
  lifetime up to the leeway (a zero expiry or issue time is not checked).\<close>

theorem assertion_Verify_iff:
  "Verifier_Verify P W v token = Inr claims \<longleftrightarrow>
     (\<exists>p0 p1 p2 hb hdr pub sig pl.
        token = p0 @ ''.'' @ p1 @ ''.'' @ p2 \<and> CHR ''.'' \<notin> set p0 \<union> set p1 \<union> set p2 \<and>
        RawURLEncoding_DecodeString p0 = Some hb \<and> unmarshal_header hb = Inr hdr \<and>
        Alg hdr = ''ES256'' \<and> ks_keys (v_keys v) (Kid hdr) = Some pub \<and>
        RawURLEncoding_DecodeString p2 = Some sig \<and> length sig = 64 \<and>
        ecdsa_Verify P pub (hash_sum P SHA256 (bytes_of (p0 @ ''.'' @ p1)))
          (SetBytes (take 32 sig)) (SetBytes (drop 32 sig)) \<and>
        RawURLEncoding_DecodeString p1 = Some pl \<and> unmarshal_claims pl = Inr claims \<and>
        c_Issuer claims = v_iss v \<and> c_Audience claims = v_aud v \<and>
        (c_Expiry claims = 0 \<or> v_now v W \<le> unix_time (c_Expiry claims) + v_leeway v) \<and>
        (c_IssuedAt claims = 0 \<or> unix_time (c_IssuedAt claims) \<le> v_now v W + v_leeway v))"
proof -
  have dec: "url_decode p = Inr b \<longleftrightarrow> RawURLEncoding_DecodeString p = Some b" for p b
    by (auto simp: url_decode_def split: option.splits)
  have three: "split_on CHR ''.'' token = [p0, p1, p2] \<longleftrightarrow>
      token = p0 @ ''.'' @ p1 @ ''.'' @ p2 \<and> CHR ''.'' \<notin> set p0 \<union> set p1 \<union> set p2" for p0 p1 p2
    using join_split_on [of "CHR ''.''" token] split_on_parts [of _ "CHR ''.''" token]
    by (auto simp: split_on_append split_on_no_sep)
  have "Verifier_Verify P W v token = Inr claims \<longleftrightarrow>
      (\<exists>p0 p1 p2. split_on CHR ''.'' token = [p0, p1, p2] \<and> Verifier_Verify P W v token = Inr claims)"
    using Verify_three by blast
  also have "\<dots> \<longleftrightarrow> (\<exists>p0 p1 p2. split_on CHR ''.'' token = [p0, p1, p2] \<and>
     (\<exists>hb hdr pub sig pl. url_decode p0 = Inr hb \<and> unmarshal_header hb = Inr hdr \<and>
        Alg hdr = ''ES256'' \<and> ks_keys (v_keys v) (Kid hdr) = Some pub \<and>
        url_decode p2 = Inr sig \<and> signed_parts P pub p0 p1 sig \<and>
        url_decode p1 = Inr pl \<and> unmarshal_claims pl = Inr claims \<and>
        check_claims v (v_now v W) claims = None))"
    by (intro ex_cong1 conj_cong refl) (erule Verify_parts)
  finally show ?thesis
    by (simp only: three dec signed_parts_def check_claims_None ex_simps(2) [symmetric] conj_assoc
        append_Cons append_Nil)
qed

text \<open>C32: Publishing a P-256 key set as a JWK document and reading the document back gives the same key
  set, in whatever order the entries were written.\<close>

theorem JWKS_round_trip:
  assumes "iterates ks order"
    and "\<And>kid k. ks_keys ks kid = Some k \<Longrightarrow> kid \<noteq> [] \<and> valid_utf8 kid \<and> Curve k = P256"
    and "MarshalJWKS ks order = Inr doc"
  shows "KeySetFromJWKS doc = Inr ks"
  using jwks_round_trip [OF _ assms(1, 3)] assms(2) by (simp add: p256_set_def)

theorem JWKS_round_trip_witness:
  "\<exists>doc. MarshalJWKS (Issuer_KeySet sample_issuer) [''k1''] = Inr doc \<and>
     KeySetFromJWKS doc = Inr (Issuer_KeySet sample_issuer)"
proof -
  obtain doc where doc: "MarshalJWKS (Issuer_KeySet sample_issuer) [''k1''] = Inr doc"
    using sample_jwks by (auto simp: Issuer_JWKS_def)
  have keys: "ks_keys (Issuer_KeySet sample_issuer) = [''k1'' \<mapsto> base_point]"
    by (simp add: Issuer_KeySet_Some sample_issuer_def sample_signing_key_def sample_key_def)
  have "iterates (Issuer_KeySet sample_issuer) [''k1'']" by (simp add: iterates_def keys)
  moreover have "kid \<noteq> [] \<and> valid_utf8 kid \<and> Curve k = P256"
    if "ks_keys (Issuer_KeySet sample_issuer) kid = Some k" for kid k
    using that sample_ascii(1) by (auto simp: keys base_point_def split: if_splits)
  ultimately show ?thesis using JWKS_round_trip [OF _ _ doc] doc by blast
qed

text \<open>A JWK coordinate with its leading zero bytes stripped, or with too few of them, describes the
  same key as the full-width one; and no point off the curve ever becomes a key.\<close>

theorem p256_stripped_coordinates:
  assumes "length xb + a \<le> 32" and "length yb + b \<le> 32"
  shows "p256PublicKey (replicate a 0 @ xb) (replicate b 0 @ yb) = p256PublicKey xb yb \<and>
     (\<forall>k. p256PublicKey xb yb = Inr k \<longleftrightarrow>
        on_curve k \<and> k = \<lparr>Curve = P256, ecX = SetBytes xb, ecY = SetBytes yb\<rparr>)"
  using assms by (auto simp: p256PublicKey_eq SetBytes_zeros Let_def)

theorem p256_stripped_coordinates_witness:
  "p256PublicKey (replicate 31 0 @ [5]) (replicate 2 0 @ [1, 2]) = p256PublicKey [5] [1, 2]"
  using p256_stripped_coordinates [of "[5]" 31 "[1, 2]" 2] by simp

end
