(* ===== verification/Nonce.thy ===== *)
theory Nonce
  imports Platform "HOL-Library.Multiset"
begin

text \<open>
  \<^verbatim>\<open>src/store.go\<close>, \<^verbatim>\<open>store_memory.go\<close> and \<^verbatim>\<open>nonce.go\<close>: challenge nonces, the store
  interface, the in-process store and the nonce generator with its builder. The interface
  \<^verbatim>\<open>ChallengeNonceStore\<close> is a record of operations over a store state; an operation is atomic
  (the in-process store holds its mutex throughout) and receives the clock reading it uses. The
  locale \<open>nonce_store\<close> states the contract the interface documents, and single use is proved
  from it for every sequence of operations.
\<close>

section \<open>Nonces and the store interface\<close>

record ChallengeNonce =
  Base64EncodedNonce :: string
  IssuedAt :: time

definition Expired :: "ChallengeNonce \<Rightarrow> time \<Rightarrow> duration \<Rightarrow> bool" where
  "Expired n now ttl \<longleftrightarrow> time_sub now (IssuedAt n) > ttl"

record ('c, 's) ChallengeNonceStore =
  Put :: "time \<Rightarrow> 'c \<Rightarrow> ChallengeNonce \<Rightarrow> 's \<Rightarrow> goerror option \<times> 's"
  GetAndRemove :: "time \<Rightarrow> 'c \<Rightarrow> 's \<Rightarrow> ChallengeNonce result \<times> 's"

definition errStoreNil :: goerror where
  "errStoreNil = ErrorString ''a ChallengeNonceStore is required''"

section \<open>The in-process store\<close>

definition minNonceBytes :: int where "minNonceBytes = 32"
definition DefaultNonceTTL :: duration where "DefaultNonceTTL = 5 * minute"

record 'c InMemoryStore =
  sessionKey :: "'c \<Rightarrow> string result"
  mem_ttl :: duration
  entries :: "string \<rightharpoonup> ChallengeNonce"

definition NewInMemoryStore :: "('c \<Rightarrow> string result) \<Rightarrow> duration \<Rightarrow> 'c InMemoryStore" where
  "NewInMemoryStore sk ttl =
     \<lparr>sessionKey = sk, mem_ttl = (if ttl \<le> 0 then DefaultNonceTTL else ttl), entries = Map.empty\<rparr>"

definition sweepLocked :: "time \<Rightarrow> 'c InMemoryStore \<Rightarrow> 'c InMemoryStore" where
  "sweepLocked now s = s\<lparr>entries := (\<lambda>k. case entries s k of
       None \<Rightarrow> None
     | Some n \<Rightarrow> if Expired n now (mem_ttl s) then None else Some n)\<rparr>"

definition InMemoryStore_Put ::
  "time \<Rightarrow> 'c \<Rightarrow> ChallengeNonce \<Rightarrow> 'c InMemoryStore \<Rightarrow> goerror option \<times> 'c InMemoryStore" where
  "InMemoryStore_Put now ctx nonce s =
     (case sessionKey s ctx of
        Inl err \<Rightarrow> (Some err, s)
      | Inr key \<Rightarrow>
          let s1 = sweepLocked now s
          in (None, s1\<lparr>entries := (entries s1)(key \<mapsto> nonce)\<rparr>))"

definition InMemoryStore_GetAndRemove ::
  "time \<Rightarrow> 'c \<Rightarrow> 'c InMemoryStore \<Rightarrow> ChallengeNonce result \<times> 'c InMemoryStore" where
  "InMemoryStore_GetAndRemove now ctx s =
     (case sessionKey s ctx of
        Inl err \<Rightarrow> (Inl err, s)
      | Inr key \<Rightarrow>
          (case entries s key of
             None \<Rightarrow> (Inl (Typed ErrChallengeNonceNotFound), s)
           | Some nonce \<Rightarrow> (Inr nonce, s\<lparr>entries := (entries s)(key := None)\<rparr>)))"

definition memory_store :: "('c, 'c InMemoryStore) ChallengeNonceStore" where
  "memory_store = \<lparr>Put = InMemoryStore_Put, GetAndRemove = InMemoryStore_GetAndRemove\<rparr>"

section \<open>The generator\<close>

text \<open>A random source: what its read with the given number yields for the given number of bytes.\<close>

type_synonym io_reader = "nat \<Rightarrow> nat \<Rightarrow> bytes result"

text \<open>The field \<^verbatim>\<open>now\<close> is always \<^verbatim>\<open>time.Now\<close>: its reading is an argument of the operation that calls it.
  Generating a nonce reads the clock once for the stamp and lets the store read it again.\<close>

record ('c, 's) challengeNonceGenerator =
  gen_store :: "('c, 's) ChallengeNonceStore"
  gen_nonceSize :: int
  gen_random :: io_reader

definition GenerateAndStoreNonce ::
  "('c, 's) challengeNonceGenerator \<Rightarrow> nat \<Rightarrow> time \<Rightarrow> time \<Rightarrow> 'c \<Rightarrow> 's \<Rightarrow> ChallengeNonce result \<times> 's" where
  "GenerateAndStoreNonce g rd now put_now ctx s =
     (case gen_random g rd (nat (gen_nonceSize g)) of
        Inl err \<Rightarrow> (Inl err, s)
      | Inr buf \<Rightarrow>
          let nonce = \<lparr>Base64EncodedNonce = StdEncoding_EncodeToString buf, IssuedAt = now\<rparr> in
          (case Put (gen_store g) put_now ctx nonce s of
             (Some err, s') \<Rightarrow> (Inl err, s')
           | (None, s') \<Rightarrow> (Inr nonce, s')))"

record ('c, 's) ChallengeNonceGeneratorBuilder =
  b_store :: "('c, 's) ChallengeNonceStore option"
  b_ttl :: duration
  b_nonceSize :: int
  b_random :: io_reader

definition NewChallengeNonceGeneratorBuilder ::
  "io_reader \<Rightarrow> ('c, 's) ChallengeNonceGeneratorBuilder" where
  "NewChallengeNonceGeneratorBuilder reader =
     \<lparr>b_store = None, b_ttl = DefaultNonceTTL, b_nonceSize = minNonceBytes, b_random = reader\<rparr>"

definition WithChallengeNonceStore ::
  "('c, 's) ChallengeNonceStore option \<Rightarrow> ('c, 's) ChallengeNonceGeneratorBuilder \<Rightarrow>
   ('c, 's) ChallengeNonceGeneratorBuilder" where
  "WithChallengeNonceStore store b = b\<lparr>b_store := store\<rparr>"

definition WithNonceTTL ::
  "duration \<Rightarrow> ('c, 's) ChallengeNonceGeneratorBuilder \<Rightarrow> ('c, 's) ChallengeNonceGeneratorBuilder" where
  "WithNonceTTL ttl b = (if ttl > 0 then b\<lparr>b_ttl := ttl\<rparr> else b)"

definition WithNonceSize ::
  "int \<Rightarrow> ('c, 's) ChallengeNonceGeneratorBuilder \<Rightarrow> ('c, 's) ChallengeNonceGeneratorBuilder" where
  "WithNonceSize n b = (if n \<ge> minNonceBytes then b\<lparr>b_nonceSize := n\<rparr> else b)"

definition WithSecureRandom ::
  "io_reader option \<Rightarrow> ('c, 's) ChallengeNonceGeneratorBuilder \<Rightarrow>
   ('c, 's) ChallengeNonceGeneratorBuilder" where
  "WithSecureRandom r b = (case r of None \<Rightarrow> b | Some rd \<Rightarrow> b\<lparr>b_random := rd\<rparr>)"

text \<open>\<^verbatim>\<open>Build\<close> also normalises the builder's TTL in place, so the new builder is returned too.\<close>

definition Generator_Build ::
  "('c, 's) ChallengeNonceGeneratorBuilder \<Rightarrow>
   ('c, 's) challengeNonceGenerator result \<times> ('c, 's) ChallengeNonceGeneratorBuilder" where
  "Generator_Build b =
     (case b_store b of
        None \<Rightarrow> (Inl errStoreNil, b)
      | Some store \<Rightarrow>
          let b1 = (if b_ttl b \<le> 0 then b\<lparr>b_ttl := DefaultNonceTTL\<rparr> else b)
          in (Inr \<lparr>gen_store = store, gen_nonceSize = b_nonceSize b1, gen_random = b_random b1\<rparr>, b1))"

section \<open>The contract of a store\<close>

datatype 'c store_op = PutOp time 'c ChallengeNonce | GetOp time 'c

datatype 'c outcome = PutDone 'c ChallengeNonce "goerror option" | GetDone 'c "ChallengeNonce result"

text \<open>A sequence of operations against one store, with the outcome of each.\<close>

fun run_ops :: "('c, 's) ChallengeNonceStore \<Rightarrow> 'c store_op list \<Rightarrow> 's \<Rightarrow> 'c outcome list \<times> 's" where
  "run_ops st [] s = ([], s)"
| "run_ops st (PutOp t c n # ops) s =
     (let (e, s1) = Put st t c n s; (log, s2) = run_ops st ops s1 in (PutDone c n e # log, s2))"
| "run_ops st (GetOp t c # ops) s =
     (let (r, s1) = GetAndRemove st t c s; (log, s2) = run_ops st ops s1 in (GetDone c r # log, s2))"

fun puts_only :: "(ChallengeNonce \<Rightarrow> bool) \<Rightarrow> 'c store_op list \<Rightarrow> bool" where
  "puts_only ok [] = True"
| "puts_only ok (PutOp t c n # ops) = (ok n \<and> puts_only ok ops)"
| "puts_only ok (GetOp t c # ops) = puts_only ok ops"

fun is_issue :: "('c \<Rightarrow> string result) \<Rightarrow> string \<Rightarrow> ChallengeNonce \<Rightarrow> 'c outcome \<Rightarrow> bool" where
  "is_issue key k n (PutDone c m e) = (key c = Inr k \<and> m = n)"
| "is_issue key k n (GetDone c r) = False"

fun is_take :: "('c \<Rightarrow> string result) \<Rightarrow> string \<Rightarrow> ChallengeNonce \<Rightarrow> 'c outcome \<Rightarrow> bool" where
  "is_take key k n (PutDone c m e) = False"
| "is_take key k n (GetDone c r) = (key c = Inr k \<and> r = Inr n)"

definition issued :: "('c \<Rightarrow> string result) \<Rightarrow> string \<Rightarrow> ChallengeNonce \<Rightarrow> 'c outcome list \<Rightarrow> nat" where
  "issued key k n log = length (filter (is_issue key k n) log)"

definition taken :: "('c \<Rightarrow> string result) \<Rightarrow> string \<Rightarrow> ChallengeNonce \<Rightarrow> 'c outcome list \<Rightarrow> nat" where
  "taken key k n log = length (filter (is_take key k n) log)"

text \<open>
  \<open>holds s k\<close> is the nonce the store keeps for session \<open>k\<close>, \<open>storable\<close> the nonces it can
  represent exactly. A successful \<^verbatim>\<open>Put\<close> makes it
  the given nonce; no operation makes it a nonce other than the one put for that session; a
  \<^verbatim>\<open>GetAndRemove\<close> that returns a nonce returns the one held and removes it.
\<close>

locale nonce_store =
  fixes st :: "('c, 's) ChallengeNonceStore"
    and key :: "'c \<Rightarrow> string result"
    and holds :: "'s \<Rightarrow> string \<Rightarrow> ChallengeNonce option"
    and invar :: "'s \<Rightarrow> bool"
    and storable :: "ChallengeNonce \<Rightarrow> bool"
  assumes put_invar: "invar s \<Longrightarrow> Put st t c n s = (e, s') \<Longrightarrow> invar s'"
    and get_invar: "invar s \<Longrightarrow> GetAndRemove st t c s = (r, s') \<Longrightarrow> invar s'"
    and put_stores: "invar s \<Longrightarrow> storable n \<Longrightarrow> Put st t c n s = (None, s') \<Longrightarrow>
      \<exists>k. key c = Inr k \<and> holds s' k = Some n"
    and put_frame: "invar s \<Longrightarrow> storable n \<Longrightarrow> Put st t c n s = (e, s') \<Longrightarrow>
      holds s' k = Some m \<Longrightarrow> holds s k = Some m \<or> key c = Inr k \<and> m = n"
    and get_takes: "invar s \<Longrightarrow> GetAndRemove st t c s = (Inr n, s') \<Longrightarrow>
      \<exists>k. key c = Inr k \<and> holds s k = Some n \<and> holds s' k = None"
    and get_frame: "invar s \<Longrightarrow> GetAndRemove st t c s = (r, s') \<Longrightarrow> holds s' k = Some m \<Longrightarrow>
      holds s k = Some m"
begin

text \<open>Over any run, a session takes a nonce out at most as often as it was put in for that session.\<close>

lemma single_use:
  "invar s \<Longrightarrow> puts_only storable ops \<Longrightarrow> run_ops st ops s = (log, s') \<Longrightarrow>
     taken key k n log + (if holds s' k = Some n then 1 else 0)
       \<le> issued key k n log + (if holds s k = Some n then 1 else 0)"
proof (induction ops arbitrary: s log)
  case Nil
  then show ?case by (simp add: taken_def issued_def)
next
  case (Cons op ops)
  show ?case
  proof (cases op)
    case (PutOp t c m)
    obtain e s1 where put: "Put st t c m s = (e, s1)" by fastforce
    obtain log1 where run: "run_ops st ops s1 = (log1, s')" and log: "log = PutDone c m e # log1"
      using Cons.prems(3) PutOp put by (auto split: prod.splits)
    have ok: "storable m" "puts_only storable ops" using Cons.prems(2) PutOp by auto
    have "invar s1" using put_invar Cons.prems(1) put by blast
    from Cons.IH [OF this ok(2) run] show ?thesis
      using put_frame [OF Cons.prems(1) ok(1) put, of k n]
      by (auto simp: log taken_def issued_def split: if_splits)
  next
    case (GetOp t c)
    obtain r s1 where get: "GetAndRemove st t c s = (r, s1)" by fastforce
    obtain log1 where run: "run_ops st ops s1 = (log1, s')" and log: "log = GetDone c r # log1"
      using Cons.prems(3) GetOp get by (auto split: prod.splits)
    have ok: "puts_only storable ops" using Cons.prems(2) GetOp by auto
    have "invar s1" using get_invar Cons.prems(1) get by blast
    from Cons.IH [OF this ok run] show ?thesis
      using get_frame [OF Cons.prems(1) get, of k n] get_takes [OF Cons.prems(1), of t c n s1] get
      by (auto simp: log taken_def issued_def split: if_splits)
  qed
qed

lemma run_invar: "invar s \<Longrightarrow> run_ops st ops s = (log, s') \<Longrightarrow> invar s'"
proof (induction ops arbitrary: s log)
  case (Cons op ops)
  then show ?case
    by (cases op) (auto split: prod.splits dest: put_invar get_invar)
qed simp

end

text \<open>
  A reliable store never loses a nonce before it is taken: it answers a \<^verbatim>\<open>GetAndRemove\<close> with the
  nonce it holds, and with \<^verbatim>\<open>ErrChallengeNonceNotFound\<close> when it holds none.
\<close>

locale reliable_nonce_store = nonce_store +
  assumes get_hit: "invar s \<Longrightarrow> key c = Inr k \<Longrightarrow> holds s k = Some n \<Longrightarrow>
      fst (GetAndRemove st t c s) = Inr n"
    and get_miss: "invar s \<Longrightarrow> key c = Inr k \<Longrightarrow> holds s k = None \<Longrightarrow>
      fst (GetAndRemove st t c s) = Inl (Typed ErrChallengeNonceNotFound)"
    and put_failed: "invar s \<Longrightarrow> Put st t c n s = (Some e, s') \<Longrightarrow> holds s' k = Some m \<Longrightarrow> holds s k = Some m"
begin

lemma put_get_get:
  assumes "invar s" and "storable n" and "Put st t c n s = (None, s1)"
  shows "\<exists>s2 s3. GetAndRemove st t1 c s1 = (Inr n, s2) \<and>
     GetAndRemove st t2 c s2 = (Inl (Typed ErrChallengeNonceNotFound), s3)"
proof -
  obtain k where k: "key c = Inr k" "holds s1 k = Some n"
    using put_stores assms by blast
  have i1: "invar s1" using put_invar assms by blast
  obtain s2 where s2: "GetAndRemove st t1 c s1 = (Inr n, s2)"
    using get_hit [OF i1 k] by (metis prod.exhaust_sel)
  have "holds s2 k = None" and i2: "invar s2"
    using get_takes [OF i1 s2] k get_invar [OF i1 s2] by auto
  then show ?thesis
    using s2 get_miss [OF i2 k(1)] by (metis prod.exhaust_sel)
qed

end

interpretation mem: reliable_nonce_store memory_store key entries "\<lambda>s. sessionKey s = key"
  "\<lambda>_. True"
  for key :: "'c \<Rightarrow> string result"
  by unfold_locales
    (auto simp: memory_store_def InMemoryStore_Put_def InMemoryStore_GetAndRemove_def
      sweepLocked_def Let_def split: sum.splits option.splits if_splits)

text \<open>
  A lasting store keeps a nonce while other sessions use it: \<open>lasts s k t\<close> says that an operation of
  another session with the clock reading \<open>t\<close> leaves what \<open>k\<close> holds in place, \<open>found s k t\<close> that a
  \<^verbatim>\<open>GetAndRemove\<close> at \<open>t\<close> returns it.
\<close>

locale lasting_nonce_store = nonce_store st key holds invar storable
  for st :: "('c, 's) ChallengeNonceStore" and key holds invar storable +
  fixes lasts found :: "'s \<Rightarrow> string \<Rightarrow> time \<Rightarrow> bool"
  assumes put_other: "invar s \<Longrightarrow> Put st t c m s = (e, s') \<Longrightarrow> key c \<noteq> Inr k \<Longrightarrow> holds s k = Some n \<Longrightarrow>
      lasts s k t \<Longrightarrow> holds s' k = Some n \<and> lasts s' k = lasts s k \<and> found s' k = found s k"
    and get_other: "invar s \<Longrightarrow> GetAndRemove st t c s = (r, s') \<Longrightarrow> key c \<noteq> Inr k \<Longrightarrow> holds s k = Some n \<Longrightarrow>
      lasts s k t \<Longrightarrow> holds s' k = Some n \<and> lasts s' k = lasts s k \<and> found s' k = found s k"
    and get_found: "invar s \<Longrightarrow> key c = Inr k \<Longrightarrow> holds s k = Some n \<Longrightarrow> found s k t \<Longrightarrow>
      fst (GetAndRemove st t c s) = Inr n"

text \<open>The in-process store keeps a nonce until a sweep finds it expired.\<close>

definition mem_lasts :: "'c InMemoryStore \<Rightarrow> string \<Rightarrow> time \<Rightarrow> bool" where
  "mem_lasts s k t \<longleftrightarrow> (\<forall>n. entries s k = Some n \<longrightarrow> \<not> Expired n t (mem_ttl s))"

interpretation mem_lasting: lasting_nonce_store memory_store key entries "\<lambda>s. sessionKey s = key"
  "\<lambda>_. True" mem_lasts "\<lambda>s k t. True"
  for key :: "'c \<Rightarrow> string result"
  by unfold_locales
    (auto simp: memory_store_def InMemoryStore_Put_def InMemoryStore_GetAndRemove_def
      sweepLocked_def mem_lasts_def fun_eq_iff Let_def split: sum.splits option.splits if_splits)

text \<open>
  A store whose state is one part of a larger state, read by \<open>get\<close> and written by
  \<open>put\<close>, keeps its contract there.
\<close>

definition lift_store ::
  "('t \<Rightarrow> 's) \<Rightarrow> ('s \<Rightarrow> 't \<Rightarrow> 't) \<Rightarrow> ('c, 's) ChallengeNonceStore \<Rightarrow> ('c, 't) ChallengeNonceStore" where
  "lift_store get put st =
     \<lparr>Put = (\<lambda>t c n s. let (e, s') = Put st t c n (get s) in (e, put s' s)),
      GetAndRemove = (\<lambda>t c s. let (r, s') = GetAndRemove st t c (get s) in (r, put s' s))\<rparr>"

locale store_part = nonce_store st key holds invar storable
  for st :: "('c, 's) ChallengeNonceStore" and key holds invar storable +
  fixes get :: "'t \<Rightarrow> 's" and put :: "'s \<Rightarrow> 't \<Rightarrow> 't"
  assumes get_put: "get (put x t) = x"

sublocale store_part \<subseteq> whole: nonce_store "lift_store get put st" key
  "\<lambda>t. holds (get t)" "\<lambda>t. invar (get t)" storable
proof (unfold_locales, goal_cases)
  case (1 s t c n e s')
  then show ?case using put_invar [of "get s" t c n] by (auto simp: lift_store_def get_put split: prod.splits)
next
  case (2 s t c r s')
  then show ?case using get_invar [of "get s" t c] by (auto simp: lift_store_def get_put split: prod.splits)
next
  case (3 s n t c s')
  then show ?case using put_stores [of "get s" n t c] by (auto simp: lift_store_def get_put split: prod.splits)
next
  case (4 s n t c e s' k m)
  then show ?case
    using put_frame [of "get s" n t c _ _ k m] by (auto simp: lift_store_def get_put split: prod.splits)
next
  case (5 s t c n s')
  then show ?case using get_takes [of "get s" t c n] by (auto simp: lift_store_def get_put split: prod.splits)
next
  case (6 s t c r s' k m)
  then show ?case
    using get_frame [of "get s" t c _ _ k m] by (auto simp: lift_store_def get_put split: prod.splits)
qed

locale reliable_store_part = store_part + reliable_nonce_store

sublocale reliable_store_part \<subseteq> whole: reliable_nonce_store "lift_store get put st" key
  "\<lambda>t. holds (get t)" "\<lambda>t. invar (get t)" storable
proof (unfold_locales, goal_cases)
  case (1 s c k n t)
  then show ?case using get_hit [of "get s" c k n t] by (auto simp: lift_store_def split: prod.splits)
next
  case (2 s c k t)
  then show ?case using get_miss [of "get s" c k t] by (auto simp: lift_store_def split: prod.splits)
next
  case (3 s t c n e s' k m)
  then show ?case using put_failed [of "get s" t c n e _ k m] by (auto simp: lift_store_def get_put split: prod.splits)
qed

locale lasting_store_part = store_part + lasting_nonce_store

sublocale lasting_store_part \<subseteq> whole: lasting_nonce_store "lift_store get put st" key
  "\<lambda>t. holds (get t)" "\<lambda>t. invar (get t)" storable "\<lambda>t. lasts (get t)" "\<lambda>t. found (get t)"
proof (unfold_locales, goal_cases)
  case (1 s t c m e s' k n)
  then show ?case
    using put_other [of "get s" t c m _ _ k n] by (auto simp: lift_store_def get_put split: prod.splits)
next
  case (2 s t c r s' k n)
  then show ?case
    using get_other [of "get s" t c _ _ k n] by (auto simp: lift_store_def get_put split: prod.splits)
next
  case (3 s c k n t)
  then show ?case using get_found [of "get s" c k n t] by (auto simp: lift_store_def split: prod.splits)
qed

section \<open>Builders\<close>

inductive generator_builder :: "('c, 's) ChallengeNonceGeneratorBuilder \<Rightarrow> bool" where
  new: "generator_builder (NewChallengeNonceGeneratorBuilder reader)"
| store: "generator_builder b \<Longrightarrow> generator_builder (WithChallengeNonceStore st b)"
| ttl: "generator_builder b \<Longrightarrow> generator_builder (WithNonceTTL d b)"
| size: "generator_builder b \<Longrightarrow> generator_builder (WithNonceSize n b)"
| random: "generator_builder b \<Longrightarrow> generator_builder (WithSecureRandom r b)"
| build: "generator_builder b \<Longrightarrow> generator_builder (snd (Generator_Build b))"

lemma generator_builder_inv:
  "generator_builder b \<Longrightarrow> 32 \<le> b_nonceSize b \<and> 0 < b_ttl b"
  by (induction rule: generator_builder.induct)
    (auto simp: NewChallengeNonceGeneratorBuilder_def WithChallengeNonceStore_def WithNonceTTL_def
      WithNonceSize_def WithSecureRandom_def Generator_Build_def minNonceBytes_def
      DefaultNonceTTL_def minute_def second_def Let_def split: option.split)

lemma Generator_Build_fields:
  "fst (Generator_Build b) = Inr g \<Longrightarrow>
     gen_nonceSize g = b_nonceSize b \<and> gen_random g = b_random b \<and> b_store b = Some (gen_store g)"
  by (auto simp: Generator_Build_def Let_def split: option.splits)

lemma GenerateAndStoreNonce_ok:
  "GenerateAndStoreNonce g rd now put_now ctx s = (Inr n, s') \<Longrightarrow>
     \<exists>buf. gen_random g rd (nat (gen_nonceSize g)) = Inr buf \<and>
       n = \<lparr>Base64EncodedNonce = StdEncoding_EncodeToString buf, IssuedAt = now\<rparr> \<and>
       Put (gen_store g) put_now ctx n s = (None, s')"
  by (auto simp: GenerateAndStoreNonce_def Let_def split: sum.splits prod.splits option.splits)

lemma puts_only_True [simp]: "puts_only (\<lambda>_. True) ops"
proof (induction ops)
  case (Cons op ops)
  then show ?case by (cases op) auto
qed simp

lemma Expired_mono: "Expired n now ttl \<Longrightarrow> now \<le> now' \<Longrightarrow> Expired n now' ttl"
  using time_sub_mono [of now now' "IssuedAt n"] by (simp add: Expired_def)

section \<open>Properties\<close>

text \<open>C20: Single use, in-process store: over any sequence of operations on a new store, a session takes
  a nonce out at most as many times as that nonce was put in for that session.\<close>

theorem memory_store_single_use:
  assumes "run_ops memory_store ops (NewInMemoryStore key ttl) = (log, s)"
  shows "taken key k n log \<le> issued key k n log"
  using mem.single_use [of "NewInMemoryStore key ttl" key ops log s k n] assms
  by (auto simp: NewInMemoryStore_def split: if_splits)

definition sample_nonce :: ChallengeNonce where
  "sample_nonce = \<lparr>Base64EncodedNonce = ''AAAA'', IssuedAt = 0\<rparr>"

definition sample_ops :: "string store_op list" where
  "sample_ops = [PutOp 0 ''s1'' sample_nonce, GetOp 1 ''s2'', GetOp 2 ''s1'', GetOp 3 ''s1'']"

theorem memory_store_single_use_witness:
  "taken Inr ''s1'' sample_nonce (fst (run_ops memory_store sample_ops (NewInMemoryStore Inr 0))) = 1 \<and>
   taken Inr ''s1'' sample_nonce (fst (run_ops memory_store sample_ops (NewInMemoryStore Inr 0)))
     \<le> issued Inr ''s1'' sample_nonce (fst (run_ops memory_store sample_ops (NewInMemoryStore Inr 0)))"
  using memory_store_single_use [OF prod.collapse [symmetric], where ops = sample_ops and key = Inr and
      ttl = 0 and k = "''s1''" and n = sample_nonce]
  by (simp add: sample_ops_def memory_store_def InMemoryStore_Put_def InMemoryStore_GetAndRemove_def
      NewInMemoryStore_def sweepLocked_def taken_def issued_def)

text \<open>After a successful Put the next GetAndRemove of that session returns that nonce, even when
  the nonce has expired in the meantime, and the one after it reports the nonce as not found.\<close>

theorem memory_store_put_get_get:
  assumes "InMemoryStore_Put t c n s = (None, s1)"
  shows "\<exists>s2 s3. InMemoryStore_GetAndRemove t1 c s1 = (Inr n, s2) \<and>
     InMemoryStore_GetAndRemove t2 c s2 = (Inl (Typed ErrChallengeNonceNotFound), s3)"
  using mem.put_get_get [where s = s and key = "sessionKey s" and n = n and t = t and c = c] assms by (simp add: memory_store_def)

theorem memory_store_put_get_get_witness:
  "\<exists>s1 s2 s3. InMemoryStore_Put 0 ''s1'' sample_nonce (NewInMemoryStore Inr 0) = (None, s1) \<and>
     InMemoryStore_GetAndRemove (10 * DefaultNonceTTL) ''s1'' s1 = (Inr sample_nonce, s2) \<and>
     InMemoryStore_GetAndRemove (10 * DefaultNonceTTL) ''s1'' s2 =
       (Inl (Typed ErrChallengeNonceNotFound), s3)"
proof -
  obtain s1 where "InMemoryStore_Put 0 ''s1'' sample_nonce (NewInMemoryStore Inr 0) = (None, s1)"
    by (simp add: InMemoryStore_Put_def NewInMemoryStore_def Let_def)
  with memory_store_put_get_get [OF this] show ?thesis by blast
qed

text \<open>C33: However a generator is configured through its builder, every nonce it stores is the base64
  text of at least 32 bytes drawn from the random source in one read, stamped with the clock.\<close>

theorem generated_nonce_entropy:
  assumes "generator_builder b" and "fst (Generator_Build b) = Inr g"
    and "\<And>n buf. gen_random g rd n = Inr buf \<Longrightarrow> length buf = n"
    and "GenerateAndStoreNonce g rd now put_now ctx s = (Inr nonce, s')"
  shows "\<exists>buf. StdEncoding_DecodeString (Base64EncodedNonce nonce) = Some buf \<and> 32 \<le> length buf \<and>
     gen_random g rd (length buf) = Inr buf \<and> IssuedAt nonce = now"
proof -
  have size: "32 \<le> gen_nonceSize g"
    using generator_builder_inv [OF assms(1)] Generator_Build_fields [OF assms(2)] by simp
  obtain buf where "gen_random g rd (nat (gen_nonceSize g)) = Inr buf"
    and "nonce = \<lparr>Base64EncodedNonce = StdEncoding_EncodeToString buf, IssuedAt = now\<rparr>"
    using GenerateAndStoreNonce_ok [OF assms(4)] by blast
  moreover from this(1) have "length buf = nat (gen_nonceSize g)" using assms(3) by blast
  ultimately show ?thesis using size by (auto simp: std64.dec_enc)
qed

definition sample_builder :: "(string, string InMemoryStore) ChallengeNonceGeneratorBuilder" where
  "sample_builder = WithNonceSize 16 (WithChallengeNonceStore (Some memory_store)
     (NewChallengeNonceGeneratorBuilder (\<lambda>rd n. Inr (replicate n 0))))"

lemma sample_builder_reachable: "generator_builder sample_builder"
  unfolding sample_builder_def by (intro generator_builder.intros)

definition sample_generator :: "(string, string InMemoryStore) challengeNonceGenerator" where
  "sample_generator = \<lparr>gen_store = memory_store, gen_nonceSize = 32, gen_random = (\<lambda>rd n. Inr (replicate n 0))\<rparr>"

lemma sample_generator_built: "fst (Generator_Build sample_builder) = Inr sample_generator"
  by (simp add: sample_builder_def sample_generator_def WithNonceSize_def WithChallengeNonceStore_def
      NewChallengeNonceGeneratorBuilder_def Generator_Build_def minNonceBytes_def DefaultNonceTTL_def Let_def)

theorem generated_nonce_entropy_witness:
  "\<exists>nonce s' buf. GenerateAndStoreNonce sample_generator 0 5 6 ''s1'' (NewInMemoryStore Inr 0) = (Inr nonce, s') \<and>
     StdEncoding_DecodeString (Base64EncodedNonce nonce) = Some buf \<and> 32 \<le> length buf"
proof -
  obtain nonce s' where ok:
    "GenerateAndStoreNonce sample_generator 0 5 6 ''s1'' (NewInMemoryStore Inr 0) = (Inr nonce, s')"
    by (simp add: GenerateAndStoreNonce_def sample_generator_def memory_store_def InMemoryStore_Put_def
        NewInMemoryStore_def Let_def)
  have "length buf = n" if "gen_random sample_generator 0 n = Inr buf" for n buf
    using that by (auto simp: sample_generator_def)
  from generated_nonce_entropy [OF sample_builder_reachable sample_generator_built this ok]
  show ?thesis using ok by blast
qed

end
