(* ===== verification/Validation.thy ===== *)
theory Validation
  imports Exceptions
begin

text \<open>
  Struct tags. The \<^verbatim>\<open>Validate\<close> methods of \<^verbatim>\<open>azugo/config.go\<close> and \<^verbatim>\<open>azugo/dto.go\<close> hand a struct to the
  validator of the framework, which reads the tags of its fields. A struct is the list of its fields
  with their tags; the validator is a parameter, and \<open>tag_contract\<close> is the documented meaning of
  the tags the sources use.
\<close>

section \<open>Fields and tags\<close>

datatype field_value =
    StringField string
  | StringsField "string list"
  | SliceField nat
  | IntField int
  | BoolField bool
  | StructField bool

datatype field_tag = Required | Min nat | Gt int | Url | Oneof "string list" | Omitempty | Dive

type_synonym struct_fields = "(string \<times> field_value \<times> field_tag list) list"
type_synonym struct_validator = "struct_fields \<Rightarrow> goerror option"

section \<open>The documented meaning\<close>

text \<open>
  A slice is required to be non-nil; every slice that is required here also has a minimum length,
  which a nil slice fails too. A nested struct is given by whether it is the zero value; whether
  \<open>Required\<close> accepts a zero struct depends on how the framework sets the validator up, and is left
  open.
\<close>

fun zero_field :: "field_value \<Rightarrow> bool" where
  "zero_field (StringField t) \<longleftrightarrow> t = []"
| "zero_field (IntField i) \<longleftrightarrow> i = 0"
| "zero_field (BoolField b) \<longleftrightarrow> \<not> b"
| "zero_field _ \<longleftrightarrow> False"

fun tag_ok :: "(string \<Rightarrow> bool) \<Rightarrow> field_value \<Rightarrow> field_tag \<Rightarrow> bool" where
  "tag_ok is_url v Required \<longleftrightarrow> \<not> zero_field v"
| "tag_ok is_url (StringsField ts) (Min n) \<longleftrightarrow> n \<le> length ts"
| "tag_ok is_url (SliceField m) (Min n) \<longleftrightarrow> n \<le> m"
| "tag_ok is_url (IntField i) (Gt n) \<longleftrightarrow> n < i"
| "tag_ok is_url (StringField t) Url \<longleftrightarrow> is_url t"
| "tag_ok is_url (StringField t) (Oneof ts) \<longleftrightarrow> t \<in> set ts"
| "tag_ok is_url _ _ \<longleftrightarrow> False"

fun field_ok :: "(string \<Rightarrow> bool) \<Rightarrow> field_value \<Rightarrow> field_tag list \<Rightarrow> bool" where
  "field_ok is_url v [] \<longleftrightarrow> True"
| "field_ok is_url v (Omitempty # tags) \<longleftrightarrow> zero_field v \<or> field_ok is_url v tags"
| "field_ok is_url (StringsField ts) (Dive # tags) \<longleftrightarrow> list_all (\<lambda>t. field_ok is_url (StringField t) tags) ts"
| "field_ok is_url v (t # tags) \<longleftrightarrow> tag_ok is_url v t \<and> field_ok is_url v tags"

definition struct_ok :: "(string \<Rightarrow> bool) \<Rightarrow> struct_fields \<Rightarrow> bool" where
  "struct_ok is_url fs \<longleftrightarrow> list_all (\<lambda>(name, v, tags). field_ok is_url v tags) fs"

text \<open>A validator accepts a struct only if each field meets its tags, and it accepts every such struct
  without a zero struct inside.\<close>

definition tag_contract :: "struct_validator \<Rightarrow> (string \<Rightarrow> bool) \<Rightarrow> bool" where
  "tag_contract valid_Struct is_url \<longleftrightarrow> (\<forall>fs. (valid_Struct fs = None \<longrightarrow> struct_ok is_url fs) \<and>
     (struct_ok is_url fs \<and> StructField True \<notin> (fst \<circ> snd) ` set fs \<longrightarrow> valid_Struct fs = None))"

lemma tag_contractD:
  "tag_contract V U \<Longrightarrow> StructField True \<notin> (fst \<circ> snd) ` set fs \<Longrightarrow> V fs = None \<longleftrightarrow> struct_ok U fs"
  unfolding tag_contract_def by blast

text \<open>A validator that keeps the contract, for sample requests.\<close>

definition sample_struct :: struct_validator where
  "sample_struct fs = (if struct_ok (\<lambda>u. u \<noteq> []) fs then None else Some (ErrorString ''validation failed''))"

lemma sample_struct_contract: "tag_contract sample_struct (\<lambda>u. u \<noteq> [])"
  by (simp add: tag_contract_def sample_struct_def)

end
