(* ===== verification/Session.thy ===== *)
theory Session
  imports Nonce Platform Validation
begin

text \<open>
  \<^verbatim>\<open>src/azugo/session.go\<close> and \<^verbatim>\<open>src/azugo/config.go\<close>: the configuration, the pre-auth
  session cookie middleware with its Host header check, and the session-keyed nonce store. A
  request context is the record \<open>http_ctx\<close>; a request handler takes it with the service state
  and returns a response and both again.
\<close>

section \<open>Configuration\<close>

record Configuration =
  cfg_Origins :: "string list"
  cfg_TrustedCACertsPath :: string
  cfg_NonceTTL :: duration
  cfg_OCSPEnabled :: bool
  cfg_OCSPRequestTimeout :: duration
  cfg_DesignatedOCSPURL :: string
  cfg_OCSPNonceDisabledURLs :: "string list"
  cfg_SessionCookieName :: string
  cfg_SigningHashPreference :: "string list"
  cfg_AllowInsecureLocalhost :: bool
  cfg_EnforceHostHeader :: bool
  cfg_OCSPAllowedResponderURLs :: "string list"
  cfg_DisallowedPolicyOIDs :: "string list"
  cfg_SigningAcceptedPolicyOIDs :: "string list"

text \<open>What \<^verbatim>\<open>Configuration.Bind\<close> registers with viper, in order.\<close>

datatype viper_value = DurationValue duration | BoolValue bool | TextValue string | ListValue "string list"

datatype viper_call = SetDefault string viper_value | BindEnv string string

definition Configuration_Bind :: "string \<Rightarrow> viper_call list" where
  "Configuration_Bind prefix =
     [SetDefault (prefix @ ''.nonce_ttl'') (DurationValue (5 * minute)),
      SetDefault (prefix @ ''.ocsp_enabled'') (BoolValue True),
      SetDefault (prefix @ ''.ocsp_request_timeout'') (DurationValue (5 * second)),
      SetDefault (prefix @ ''.session_cookie_name'') (TextValue ''WEBEID_SESSION''),
      SetDefault (prefix @ ''.signing_hash_preference'')
        (ListValue [''SHA-256'', ''SHA-384'', ''SHA-512'']),
      SetDefault (prefix @ ''.allow_insecure_localhost'') (BoolValue False),
      SetDefault (prefix @ ''.enforce_host_header'') (BoolValue True),
      BindEnv (prefix @ ''.origins'') ''WEBEID_ORIGIN'',
      BindEnv (prefix @ ''.trusted_ca_certs_path'') ''WEBEID_TRUSTED_CA_CERTS_PATH'',
      BindEnv (prefix @ ''.nonce_ttl'') ''WEBEID_NONCE_TTL'',
      BindEnv (prefix @ ''.ocsp_enabled'') ''WEBEID_OCSP_ENABLED'',
      BindEnv (prefix @ ''.ocsp_request_timeout'') ''WEBEID_OCSP_REQUEST_TIMEOUT'',
      BindEnv (prefix @ ''.designated_ocsp_url'') ''WEBEID_DESIGNATED_OCSP_URL'',
      BindEnv (prefix @ ''.ocsp_nonce_disabled_urls'') ''WEBEID_OCSP_NONCE_DISABLED_URLS'',
      BindEnv (prefix @ ''.session_cookie_name'') ''WEBEID_SESSION_COOKIE_NAME'',
      BindEnv (prefix @ ''.signing_hash_preference'') ''WEBEID_SIGNING_HASH_PREFERENCE'',
      BindEnv (prefix @ ''.allow_insecure_localhost'') ''WEBEID_ALLOW_INSECURE_LOCALHOST'',
      BindEnv (prefix @ ''.enforce_host_header'') ''WEBEID_ENFORCE_HOST_HEADER'',
      BindEnv (prefix @ ''.ocsp_allowed_responder_urls'') ''WEBEID_OCSP_ALLOWED_RESPONDERS'',
      BindEnv (prefix @ ''.disallowed_policy_oids'') ''WEBEID_DISALLOWED_POLICY_OIDS'',
      BindEnv (prefix @ ''.signing_accepted_policy_oids'') ''WEBEID_SIGNING_ACCEPTED_POLICY_OIDS'']"

text \<open>The fields of the configuration with their tags, and \<^verbatim>\<open>Configuration.Validate\<close>.\<close>

definition config_fields :: "Configuration \<Rightarrow> struct_fields" where
  "config_fields c =
     [(''Origins'', StringsField (cfg_Origins c), [Required, Min 1, Dive, Url]),
      (''TrustedCACertsPath'', StringField (cfg_TrustedCACertsPath c), [Required]),
      (''NonceTTL'', IntField (cfg_NonceTTL c), [Required, Gt 0]),
      (''OCSPEnabled'', BoolField (cfg_OCSPEnabled c), []),
      (''OCSPRequestTimeout'', IntField (cfg_OCSPRequestTimeout c), [Required, Gt 0]),
      (''DesignatedOCSPURL'', StringField (cfg_DesignatedOCSPURL c), [Omitempty, Url]),
      (''OCSPNonceDisabledURLs'', StringsField (cfg_OCSPNonceDisabledURLs c), []),
      (''SessionCookieName'', StringField (cfg_SessionCookieName c), [Required]),
      (''SigningHashPreference'', StringsField (cfg_SigningHashPreference c),
       [Required, Min 1, Dive, Oneof [''SHA-224'', ''SHA-256'', ''SHA-384'', ''SHA-512'',
          ''SHA3-224'', ''SHA3-256'', ''SHA3-384'', ''SHA3-512'']]),
      (''AllowInsecureLocalhost'', BoolField (cfg_AllowInsecureLocalhost c), []),
      (''EnforceHostHeader'', BoolField (cfg_EnforceHostHeader c), []),
      (''OCSPAllowedResponderURLs'', StringsField (cfg_OCSPAllowedResponderURLs c), []),
      (''DisallowedPolicyOIDs'', StringsField (cfg_DisallowedPolicyOIDs c), []),
      (''SigningAcceptedPolicyOIDs'', StringsField (cfg_SigningAcceptedPolicyOIDs c), [])]"

definition Configuration_Validate :: "struct_validator \<Rightarrow> Configuration \<Rightarrow> goerror option" where
  "Configuration_Validate valid_Struct c = valid_Struct (config_fields c)"

section \<open>Request contexts\<close>

datatype same_site = SameSiteDefault | SameSiteLax | SameSiteStrict | SameSiteNone

record session_cookie =
  ck_Key :: string
  ck_Value :: string
  ck_Path :: string
  ck_HTTPOnly :: bool
  ck_Secure :: bool
  ck_SameSite :: same_site
  ck_MaxAge :: int

record http_ctx =
  ctx_Host :: string
  ctx_Cookie :: "string \<Rightarrow> string"
  ctx_UserValue :: "string \<rightharpoonup> string"
  ctx_SetCookies :: "session_cookie list"
  ctx_User :: "(string \<times> string) list option"

datatype 'b response = ErrorResponse goerror | JSONResponse 'b

type_synonym ('b, 's) handler_fun = "http_ctx \<Rightarrow> 's \<Rightarrow> 'b response \<times> http_ctx \<times> 's"

section \<open>Sessions\<close>

definition sessionContextKey :: string where "sessionContextKey = ''webeid.session_id''"

definition ErrNoSession :: goerror where
  "ErrNoSession = ErrorString ''no web eid session on request''"

definition sessionIDBytes :: nat where "sessionIDBytes = 32"

definition errHostMismatch :: goerror where "errHostMismatch = HostMismatchError"

definition hostMismatch_Error :: string where
  "hostMismatch_Error = ''request host does not match the configured origin''"

definition hostMismatch_SafeError :: string where
  "hostMismatch_SafeError = ''request host does not match the configured origin''"

definition hostMismatch_StatusCode :: int where "hostMismatch_StatusCode = 400"

definition originHostname :: "'a platform_scheme \<Rightarrow> string \<Rightarrow> string" where
  "originHostname P origin =
     (case url_Parse P origin of
        Inl err \<Rightarrow> []
      | Inr u \<Rightarrow> if url_Host u = [] then [] else ToLower (tables P) (Hostname u))"

definition originHostnames :: "'a platform_scheme \<Rightarrow> string list \<Rightarrow> string list" where
  "originHostnames P origins = filter (\<lambda>h. h \<noteq> []) (map (originHostname P) origins)"

definition strip_brackets :: "string \<Rightarrow> string" where
  "strip_brackets h = TrimSuffix (TrimPrefix h ''['') '']''"

definition hostMatches :: "unicode \<Rightarrow> string \<Rightarrow> string \<Rightarrow> bool" where
  "hostMatches U requestHost originHost \<longleftrightarrow>
     (let h = ToLower U (TrimSpace U requestHost) in
      h \<noteq> [] \<and>
      (let h1 = (case last_index CHR '':'' h of
                   None \<Rightarrow> h
                 | Some i \<Rightarrow>
                     if \<not> HasSuffix h '']'' \<and> \<not> Contains (drop (i + 1) h) '']'' then take i h else h)
       in strip_brackets h1 = strip_brackets originHost))"

definition hostMatchesAny :: "unicode \<Rightarrow> string \<Rightarrow> string list \<Rightarrow> bool" where
  "hostMatchesAny U requestHost originHosts \<longleftrightarrow> list_ex (hostMatches U requestHost) originHosts"

definition newSessionID :: "(nat \<Rightarrow> bytes result) \<Rightarrow> string result" where
  "newSessionID rand = bindE (rand sessionIDBytes) (\<lambda>buf. Inr (RawURLEncoding_EncodeToString buf))"

definition validSessionID :: "string \<Rightarrow> bool" where
  "validSessionID sid \<longleftrightarrow> sid \<noteq> [] \<and> RawURLEncoding_DecodeString sid \<noteq> None"

text \<open>
  \<^verbatim>\<open>int(ttl.Seconds())\<close> goes through a float64; the whole seconds written here are exact for
  lifetimes below \<open>2 ^ 23\<close> seconds. A cookie without a maximum age has \<open>ck_MaxAge\<close> 0.
\<close>

definition setSessionCookie :: "http_ctx \<Rightarrow> string \<Rightarrow> string \<Rightarrow> duration \<Rightarrow> http_ctx" where
  "setSessionCookie ctx name v ttl =
     ctx\<lparr>ctx_SetCookies := ctx_SetCookies ctx @
       [\<lparr>ck_Key = name, ck_Value = v, ck_Path = ''/'', ck_HTTPOnly = True, ck_Secure = True,
         ck_SameSite = SameSiteStrict, ck_MaxAge = (if ttl > 0 then ttl div second else 0)\<rparr>]\<rparr>"

definition EnsureSession ::
  "'a platform_scheme \<Rightarrow> Configuration \<Rightarrow> (nat \<Rightarrow> bytes result) \<Rightarrow>
   ('b, 's) handler_fun \<Rightarrow> ('b, 's) handler_fun" where
  "EnsureSession P cfg rand next ctx s =
     (let cookieName = cfg_SessionCookieName cfg;
          ttl = cfg_NonceTTL cfg;
          originHosts = originHostnames P (cfg_Origins cfg);
          enforceHost = (cfg_EnforceHostHeader cfg \<and> originHosts \<noteq> []) in
      if enforceHost \<and> \<not> hostMatchesAny (tables P) (ctx_Host ctx) originHosts
      then (ErrorResponse errHostMismatch, ctx, s)
      else let sid = ctx_Cookie ctx cookieName in
        if \<not> validSessionID sid
        then (case newSessionID rand of
                Inl err \<Rightarrow> (ErrorResponse err, ctx, s)
              | Inr newID \<Rightarrow>
                  next ((setSessionCookie ctx cookieName newID ttl)
                    \<lparr>ctx_UserValue := (ctx_UserValue ctx)(sessionContextKey \<mapsto> newID)\<rparr>) s)
        else next (ctx\<lparr>ctx_UserValue := (ctx_UserValue ctx)(sessionContextKey \<mapsto> sid)\<rparr>) s)"

text \<open>\<open>None\<close> is a context that is not a request context.\<close>

definition SessionKey :: "http_ctx option \<Rightarrow> string result" where
  "SessionKey c =
     (case c of
        None \<Rightarrow> Inl ErrNoSession
      | Some ctx \<Rightarrow>
          (case ctx_UserValue ctx sessionContextKey of
             None \<Rightarrow> Inl ErrNoSession
           | Some sid \<Rightarrow> if sid = [] then Inl ErrNoSession else Inr sid))"

definition request_key :: "http_ctx \<Rightarrow> string result" where
  "request_key ctx = SessionKey (Some ctx)"

definition NewSessionStore :: "Configuration \<Rightarrow> http_ctx InMemoryStore" where
  "NewSessionStore cfg = NewInMemoryStore request_key (cfg_NonceTTL cfg)"

section \<open>The stores of a deployment\<close>

text \<open>
  The handler owns an in-process store and may be given another one, whose state is \<open>'x\<close>. An
  operation of either store acts on its part of the pair.
\<close>

record 'x backends =
  be_memory :: "http_ctx InMemoryStore"
  be_external :: 'x

definition session_store :: "(http_ctx, 'x backends) ChallengeNonceStore" where
  "session_store = lift_store be_memory (\<lambda>m s. s\<lparr>be_memory := m\<rparr>) memory_store"

definition external_store ::
  "(http_ctx, 'x) ChallengeNonceStore \<Rightarrow> (http_ctx, 'x backends) ChallengeNonceStore" where
  "external_store st = lift_store be_external (\<lambda>x s. s\<lparr>be_external := x\<rparr>) st"

interpretation ses: reliable_store_part memory_store key entries "\<lambda>m. sessionKey m = key" "\<lambda>_. True"
  be_memory "\<lambda>m (s :: 'x backends). s\<lparr>be_memory := m\<rparr>"
  for key :: "http_ctx \<Rightarrow> string result"
  by unfold_locales simp

interpretation ses_lasting: lasting_store_part memory_store key entries "\<lambda>m. sessionKey m = key" "\<lambda>_. True"
  be_memory "\<lambda>m (s :: 'x backends). s\<lparr>be_memory := m\<rparr>" mem_lasts "\<lambda>s k t. True"
  for key :: "http_ctx \<Rightarrow> string result"
  by unfold_locales

section \<open>Lemmas\<close>

lemma originHostnames_ne: "[] \<notin> set (originHostnames P os)"
  by (simp add: originHostnames_def)

lemma newSessionID_valid:
  assumes "newSessionID rand = Inr sid" and "\<And>n b. rand n = Inr b \<Longrightarrow> length b = n"
  shows "validSessionID sid" and "length sid = 43"
proof -
  obtain b where b: "rand 32 = Inr b" "sid = RawURLEncoding_EncodeToString b"
    using assms(1) by (auto simp: newSessionID_def sessionIDBytes_def bindE_Inr)
  then have "length b = 32" using assms(2) by blast
  then show "length sid = 43"
    using b by (simp add: RawURLEncoding_EncodeToString_def length_b64_encode_raw)
  then show "validSessionID sid"
    using b by (auto simp: validSessionID_def url64.dec_enc)
qed

lemma request_key_session:
  "request_key (ctx\<lparr>ctx_UserValue := (ctx_UserValue ctx)(sessionContextKey \<mapsto> sid)\<rparr>) =
     (if sid = [] then Inl ErrNoSession else Inr sid)"
  by (simp add: request_key_def SessionKey_def)

section \<open>Host names\<close>

text \<open>The characters of a DNS name or a dotted IPv4 address.\<close>

definition host_char :: "char \<Rightarrow> bool" where
  "host_char c \<longleftrightarrow> (let r = of_char c :: nat in
     r = 45 \<or> r = 46 \<or> in_range 48 57 r \<or> in_range 65 90 r \<or> in_range 97 122 r)"

definition plain_host :: "string \<Rightarrow> bool" where
  "plain_host h \<longleftrightarrow> h \<noteq> [] \<and> list_all host_char h"

lemma host_char_plain:
  assumes "host_char c"
  shows "ascii_char c" and "\<not> rune_space U (of_char c)"
    and "c \<noteq> CHR '':''" and "c \<noteq> CHR ''[''" and "c \<noteq> CHR '']''"
  using assms by (auto simp: host_char_def ascii_char_def rune_space_def in_range_def Let_def)

lemma host_char_lower: "host_char c \<Longrightarrow> host_char (char_of (ascii_lower (of_char c)))"
  by (auto simp: host_char_def ascii_lower_def in_range_def Let_def)

lemma plain_ascii: "list_all host_char h \<Longrightarrow> is_ascii h"
  by (auto simp: is_ascii_def list_all_iff host_char_plain)

lemma plain_lower: "plain_host h \<Longrightarrow> plain_host (ToLower U h)"
  by (auto simp: plain_host_def ToLower_ascii plain_ascii list_all_iff host_char_lower)

lemma strip_plain: "plain_host h \<Longrightarrow> strip_brackets h = h"
proof -
  assume h: "plain_host h"
  have "\<not> HasPrefix h ''[''" using h host_char_plain(4) by (force simp: plain_host_def HasPrefix_iff)
  moreover have "\<not> HasSuffix h '']''" using h host_char_plain(5) by (force simp: plain_host_def HasSuffix_iff)
  ultimately show ?thesis by (simp add: strip_brackets_def TrimPrefix_def TrimSuffix_def)
qed

lemma TrimSpace_plain:
  assumes "plain_host h" and "list_all host_char p"
  shows "TrimSpace U h = h" and "TrimSpace U (h @ CHR '':'' # p) = h @ CHR '':'' # p"
proof -
  have chars: "host_char (hd h)" "host_char (last h)" "h \<noteq> []"
    using assms(1) by (auto simp: plain_host_def list_all_iff)
  then show "TrimSpace U h = h"
    using assms(1) by (intro TrimSpace_id) (auto simp: plain_host_def plain_ascii host_char_plain)
  have "last (h @ CHR '':'' # p) = CHR '':'' \<or> host_char (last (h @ CHR '':'' # p))"
    using assms(2) by (auto simp: list_all_iff)
  moreover have "\<not> rune_space U (of_char CHR '':'')" by (simp add: rune_space_def in_range_def)
  ultimately show "TrimSpace U (h @ CHR '':'' # p) = h @ CHR '':'' # p"
    using chars assms
    by (intro TrimSpace_id) (auto simp: is_ascii_def list_all_iff plain_host_def ascii_char_def
        host_char_plain [unfolded ascii_char_def])
qed

lemma Contains_bracket: "CHR '']'' \<notin> set s \<Longrightarrow> \<not> Contains s '']''"
  by (induction s) (auto simp: HasPrefix_def)

lemma hostMatches_plain:
  assumes "plain_host g" and "plain_host h" and "list_all host_char p"
  shows "hostMatches U g h \<longleftrightarrow> ToLower U g = h"
    and "hostMatches U (g @ CHR '':'' # p) h \<longleftrightarrow> ToLower U g = h"
proof -
  have lg: "plain_host (ToLower U g)" using assms(1) by (rule plain_lower)
  have nocolon: "CHR '':'' \<notin> set (ToLower U g)"
    using lg host_char_plain(3) by (auto simp: plain_host_def list_all_iff)
  show "hostMatches U g h \<longleftrightarrow> ToLower U g = h"
    using lg nocolon assms
    by (simp add: hostMatches_def TrimSpace_plain [OF assms(1, 3)] strip_plain last_index_None [THEN iffD2] Let_def)
      (auto simp: plain_host_def)
  let ?p = "ToLower U p"
  have p: "list_all host_char ?p"
    using assms(3) by (auto simp: ToLower_ascii plain_ascii list_all_iff host_char_lower)
  then have np: "CHR '':'' \<notin> set ?p" "CHR '']'' \<notin> set ?p"
    using host_char_plain(3, 5) by (auto simp: list_all_iff)
  have "is_ascii (g @ CHR '':'' # p)"
    using assms(1, 3) by (auto simp: is_ascii_def list_all_iff plain_host_def ascii_char_def
        host_char_plain [unfolded ascii_char_def])
  then have low: "ToLower U (g @ CHR '':'' # p) = ToLower U g @ CHR '':'' # ?p"
    using assms(1, 3) by (simp add: ToLower_ascii plain_ascii plain_host_def ascii_lower_def in_range_def char_of_eq)
  have "\<not> HasSuffix (ToLower U g @ CHR '':'' # ?p) '']''"
  proof
    assume "HasSuffix (ToLower U g @ CHR '':'' # ?p) '']''"
    then have "last (ToLower U g @ CHR '':'' # ?p) = CHR '']''"
      unfolding HasSuffix_iff by (metis last_snoc)
    then show False using np by (cases "?p = []") (auto simp: last_in_set dest: last_in_set)
  qed
  then show "hostMatches U (g @ CHR '':'' # p) h \<longleftrightarrow> ToLower U g = h"
    using np lg assms(2)
    by (simp add: hostMatches_def TrimSpace_plain [OF assms(1, 3)] low last_index_append Contains_bracket
        strip_plain Let_def)
qed

section \<open>Properties\<close>

text \<open>C22: Behind the session middleware a handler runs only with a session id in its context: a valid one
  from the request's cookie or a fresh one, which is then set as an HttpOnly, Secure, SameSite=Strict
  cookie; and, when the Host check is enforced, only for a Host header that matches a configured
  origin. In every other case the middleware answers with an error and neither context nor state
  changes.\<close>

theorem EnsureSession_guards:
  assumes "\<And>n b. rand n = Inr b \<Longrightarrow> length b = n"
  shows "(\<exists>e. EnsureSession P cfg rand handler ctx s = (ErrorResponse e, ctx, s) \<and>
       (e = HostMismatchError \<or> newSessionID rand = Inl e)) \<or>
     (\<exists>ctx1 sid. EnsureSession P cfg rand handler ctx s = handler ctx1 s \<and>
       request_key ctx1 = Inr sid \<and> validSessionID sid \<and>
       (cfg_EnforceHostHeader cfg \<longrightarrow> originHostnames P (cfg_Origins cfg) = [] \<or>
          (\<exists>h \<in> set (originHostnames P (cfg_Origins cfg)). hostMatches (tables P) (ctx_Host ctx) h)) \<and>
       (sid = ctx_Cookie ctx (cfg_SessionCookieName cfg) \<and> ctx_SetCookies ctx1 = ctx_SetCookies ctx \<or>
        newSessionID rand = Inr sid \<and> \<not> validSessionID (ctx_Cookie ctx (cfg_SessionCookieName cfg)) \<and>
        (\<exists>ck. ctx_SetCookies ctx1 = ctx_SetCookies ctx @ [ck] \<and> ck_Value ck = sid \<and>
           ck_HTTPOnly ck \<and> ck_Secure ck \<and> ck_SameSite ck = SameSiteStrict)))"
proof -
  let ?host = "cfg_EnforceHostHeader cfg \<and> originHostnames P (cfg_Origins cfg) \<noteq> [] \<and>
     \<not> hostMatchesAny (tables P) (ctx_Host ctx) (originHostnames P (cfg_Origins cfg))"
  let ?sid = "ctx_Cookie ctx (cfg_SessionCookieName cfg)"
  consider (host) ?host | (old) "\<not> ?host" "validSessionID ?sid"
    | (fail) e where "\<not> ?host" "\<not> validSessionID ?sid" "newSessionID rand = Inl e"
    | (fresh) new where "\<not> ?host" "\<not> validSessionID ?sid" "newSessionID rand = Inr new"
    by (cases "newSessionID rand") auto
  then show ?thesis
  proof cases
    case host
    then show ?thesis by (auto simp: EnsureSession_def errHostMismatch_def)
  next
    case old
    then show ?thesis
      by (intro disjI2 exI [of _ "ctx\<lparr>ctx_UserValue := (ctx_UserValue ctx)(sessionContextKey \<mapsto> ?sid)\<rparr>"]
          exI [of _ ?sid])
        (auto simp: EnsureSession_def request_key_session validSessionID_def hostMatchesAny_def
          list_ex_iff Let_def)
  next
    case fail
    then show ?thesis by (auto simp: EnsureSession_def Let_def)
  next
    case fresh
    let ?c = "setSessionCookie ctx (cfg_SessionCookieName cfg) new (cfg_NonceTTL cfg)"
    have "validSessionID new" using newSessionID_valid fresh(3) assms by blast
    then show ?thesis
      using fresh request_key_session [of ?c new]
      by (intro disjI2 exI [of _ "?c\<lparr>ctx_UserValue := (ctx_UserValue ?c)(sessionContextKey \<mapsto> new)\<rparr>"]
          exI [of _ new])
        (auto simp: EnsureSession_def setSessionCookie_def validSessionID_def hostMatchesAny_def
          list_ex_iff Let_def)
  qed
qed

definition sample_config :: Configuration where
  "sample_config =
     \<lparr>cfg_Origins = [''https://app.test''], cfg_TrustedCACertsPath = ''/trust'', cfg_NonceTTL = 5 * minute,
      cfg_OCSPEnabled = False, cfg_OCSPRequestTimeout = 5 * second, cfg_DesignatedOCSPURL = [],
      cfg_OCSPNonceDisabledURLs = [], cfg_SessionCookieName = ''WEBEID_SESSION'',
      cfg_SigningHashPreference = [''SHA-256''], cfg_AllowInsecureLocalhost = False,
      cfg_EnforceHostHeader = False, cfg_OCSPAllowedResponderURLs = [], cfg_DisallowedPolicyOIDs = [],
      cfg_SigningAcceptedPolicyOIDs = []\<rparr>"

definition sample_ctx :: http_ctx where
  "sample_ctx = \<lparr>ctx_Host = ''app.test'', ctx_Cookie = (\<lambda>_. ''AAAA''), ctx_UserValue = Map.empty,
     ctx_SetCookies = [], ctx_User = None\<rparr>"

theorem EnsureSession_guards_witness:
  "\<exists>ctx1 sid. EnsureSession sample_platform sample_config (\<lambda>n. Inr (replicate n 0))
       (\<lambda>ctx s. (JSONResponse (), ctx, s)) (sample_ctx\<lparr>ctx_Cookie := (\<lambda>_. [])\<rparr>) () =
       (JSONResponse (), ctx1, ()) \<and> request_key ctx1 = Inr sid \<and> validSessionID sid"
  using EnsureSession_guards [of "\<lambda>n. Inr (replicate n 0)" sample_platform sample_config
      "\<lambda>ctx s. (JSONResponse (), ctx, s)" "sample_ctx\<lparr>ctx_Cookie := (\<lambda>_. [])\<rparr>" "()"]
  by (auto simp: newSessionID_def EnsureSession_def sample_config_def Let_def validSessionID_def)

text \<open>For ordinary host names the Host check compares names case-insensitively and ignores the port:
  a request host, bare or with a port, matches an origin's host exactly when lower-casing gives that
  host.\<close>

theorem host_check_ignores_port:
  assumes "plain_host g" and "plain_host h" and "list_all host_char port"
  shows "(hostMatches U g h \<longleftrightarrow> ToLower U g = h) \<and> (hostMatches U (g @ '':'' @ port) h \<longleftrightarrow> ToLower U g = h)"
  using hostMatches_plain [OF assms] by simp

theorem host_check_ignores_port_witness:
  "hostMatches sample_unicode (''App.test'' @ '':'' @ ''8443'') ''app.test''"
proof -
  have "plain_host ''App.test''" "plain_host ''app.test''" "list_all host_char ''8443''"
    by (simp_all add: plain_host_def host_char_def in_range_def)
  moreover have "ToLower sample_unicode ''App.test'' = ''app.test''"
    using plain_ascii [of "''App.test''"] \<open>plain_host ''App.test''\<close>
    by (simp add: ToLower_ascii plain_host_def ascii_lower_def in_range_def char_of_eq)
  ultimately show ?thesis using host_check_ignores_port by blast
qed

section \<open>Validated configurations\<close>

lemma Configuration_Validate_iff:
  assumes "tag_contract valid_Struct is_url"
  shows "Configuration_Validate valid_Struct c = None \<longleftrightarrow>
     cfg_Origins c \<noteq> [] \<and> list_all is_url (cfg_Origins c) \<and> cfg_TrustedCACertsPath c \<noteq> [] \<and>
     0 < cfg_NonceTTL c \<and> 0 < cfg_OCSPRequestTimeout c \<and>
     (cfg_DesignatedOCSPURL c = [] \<or> is_url (cfg_DesignatedOCSPURL c)) \<and> cfg_SessionCookieName c \<noteq> [] \<and>
     cfg_SigningHashPreference c \<noteq> [] \<and>
     list_all (\<lambda>h. h \<in> {''SHA-224'', ''SHA-256'', ''SHA-384'', ''SHA-512'', ''SHA3-224'', ''SHA3-256'',
        ''SHA3-384'', ''SHA3-512''}) (cfg_SigningHashPreference c)"
proof -
  have len: "Suc 0 \<le> length xs \<longleftrightarrow> xs \<noteq> []" for xs :: "string list" by (cases xs) auto
  have "Configuration_Validate valid_Struct c = None \<longleftrightarrow> struct_ok is_url (config_fields c)"
    unfolding Configuration_Validate_def
    by (rule tag_contractD [OF assms]) (simp add: config_fields_def)
  then show ?thesis by (auto simp: struct_ok_def config_fields_def len)
qed

end
