(* ===== verification/Handler.thy ===== *)
theory Handler
  imports Validator Signing Assertion Session
begin

text \<open>
  \<^verbatim>\<open>src/azugo/handler.go\<close>: construction of the handler from its configuration and options, and
  the reloading of the trusted CAs. The file system, the default OCSP HTTP client and the random
  source are arguments. Loading a trust file is \<open>None\<close> when the PEM loop never ends.
\<close>

section \<open>The handler\<close>

text \<open>
  \<open>handler_base\<close> holds the fields the options may set before the components are wired;
  \<open>Handler\<close> adds the wired components. An OCSP transport is the client that runs over it.
\<close>

record 'x handler_base =
  h_config :: Configuration
  h_store :: "(http_ctx, 'x backends) ChallengeNonceStore"
  h_runtimeTrust :: bool
  h_ocspTransport :: "ocsp_client option"
  h_assertionIssuer :: "Issuer option"
  h_publishedKeys :: "KeySet option"

record 'x Handler = "'x handler_base" +
  h_trust :: TrustStore
  h_validator :: authTokenValidator
  h_signer :: Signer
  h_generator :: "(http_ctx, 'x backends) challengeNonceGenerator"

type_synonym 'x Option = "'x handler_base \<Rightarrow> 'x handler_base"

definition WithNonceStore :: "(http_ctx, 'x backends) ChallengeNonceStore option \<Rightarrow> 'x Option" where
  "WithNonceStore store h = (case store of None \<Rightarrow> h | Some st \<Rightarrow> h\<lparr>h_store := st\<rparr>)"

definition WithAssertionIssuer :: "Issuer option \<Rightarrow> 'x Option" where
  "WithAssertionIssuer iss h =
     (let h1 = h\<lparr>h_assertionIssuer := iss\<rparr> in
      case iss of
        None \<Rightarrow> h1
      | Some i \<Rightarrow> if h_publishedKeys h1 = None then h1\<lparr>h_publishedKeys := Some (Issuer_KeySet i)\<rparr> else h1)"

definition WithPublishedJWKS :: "KeySet option \<Rightarrow> 'x Option" where
  "WithPublishedJWKS keys h = (case keys of None \<Rightarrow> h | Some ks \<Rightarrow> h\<lparr>h_publishedKeys := Some ks\<rparr>)"

definition WithRuntimeTrust :: "'x Option" where
  "WithRuntimeTrust h = h\<lparr>h_runtimeTrust := True\<rparr>"

definition WithOCSPTransport :: "ocsp_client option \<Rightarrow> 'x Option" where
  "WithOCSPTransport rt h = h\<lparr>h_ocspTransport := rt\<rparr>"

section \<open>Trust material\<close>

definition os_ErrNotExist :: goerror where "os_ErrNotExist = ErrorString ''file does not exist''"

definition loadTrustedCAs ::
  "'a platform_scheme \<Rightarrow> filesystem \<Rightarrow> string \<Rightarrow> x509_cert list result option" where
  "loadTrustedCAs P fs path =
     (case StatIsDir fs path of
        Inl err \<Rightarrow> Some (Inl err)
      | Inr isDir \<Rightarrow>
          if isDir then LoadCertificatesFromDir P fs path
          else (case Open fs path of
                  Inl err \<Rightarrow> Some (Inl err)
                | Inr f \<Rightarrow> LoadCertificatesFromPEM P f))"

definition emptyTrustSource :: "goerror \<Rightarrow> bool" where
  "emptyTrustSource err \<longleftrightarrow> errors_Is err os_ErrNotExist \<or> errors_Is err ErrNoCertificatesFound"

definition initial_trust :: "bool \<Rightarrow> x509_cert list result \<Rightarrow> TrustStore result" where
  "initial_trust runtime loaded =
     (let trust = NewRuntimeTrustStore in
      case loaded of
        Inr cas \<Rightarrow> (case Reload trust cas of (Some err, _) \<Rightarrow> Inl err | (None, trust') \<Rightarrow> Inr trust')
      | Inl err \<Rightarrow> if runtime \<and> emptyTrustSource err then Inr trust else Inl err)"

section \<open>Wiring\<close>

definition designatedConfig :: "Configuration \<Rightarrow> DesignatedServiceConfiguration option" where
  "designatedConfig cfg =
     (if cfg_DesignatedOCSPURL cfg = [] then None
      else Some \<lparr>URL = cfg_DesignatedOCSPURL cfg, ResponderCertificate = None,
                 SupportedIssuers = [], NonceDisabled = False\<rparr>)"

definition buildValidator ::
  "'a platform_scheme \<Rightarrow> ocsp_client \<Rightarrow> Configuration \<Rightarrow> TrustStore \<Rightarrow>
   (authTokenValidator \<times> TrustStore) result" where
  "buildValidator P http cfg trust =
     (let b = WithAllowedOcspResponderURLs (cfg_OCSPAllowedResponderURLs cfg)
               (WithNonceDisabledOcspUrls (cfg_OCSPNonceDisabledURLs cfg)
               (WithOcspRequestTimeout (cfg_OCSPRequestTimeout cfg)
               (WithTrustStore (Some trust)
               (WithSiteOrigins (cfg_Origins cfg) NewAuthTokenValidatorBuilder))));
          b1 = (if cfg_AllowInsecureLocalhost cfg then WithAllowInsecureLocalhostOrigin b else b) in
      bindE (if cfg_DisallowedPolicyOIDs cfg \<noteq> []
             then bindE (ParseOIDs (tables P) (cfg_DisallowedPolicyOIDs cfg)) (\<lambda>oids.
                    Inr (WithDisallowedCertificatePolicies oids b1))
             else Inr b1) (\<lambda>b2.
        let b3 = (if \<not> cfg_OCSPEnabled cfg then WithoutUserCertificateRevocationCheckWithOcsp b2 else b2);
            b4 = (case designatedConfig cfg of
                    None \<Rightarrow> b3
                  | Some d \<Rightarrow> WithDesignatedOcspServiceConfiguration (Some d) b3)
        in Build P http b4))"

definition signer_checker :: "ocsp_client \<Rightarrow> Configuration \<Rightarrow> ocsp_client option \<Rightarrow> Checker option" where
  "signer_checker http cfg transport =
     (if cfg_OCSPEnabled cfg
      then Some (NewChecker http
        \<lparr>Client = transport, RequestTimeout = cfg_OCSPRequestTimeout cfg,
         Designated = designatedConfig cfg, NonceDisabledURLs = cfg_OCSPNonceDisabledURLs cfg,
         AllowedResponderURLs = cfg_OCSPAllowedResponderURLs cfg,
         AllowedResponseTimeSkew = 0, MaxResponseThisUpdateAge = 0\<rparr>)
      else None)"

text \<open>The part of \<^verbatim>\<open>New\<close> after the trust material has been read.\<close>

definition wire ::
  "'a platform_scheme \<Rightarrow> ocsp_client \<Rightarrow> io_reader \<Rightarrow> 'x handler_base \<Rightarrow> TrustStore \<Rightarrow>
   'x Handler result" where
  "wire P http reader h trust =
     (let cfg = h_config h in
      bindE (buildValidator P http cfg trust) (\<lambda>(validator, trust1).
      bindE (ParseOIDs (tables P) (cfg_SigningAcceptedPolicyOIDs cfg)) (\<lambda>accepted.
      bindE (NewSigner \<lparr>HashPreference = cfg_SigningHashPreference cfg, Trust = True,
                        OCSPChecker = signer_checker http cfg (h_ocspTransport h),
                        AcceptedPolicies = accepted\<rparr>) (\<lambda>signer.
      bindE (fst (Generator_Build
               (WithNonceTTL (cfg_NonceTTL cfg)
               (WithChallengeNonceStore (Some (h_store h))
                 (NewChallengeNonceGeneratorBuilder reader))))) (\<lambda>generator.
      Inr (handler_base.extend h
             (Handler.fields trust1 validator signer generator)))))))"

definition New ::
  "'a platform_scheme \<Rightarrow> filesystem \<Rightarrow> ocsp_client \<Rightarrow> io_reader \<Rightarrow>
   Configuration option \<Rightarrow> 'x Option list \<Rightarrow> 'x Handler result option" where
  "New P fs http reader config options =
     (case config of
        None \<Rightarrow> Some (Inl (ErrorString ''webeid: configuration is required''))
      | Some cfg \<Rightarrow>
          let h = foldl (\<lambda>h opt. opt h)
                \<lparr>h_config = cfg, h_store = session_store, h_runtimeTrust = False,
                 h_ocspTransport = None, h_assertionIssuer = None, h_publishedKeys = None\<rparr> options in
          map_option (\<lambda>loaded. bindE (initial_trust (h_runtimeTrust h) loaded) (wire P http reader h))
            (loadTrustedCAs P fs (cfg_TrustedCACertsPath cfg)))"

definition ReloadTrust ::
  "'a platform_scheme \<Rightarrow> filesystem \<Rightarrow> 'x Handler \<Rightarrow> (int result \<times> 'x Handler) option" where
  "ReloadTrust P fs h =
     map_option (\<lambda>loaded. case loaded of
         Inl err \<Rightarrow> (Inl err, h)
       | Inr cas \<Rightarrow>
           (case Reload (h_trust h) cas of
              (Some err, _) \<Rightarrow> (Inl err, h)
            | (None, trust') \<Rightarrow> (Inr (int (length cas)), h\<lparr>h_trust := trust'\<rparr>)))
       (loadTrustedCAs P fs (cfg_TrustedCACertsPath (h_config h)))"

section \<open>Lemmas\<close>

lemma initial_trust_Inr:
  "initial_trust runtime loaded = Inr ts \<longleftrightarrow>
     (\<exists>cas. loaded = Inr cas \<and> cas \<noteq> [] \<and> ts = \<lparr>snap = newTrustSnapshot cas\<rparr>) \<or>
     (\<exists>err. loaded = Inl err \<and> runtime \<and> emptyTrustSource err \<and> ts = \<lparr>snap = newTrustSnapshot []\<rparr>)"
  by (auto simp: initial_trust_def Reload_def NewRuntimeTrustStore_def Let_def
      split: sum.splits if_splits)

text \<open>The builder that the chain of calls in \<^verbatim>\<open>buildValidator\<close> ends with.\<close>

definition configured_builder :: "Configuration \<Rightarrow> TrustStore \<Rightarrow> oid list \<Rightarrow> AuthTokenValidatorBuilder" where
  "configured_builder cfg trust policies =
     \<lparr>ab_origins = cfg_Origins cfg, ab_allowInsecureLocalhost = cfg_AllowInsecureLocalhost cfg,
      ab_trustedCAs = [], ab_trustStore = Some trust, ab_ocspEnabled = cfg_OCSPEnabled cfg,
      ab_ocspClient = None,
      ab_ocspRequestTimeout = (if cfg_OCSPRequestTimeout cfg > 0 then cfg_OCSPRequestTimeout cfg else 5 * second),
      ab_designatedOCSP = designatedConfig cfg, ab_nonceDisabledOCSPURL = cfg_OCSPNonceDisabledURLs cfg,
      ab_allowedOCSPURLs = cfg_OCSPAllowedResponderURLs cfg, ab_ocspSkew = 15 * minute,
      ab_ocspMaxThisUpdateAge = 2 * minute, ab_disallowedPolicies = policies\<rparr>"

lemma buildValidator_eq:
  "buildValidator P http cfg trust =
     bindE (if cfg_DisallowedPolicyOIDs cfg = [] then Inr DefaultDisallowedPolicies
            else ParseOIDs (tables P) (cfg_DisallowedPolicyOIDs cfg))
       (\<lambda>policies. Build P http (configured_builder cfg trust policies))"
  by (cases "ParseOIDs (tables P) (cfg_DisallowedPolicyOIDs cfg)"; cases "designatedConfig cfg")
    (simp_all add: buildValidator_def configured_builder_def WithAllowedOcspResponderURLs_def
      WithNonceDisabledOcspUrls_def WithOcspRequestTimeout_def WithTrustStore_def WithSiteOrigins_def
      NewAuthTokenValidatorBuilder_def WithAllowInsecureLocalhostOrigin_def
      WithDisallowedCertificatePolicies_def WithoutUserCertificateRevocationCheckWithOcsp_def
      WithDesignatedOcspServiceConfiguration_def Let_def)

lemma buildValidator_Inr:
  assumes "buildValidator P http cfg trust = Inr (v, ts)"
  shows "ts = trust" and "ocspEnabled v = cfg_OCSPEnabled cfg"
    and "list_all (canonical_origin P (cfg_AllowInsecureLocalhost cfg)) (origins v)"
    and "length (origins v) = length (cfg_Origins cfg)" and "origins v \<noteq> []"
    and "(if cfg_DisallowedPolicyOIDs cfg = [] then Inr DefaultDisallowedPolicies
      else ParseOIDs (tables P) (cfg_DisallowedPolicyOIDs cfg)) = Inr (disallowedPolicies v)"
    and "ocspChecker v = (if cfg_OCSPEnabled cfg then Some (NewChecker http
        \<lparr>Client = None,
         RequestTimeout = (if cfg_OCSPRequestTimeout cfg > 0 then cfg_OCSPRequestTimeout cfg else 5 * second),
         Designated = designatedConfig cfg, NonceDisabledURLs = cfg_OCSPNonceDisabledURLs cfg,
         AllowedResponderURLs = cfg_OCSPAllowedResponderURLs cfg,
         AllowedResponseTimeSkew = 15 * minute, MaxResponseThisUpdateAge = 2 * minute\<rparr>) else None)"
proof -
  obtain ps os where ps: "(if cfg_DisallowedPolicyOIDs cfg = [] then Inr DefaultDisallowedPolicies
      else ParseOIDs (tables P) (cfg_DisallowedPolicyOIDs cfg)) = Inr ps"
    and os: "list_all2 (\<lambda>o1 s. normalizeOrigin P o1 (cfg_AllowInsecureLocalhost cfg) = Inr s)
      (cfg_Origins cfg) os"
    and ne: "cfg_Origins cfg \<noteq> []" and v: "ts = trust" "origins v = os" "disallowedPolicies v = ps"
      "ocspEnabled v = cfg_OCSPEnabled cfg"
      "ocspChecker v = (if cfg_OCSPEnabled cfg then Some (NewChecker http
        \<lparr>Client = None,
         RequestTimeout = (if cfg_OCSPRequestTimeout cfg > 0 then cfg_OCSPRequestTimeout cfg else 5 * second),
         Designated = designatedConfig cfg, NonceDisabledURLs = cfg_OCSPNonceDisabledURLs cfg,
         AllowedResponderURLs = cfg_OCSPAllowedResponderURLs cfg,
         AllowedResponseTimeSkew = 15 * minute, MaxResponseThisUpdateAge = 2 * minute\<rparr>) else None)"
    using assms unfolding buildValidator_eq bindE_Inr Build_def
    by (auto simp: configured_builder_def resolve_trust_def result_simps split: if_splits)
  show "list_all (canonical_origin P (cfg_AllowInsecureLocalhost cfg)) (origins v)"
    using os v by (auto simp: list_all_length list_all2_conv_all_nth intro: normalizeOrigin_canonical)
  show "length (origins v) = length (cfg_Origins cfg)" "origins v \<noteq> []"
    using v ne list_all2_lengthD [OF os] by auto
  show "(if cfg_DisallowedPolicyOIDs cfg = [] then Inr DefaultDisallowedPolicies
      else ParseOIDs (tables P) (cfg_DisallowedPolicyOIDs cfg)) = Inr (disallowedPolicies v)"
    using ps v by simp
  show "ts = trust" "ocspEnabled v = cfg_OCSPEnabled cfg" using v by simp_all
  show "ocspChecker v = (if cfg_OCSPEnabled cfg then Some (NewChecker http
        \<lparr>Client = None,
         RequestTimeout = (if cfg_OCSPRequestTimeout cfg > 0 then cfg_OCSPRequestTimeout cfg else 5 * second),
         Designated = designatedConfig cfg, NonceDisabledURLs = cfg_OCSPNonceDisabledURLs cfg,
         AllowedResponderURLs = cfg_OCSPAllowedResponderURLs cfg,
         AllowedResponseTimeSkew = 15 * minute, MaxResponseThisUpdateAge = 2 * minute\<rparr>) else None)"
    by (rule v(5))
qed

lemma wire_Inr:
  assumes "wire P http reader h0 trust = Inr h"
  shows "h_config h = h_config h0 \<and> h_store h = h_store h0 \<and> h_runtimeTrust h = h_runtimeTrust h0 \<and>
      h_assertionIssuer h = h_assertionIssuer h0 \<and> h_publishedKeys h = h_publishedKeys h0"
    and "h_trust h = trust"
    and "buildValidator P http (h_config h0) trust = Inr (h_validator h, trust)"
    and "hashPreference (h_signer h) = cfg_SigningHashPreference (h_config h0)"
    and "list_all IsSupportedHashFunction (hashPreference (h_signer h))" and "hasTrust (h_signer h)"
    and "sg_ocspChecker (h_signer h) = signer_checker http (h_config h0) (h_ocspTransport h0)"
    and "ParseOIDs (tables P) (cfg_SigningAcceptedPolicyOIDs (h_config h0)) = Inr (acceptedPolicies (h_signer h))"
    and "h_generator h = \<lparr>gen_store = h_store h0, gen_nonceSize = 32, gen_random = reader\<rparr>"
proof -
  obtain v ts acc sg g where v: "buildValidator P http (h_config h0) trust = Inr (v, ts)"
    and acc: "ParseOIDs (tables P) (cfg_SigningAcceptedPolicyOIDs (h_config h0)) = Inr acc"
    and sg: "NewSigner \<lparr>HashPreference = cfg_SigningHashPreference (h_config h0), Trust = True,
        OCSPChecker = signer_checker http (h_config h0) (h_ocspTransport h0), AcceptedPolicies = acc\<rparr> = Inr sg"
    and g: "fst (Generator_Build (WithNonceTTL (cfg_NonceTTL (h_config h0))
        (WithChallengeNonceStore (Some (h_store h0)) (NewChallengeNonceGeneratorBuilder reader)))) = Inr g"
    and h: "h = handler_base.extend h0 (Handler.fields ts v sg g)"
    using assms by (auto simp: wire_def bindE_Inr Let_def)
  have ts: "ts = trust" by (rule buildValidator_Inr(1) [OF v])
  have gen: "g = \<lparr>gen_store = h_store h0, gen_nonceSize = 32, gen_random = reader\<rparr>"
    using g by (auto simp: Generator_Build_def WithNonceTTL_def WithChallengeNonceStore_def
        NewChallengeNonceGeneratorBuilder_def minNonceBytes_def Let_def split: if_splits)
  note fields = handler_base.defs Handler.defs
  show "h_config h = h_config h0 \<and> h_store h = h_store h0 \<and> h_runtimeTrust h = h_runtimeTrust h0 \<and>
      h_assertionIssuer h = h_assertionIssuer h0 \<and> h_publishedKeys h = h_publishedKeys h0"
    "h_trust h = trust"
    "h_generator h = \<lparr>gen_store = h_store h0, gen_nonceSize = 32, gen_random = reader\<rparr>"
    "buildValidator P http (h_config h0) trust = Inr (h_validator h, trust)"
    using h ts gen v by (simp_all add: fields)
  show "hashPreference (h_signer h) = cfg_SigningHashPreference (h_config h0)"
    "list_all IsSupportedHashFunction (hashPreference (h_signer h))" "hasTrust (h_signer h)"
    "sg_ocspChecker (h_signer h) = signer_checker http (h_config h0) (h_ocspTransport h0)"
    "ParseOIDs (tables P) (cfg_SigningAcceptedPolicyOIDs (h_config h0)) = Inr (acceptedPolicies (h_signer h))"
    using h sg acc by (simp_all add: fields NewSigner_Inr)
qed

lemma ReloadTrust_Inl:
  "loadTrustedCAs P fs (cfg_TrustedCACertsPath (h_config h)) = Some (Inl e) \<Longrightarrow>
     ReloadTrust P fs h = Some (Inl e, h)"
  by (simp add: ReloadTrust_def)

lemma ReloadTrust_Inr:
  "loadTrustedCAs P fs (cfg_TrustedCACertsPath (h_config h)) = Some (Inr cas) \<Longrightarrow>
     ReloadTrust P fs h = Some (if cas = [] then (Inl errNoTrustedCA, h)
       else (Inr (int (length cas)), h\<lparr>h_trust := \<lparr>snap = newTrustSnapshot cas\<rparr>\<rparr>))"
  by (cases "h_trust h") (simp add: ReloadTrust_def Reload_def)

text \<open>The base of a handler after its options.\<close>

definition with_options :: "Configuration \<Rightarrow> 'x Option list \<Rightarrow> 'x handler_base" where
  "with_options cfg options = foldl (\<lambda>h opt. opt h)
     \<lparr>h_config = cfg, h_store = session_store, h_runtimeTrust = False,
      h_ocspTransport = None, h_assertionIssuer = None, h_publishedKeys = None\<rparr> options"

lemma New_Some:
  "New P fs http reader (Some cfg) options =
     map_option (\<lambda>loaded. bindE (initial_trust (h_runtimeTrust (with_options cfg options)) loaded)
         (wire P http reader (with_options cfg options)))
       (loadTrustedCAs P fs (cfg_TrustedCACertsPath cfg))"
  by (simp add: New_def with_options_def Let_def)

lemma New_Inr:
  "New P fs http reader (Some cfg) options = Some (Inr h) \<longleftrightarrow>
     (\<exists>loaded trust. loadTrustedCAs P fs (cfg_TrustedCACertsPath cfg) = Some loaded \<and>
        initial_trust (h_runtimeTrust (with_options cfg options)) loaded = Inr trust \<and>
        wire P http reader (with_options cfg options) trust = Inr h)"
  by (auto simp: New_Some bindE_Inr)

section \<open>A sample deployment\<close>

text \<open>A trust directory with one PEM file, a PEM file without certificates, and paths that do not exist.\<close>

definition sample_fs :: filesystem where
  "sample_fs =
     \<lparr>ReadFile = (\<lambda>p. Inr [1, 2]),
      ReadDir = (\<lambda>d. Inr [\<lparr>entry_Name = ''ca.pem'', entry_IsDir = False\<rparr>]),
      StatIsDir = (\<lambda>p. if p = ''/trust'' then Inr True else if p = ''/empty.pem'' then Inr False
        else Inl (FmtError ''stat %s: %w'' [p] (Some os_ErrNotExist))),
      Open = (\<lambda>p. Inr (Inr []))\<rparr>"

lemma sample_load_any:
  "pem_Decode P = sample_pem \<Longrightarrow> ParseCertificate P = sample_parse \<Longrightarrow>
     loadTrustedCAs P sample_fs ''/trust'' = Some (Inr [sample_cert [2]])"
  by (simp add: loadTrustedCAs_def sample_fs_def LoadCertificatesFromDir_def load_entry_def
      LoadCertificatesFromPEM_def pem_loop.simps sample_pem_def sample_parse_def Let_def)

lemma sample_load:
  "loadTrustedCAs sample_platform sample_fs ''/trust'' = Some (Inr [sample_cert [2]])"
  "loadTrustedCAs sample_ocsp sample_fs ''/trust'' = Some (Inr [sample_cert [2]])"
  by (rule sample_load_any; simp add: sample_platform_def sample_ocsp_def platform.defs ocsp_platform.defs)+

lemma sample_load_missing:
  "loadTrustedCAs sample_platform sample_fs ''/later'' =
     Some (Inl (FmtError ''stat %s: %w'' [''/later''] (Some os_ErrNotExist)))"
  by (simp add: loadTrustedCAs_def sample_fs_def)

lemma sample_platform_url: "url_Parse sample_platform = sample_url"
  by (simp add: sample_platform_def)

lemma sample_wire:
  assumes "h_config h0 = sample_config\<lparr>cfg_TrustedCACertsPath := p, cfg_OCSPEnabled := e\<rparr>"
    and "url_Parse P = sample_url"
  shows "\<exists>h. wire P sample_client (\<lambda>_. sample_rand) h0 ts = Inr h"
proof -
  have "normalizeOrigin P ''https://app.test'' False = Inr ''https://app.test''"
    by (simp add: normalizeOrigin_def assms(2) sample_url_def TrimPrefix_def HasPrefix_def
        TrimSuffix_def HasSuffix_def)
  then have "\<exists>v. buildValidator P sample_client (h_config h0) ts = Inr (v, ts)"
    by (simp add: buildValidator_eq assms(1) sample_config_def configured_builder_def Build_def resolve_trust_def)
  then show ?thesis
    by (auto simp: wire_def assms(1) sample_config_def ParseOIDs_def NewSigner_def IsSupportedHashFunction_def
        SupportedHashFunctions_def Generator_Build_def WithNonceTTL_def WithChallengeNonceStore_def
        NewChallengeNonceGeneratorBuilder_def Let_def)
qed

lemma sample_New:
  "\<exists>h. New sample_platform sample_fs sample_client (\<lambda>_. sample_rand) (Some sample_config) ([] :: unit Option list) = Some (Inr h)"
proof -
  have "h_config (with_options sample_config ([] :: unit Option list)) =
      sample_config\<lparr>cfg_TrustedCACertsPath := ''/trust'', cfg_OCSPEnabled := False\<rparr>"
    by (simp add: with_options_def sample_config_def)
  from sample_wire [OF this sample_platform_url, of "\<lparr>snap = newTrustSnapshot [sample_cert [2]]\<rparr>"]
  show ?thesis
    using sample_load by (auto simp: New_Inr initial_trust_Inr sample_config_def)
qed

section \<open>Properties\<close>

text \<open>A reload of the trust material either reports the number of certificates it read, at least one, and
  replaces the trusted set by exactly those, changing nothing else of the handler; or it reports an
  error and the handler is unchanged.\<close>

theorem ReloadTrust_all_or_nothing:
  "(ReloadTrust P fs h = Some (Inr n, h') \<longleftrightarrow>
      (\<exists>cas. loadTrustedCAs P fs (cfg_TrustedCACertsPath (h_config h)) = Some (Inr cas) \<and> cas \<noteq> [] \<and>
         n = int (length cas) \<and> h' = h\<lparr>h_trust := \<lparr>snap = newTrustSnapshot cas\<rparr>\<rparr>)) \<and>
   (\<nexists>e. ReloadTrust P fs h = Some (Inl e, h') \<and> h' \<noteq> h)"
proof (cases "loadTrustedCAs P fs (cfg_TrustedCACertsPath (h_config h))")
  case (Some loaded)
  then show ?thesis by (cases loaded) (auto simp: ReloadTrust_Inl ReloadTrust_Inr)
qed (simp add: ReloadTrust_def)



lemma empty_trust_rejects:
  assumes "\<And>c t kus. chain_Verify P c [] t kus \<noteq> None" and "pool (verify_snap R) = []"
  shows "Validate P v R token nonce \<noteq> Inr cert"
proof (cases token)
  case None
  then show ?thesis by (simp add: Validate_def)
next
  case (Some t)
  then show ?thesis using assms by (auto simp: Validate_Inr TrustStore_Verify_None)
qed

text \<open>C27: With runtime-managed trust a handler starts on a missing or empty trust source and trusts nothing:
  no token is accepted and no signing certificate is prepared against that store, whatever the
  request. Without that option the same source makes construction fail with the loading error.\<close>

theorem runtime_trust_fails_closed:
  assumes "loadTrustedCAs P fs (cfg_TrustedCACertsPath cfg) = Some (Inl err)" and "emptyTrustSource err"
    and "\<And>c t kus. chain_Verify P c [] t kus \<noteq> None"
    and "New P fs http reader (Some cfg) [WithRuntimeTrust] = Some (Inr h)"
  shows "Intermediates (h_trust h) = [] \<and>
     (\<nexists>R token nonce cert. verify_snap R = snap (h_trust h) \<and> Validate P (h_validator h) R token nonce = Inr cert) \<and>
     (\<nexists>R der supported res. sg_verify_snap R = snap (h_trust h) \<and>
        PrepareSigning P (h_signer h) R der supported = Inr res) \<and>
     New P fs http reader (Some cfg) ([] :: 'x Option list) = Some (Inl err)"
proof -
  obtain trust where it: "initial_trust True (Inl err) = Inr trust"
    and w: "wire P http reader (with_options cfg [WithRuntimeTrust]) trust = Inr h"
    using assms(1, 4) by (auto simp: New_Inr with_options_def WithRuntimeTrust_def)
  have trust: "trust = \<lparr>snap = newTrustSnapshot []\<rparr>" using it by (simp add: initial_trust_Inr)
  have pool: "pool (snap (h_trust h)) = []" and none: "Intermediates (h_trust h) = []"
    using wire_Inr(2) [OF w] trust by (simp_all add: newTrustSnapshot_def Intermediates_def)
  have "\<nexists>R token nonce cert. verify_snap R = snap (h_trust h) \<and> Validate P (h_validator h) R token nonce = Inr cert"
    using empty_trust_rejects [OF assms(3)] pool by metis
  moreover have "\<nexists>R der supported res. sg_verify_snap R = snap (h_trust h) \<and>
      PrepareSigning P (h_signer h) R der supported = Inr res"
    using wire_Inr(6) [OF w] pool assms(3)
    by (auto simp: PrepareSigning_Inr checkSigningTrust_None TrustStore_Verify_None)
  moreover have "New P fs http reader (Some cfg) ([] :: 'x Option list) = Some (Inl err)"
    using assms(1) by (simp add: New_Some with_options_def initial_trust_def)
  ultimately show ?thesis using none by blast
qed

theorem runtime_trust_fails_closed_witness:
  "\<exists>h. New sample_ocsp sample_fs sample_client (\<lambda>_. sample_rand)
        (Some (sample_config\<lparr>cfg_TrustedCACertsPath := ''/later''\<rparr>)) [WithRuntimeTrust :: unit Option] = Some (Inr h) \<and>
     Intermediates (h_trust h) = []"
proof -
  let ?cfg = "sample_config\<lparr>cfg_TrustedCACertsPath := ''/later''\<rparr>"
  let ?err = "FmtError ''stat %s: %w'' [''/later''] (Some os_ErrNotExist)"
  have load: "loadTrustedCAs sample_ocsp sample_fs (cfg_TrustedCACertsPath ?cfg) = Some (Inl ?err)"
    by (simp add: loadTrustedCAs_def sample_fs_def)
  have empty: "emptyTrustSource ?err" by (simp add: emptyTrustSource_def os_ErrNotExist_def)
  have chain: "chain_Verify sample_ocsp c [] t kus \<noteq> None" for c t kus by simp
  have "h_config (with_options ?cfg [WithRuntimeTrust :: unit Option]) =
      sample_config\<lparr>cfg_TrustedCACertsPath := ''/later'', cfg_OCSPEnabled := False\<rparr>"
    by (simp add: with_options_def WithRuntimeTrust_def sample_config_def)
  from sample_wire [OF this, of sample_ocsp "\<lparr>snap = newTrustSnapshot []\<rparr>"]
  obtain h where h: "New sample_ocsp sample_fs sample_client (\<lambda>_. sample_rand) (Some ?cfg)
      [WithRuntimeTrust :: unit Option] = Some (Inr h)"
    using load empty
    by (auto simp: New_Inr initial_trust_Inr) (auto simp: with_options_def WithRuntimeTrust_def)
  from runtime_trust_fails_closed [OF load empty chain h] h show ?thesis by blast
qed

text \<open>A custom OCSP transport reaches the signer's revocation checker only: with OCSP on, the validator's
  checker keeps the default HTTP client.\<close>

theorem OCSP_transport_signer_only:
  assumes "cfg_OCSPEnabled cfg"
    and "New P fs http reader (Some cfg) [WithOCSPTransport (Some rt)] = Some (Inr h)"
  shows "\<exists>c d. ocspChecker (h_validator h) = Some c \<and> Client (opts c) = Some http \<and>
     sg_ocspChecker (h_signer h) = Some d \<and> Client (opts d) = Some rt"
proof -
  obtain trust where w: "wire P http reader (with_options cfg [WithOCSPTransport (Some rt)]) trust = Inr h"
    using assms(2) by (auto simp: New_Inr)
  have opt: "h_config (with_options cfg [WithOCSPTransport (Some rt)]) = cfg"
    "h_ocspTransport (with_options cfg [WithOCSPTransport (Some rt)]) = Some rt"
    by (simp_all add: with_options_def WithOCSPTransport_def)
  note wi = wire_Inr [OF w, unfolded opt]
  show ?thesis
    using wi(7) buildValidator_Inr(7) [OF wi(3)] assms(1)
    by (simp add: signer_checker_def NewChecker_def DefaultOptions_def Let_def)
qed

theorem OCSP_transport_signer_only_witness:
  "\<exists>h c d. New sample_platform sample_fs sample_client (\<lambda>_. sample_rand)
       (Some (sample_config\<lparr>cfg_OCSPEnabled := True\<rparr>)) [WithOCSPTransport (Some (\<lambda>u r t now. Inr [])) :: unit Option] =
       Some (Inr h) \<and>
     ocspChecker (h_validator h) = Some c \<and> Client (opts c) = Some sample_client \<and>
     sg_ocspChecker (h_signer h) = Some d \<and> Client (opts d) = Some (\<lambda>u r t now. Inr [])"
proof -
  let ?cfg = "sample_config\<lparr>cfg_OCSPEnabled := True\<rparr>"
  let ?os = "[WithOCSPTransport (Some (\<lambda>u r t now. Inr [])) :: unit Option]"
  have "h_config (with_options ?cfg ?os) =
      sample_config\<lparr>cfg_TrustedCACertsPath := ''/trust'', cfg_OCSPEnabled := True\<rparr>"
    by (simp add: with_options_def WithOCSPTransport_def sample_config_def)
  from sample_wire [OF this sample_platform_url, of "\<lparr>snap = newTrustSnapshot [sample_cert [2]]\<rparr>"]
  obtain h where h: "New sample_platform sample_fs sample_client (\<lambda>_. sample_rand) (Some ?cfg) ?os = Some (Inr h)"
    using sample_load by (auto simp: New_Inr initial_trust_Inr sample_config_def)
  have "cfg_OCSPEnabled ?cfg" by simp
  from OCSP_transport_signer_only [OF this h] h show ?thesis by blast
qed

text \<open>A trust path that is a PEM file without a certificate is not treated as an empty trust source: even
  with runtime-managed trust, construction fails on it.\<close>

theorem runtime_trust_empty_PEM_fails:
  assumes "StatIsDir fs (cfg_TrustedCACertsPath cfg) = Inr False"
    and "Open fs (cfg_TrustedCACertsPath cfg) = Inr (Inr data)" and "pem_Decode P data = None"
  shows "New P fs http reader (Some cfg) [WithRuntimeTrust] = Some (Inl errNoPEMCertificates)"
  using assms
  by (simp add: New_Some loadTrustedCAs_def LoadCertificatesFromPEM_def pem_loop.simps with_options_def
      WithRuntimeTrust_def initial_trust_def emptyTrustSource_def errNoPEMCertificates_def
      os_ErrNotExist_def ErrNoCertificatesFound_def)

theorem runtime_trust_empty_PEM_fails_witness:
  "New sample_platform sample_fs sample_client (\<lambda>_. sample_rand)
     (Some (sample_config\<lparr>cfg_TrustedCACertsPath := ''/empty.pem''\<rparr>)) [WithRuntimeTrust :: unit Option] =
   Some (Inl errNoPEMCertificates)"
  by (rule runtime_trust_empty_PEM_fails [where data = "[]"])
    (simp_all add: sample_fs_def sample_platform_def sample_pem_def)

lemma tagged_hash:
  "list_all (\<lambda>h. h \<in> {''SHA-224'', ''SHA-256'', ''SHA-384'', ''SHA-512'', ''SHA3-224'', ''SHA3-256'',
      ''SHA3-384'', ''SHA3-512''}) hs \<longleftrightarrow> list_all IsSupportedHashFunction hs"
proof -
  have "IsSupportedHashFunction h \<longleftrightarrow> h \<in> set SupportedHashFunctions" for h
    unfolding IsSupportedHashFunction_def list_ex_iff by blast
  then have "list_all IsSupportedHashFunction hs \<longleftrightarrow> list_all (\<lambda>h. h \<in> set SupportedHashFunctions) hs"
    by (intro list_all_cong refl)
  then show ?thesis unfolding SupportedHashFunctions_def list.set by (rule sym)
qed

lemma signer_made:
  "hs \<noteq> [] \<Longrightarrow> list_all IsSupportedHashFunction hs \<Longrightarrow>
     \<exists>s. NewSigner \<lparr>HashPreference = hs, Trust = t, OCSPChecker = k, AcceptedPolicies = acc\<rparr> = Inr s"
  by (simp add: NewSigner_Inr)

lemma generator_made:
  "fst (Generator_Build (WithNonceTTL t (WithChallengeNonceStore (Some st)
     (NewChallengeNonceGeneratorBuilder reader)))) \<noteq> Inl err"
  by (simp add: Generator_Build_def WithNonceTTL_def WithChallengeNonceStore_def
      NewChallengeNonceGeneratorBuilder_def Let_def)



end
