(* ===== verification/Messages.thy ===== *)
theory Messages
  imports Validation Signing Token Assertion
begin

text \<open>
  \<^verbatim>\<open>src/azugo/dto.go\<close>: the bodies of requests and responses, the \<^verbatim>\<open>Validate\<close> methods of the requests
  and the JSON documents that the field tags of these types stand for. Each type is an instance of the
  interface \<open>json_message\<close>: what is written from a value is read back as that value.
\<close>

section \<open>Requests and responses\<close>

record LoginRequest =
  lr_AuthToken :: AuthToken

record ValidateRequest =
  vr_AuthToken :: AuthToken
  vr_Nonce :: string

record SubjectResponse =
  sr_CommonName :: string
  sr_IDCode :: string
  sr_CountryCode :: string
  sr_GivenName :: string
  sr_Surname :: string

record SigningCertificateRequest =
  sc_Certificate :: string
  sc_SupportedSignatureAlgorithms :: "SignatureAlgorithm list"

record FinalizeRequest =
  fq_Signature :: string
  fq_SignatureAlgorithm :: SignatureAlgorithm
  fq_AuthCertificate :: string
  fq_Digest :: string
  fq_SigningCertificate :: string

record FinalizeResponse =
  fr_Status :: string
  fr_Signature :: string
  fr_AuthCertificate :: string
  fr_SignatureVerified :: bool
  fr_IdentityBound :: bool

text \<open>The tagged fields of the request types and their \<^verbatim>\<open>Validate\<close> methods.\<close>

definition zero_token :: "AuthToken \<Rightarrow> bool" where
  "zero_token t \<longleftrightarrow> t = \<lparr>UnverifiedCertificate = [], Algorithm = [], tok_Signature = [], Format = [], AppVersion = []\<rparr>"

definition LoginRequest_Validate :: "struct_validator \<Rightarrow> LoginRequest \<Rightarrow> goerror option" where
  "LoginRequest_Validate valid_Struct r =
     valid_Struct [(''AuthToken'', StructField (zero_token (lr_AuthToken r)), [Required])]"

definition ValidateRequest_Validate :: "struct_validator \<Rightarrow> ValidateRequest \<Rightarrow> goerror option" where
  "ValidateRequest_Validate valid_Struct r =
     valid_Struct [(''AuthToken'', StructField (zero_token (vr_AuthToken r)), [Required]),
       (''Nonce'', StringField (vr_Nonce r), [Required])]"

definition SigningCertificateRequest_Validate ::
  "struct_validator \<Rightarrow> SigningCertificateRequest \<Rightarrow> goerror option" where
  "SigningCertificateRequest_Validate valid_Struct r =
     valid_Struct [(''Certificate'', StringField (sc_Certificate r), [Required]),
       (''SupportedSignatureAlgorithms'', SliceField (length (sc_SupportedSignatureAlgorithms r)), [Required, Min 1])]"

definition FinalizeRequest_Validate :: "struct_validator \<Rightarrow> FinalizeRequest \<Rightarrow> goerror option" where
  "FinalizeRequest_Validate valid_Struct r =
     valid_Struct [(''Signature'', StringField (fq_Signature r), [Required]),
       (''SignatureAlgorithm'', StructField (fq_SignatureAlgorithm r = \<lparr>CryptoAlgorithm = [], HashFunction = [], PaddingScheme = []\<rparr>), []),
       (''AuthCertificate'', StringField (fq_AuthCertificate r), [Required]),
       (''Digest'', StringField (fq_Digest r), []),
       (''SigningCertificate'', StringField (fq_SigningCertificate r), [])]"

datatype payload =
    ChallengeResponse string
  | SubjectPayload SubjectResponse
  | AssertionResponse string SubjectResponse
  | SigningCertificateResponse SignatureAlgorithm string
  | FinalizePayload FinalizeResponse
  | JWKSPayload JWKS

section \<open>JSON documents\<close>

subsection \<open>Signature algorithms and subjects\<close>

definition SignatureAlgorithm_zero :: SignatureAlgorithm where
  "SignatureAlgorithm_zero = \<lparr>CryptoAlgorithm = [], HashFunction = [], PaddingScheme = []\<rparr>"

definition SignatureAlgorithm_fields :: "SignatureAlgorithm field list" where
  "SignatureAlgorithm_fields =
     [(''cryptoAlgorithm'', set_string (\<lambda>s a. a\<lparr>CryptoAlgorithm := s\<rparr>)),
      (''hashFunction'', set_string (\<lambda>s a. a\<lparr>HashFunction := s\<rparr>)),
      (''paddingScheme'', set_string (\<lambda>s a. a\<lparr>PaddingScheme := s\<rparr>))]"

definition SignatureAlgorithm_json :: "SignatureAlgorithm \<Rightarrow> json" where
  "SignatureAlgorithm_json a = JObj (string_member ''cryptoAlgorithm'' (CryptoAlgorithm a) @
     string_member ''hashFunction'' (HashFunction a) @ string_member ''paddingScheme'' (PaddingScheme a))"

definition SubjectResponse_zero :: SubjectResponse where
  "SubjectResponse_zero = \<lparr>sr_CommonName = [], sr_IDCode = [], sr_CountryCode = [], sr_GivenName = [], sr_Surname = []\<rparr>"

definition SubjectResponse_fields :: "SubjectResponse field list" where
  "SubjectResponse_fields =
     [(''commonName'', set_string (\<lambda>s r. r\<lparr>sr_CommonName := s\<rparr>)),
      (''idCode'', set_string (\<lambda>s r. r\<lparr>sr_IDCode := s\<rparr>)),
      (''countryCode'', set_string (\<lambda>s r. r\<lparr>sr_CountryCode := s\<rparr>)),
      (''givenName'', set_string (\<lambda>s r. r\<lparr>sr_GivenName := s\<rparr>)),
      (''surname'', set_string (\<lambda>s r. r\<lparr>sr_Surname := s\<rparr>))]"

definition SubjectResponse_json :: "SubjectResponse \<Rightarrow> json" where
  "SubjectResponse_json r = JObj (omitempty ''commonName'' (sr_CommonName r) @ omitempty ''idCode'' (sr_IDCode r) @
     omitempty ''countryCode'' (sr_CountryCode r) @ omitempty ''givenName'' (sr_GivenName r) @
     omitempty ''surname'' (sr_Surname r))"

definition utf8_algorithm :: "SignatureAlgorithm \<Rightarrow> bool" where
  "utf8_algorithm a \<longleftrightarrow> list_all valid_utf8 [CryptoAlgorithm a, HashFunction a, PaddingScheme a]"

definition utf8_response_subject :: "SubjectResponse \<Rightarrow> bool" where
  "utf8_response_subject r \<longleftrightarrow> list_all valid_utf8
     [sr_CommonName r, sr_IDCode r, sr_CountryCode r, sr_GivenName r, sr_Surname r]"

interpretation algorithm_json: json_message SignatureAlgorithm_json
  "decode_struct SignatureAlgorithm_fields SignatureAlgorithm_zero" utf8_algorithm
proof
  show "utf8_algorithm a \<Longrightarrow>
      decode_struct SignatureAlgorithm_fields SignatureAlgorithm_zero (SignatureAlgorithm_json a) = Some a" for a
    by (cases a) (simp add: utf8_algorithm_def SignatureAlgorithm_json_def SignatureAlgorithm_fields_def
        SignatureAlgorithm_zero_def json_simps)
qed (simp_all add: SignatureAlgorithm_json_def)

interpretation subject_json: json_message SubjectResponse_json
  "decode_struct SubjectResponse_fields SubjectResponse_zero" utf8_response_subject
proof
  show "utf8_response_subject r \<Longrightarrow>
      decode_struct SubjectResponse_fields SubjectResponse_zero (SubjectResponse_json r) = Some r" for r
    by (cases r) (simp add: utf8_response_subject_def SubjectResponse_json_def SubjectResponse_fields_def
        SubjectResponse_zero_def json_simps)
qed (simp_all add: SubjectResponse_json_def)

subsection \<open>Requests\<close>

definition LoginRequest_zero :: LoginRequest where
  "LoginRequest_zero = \<lparr>lr_AuthToken = AuthToken_zero\<rparr>"

definition LoginRequest_fields :: "LoginRequest field list" where
  "LoginRequest_fields =
     [(''authToken'', set_struct AuthToken_fields lr_AuthToken (\<lambda>t r. r\<lparr>lr_AuthToken := t\<rparr>))]"

definition LoginRequest_json :: "LoginRequest \<Rightarrow> json" where
  "LoginRequest_json r = JObj (value_member ''authToken'' (JObj (token_members (lr_AuthToken r))))"

definition ValidateRequest_zero :: ValidateRequest where
  "ValidateRequest_zero = \<lparr>vr_AuthToken = AuthToken_zero, vr_Nonce = []\<rparr>"

definition ValidateRequest_fields :: "ValidateRequest field list" where
  "ValidateRequest_fields =
     [(''authToken'', set_struct AuthToken_fields vr_AuthToken (\<lambda>t r. r\<lparr>vr_AuthToken := t\<rparr>)),
      (''nonce'', set_string (\<lambda>s r. r\<lparr>vr_Nonce := s\<rparr>))]"

definition ValidateRequest_json :: "ValidateRequest \<Rightarrow> json" where
  "ValidateRequest_json r = JObj (value_member ''authToken'' (JObj (token_members (vr_AuthToken r))) @
     string_member ''nonce'' (vr_Nonce r))"

definition SigningCertificateRequest_zero :: SigningCertificateRequest where
  "SigningCertificateRequest_zero = \<lparr>sc_Certificate = [], sc_SupportedSignatureAlgorithms = []\<rparr>"

definition SigningCertificateRequest_fields :: "SigningCertificateRequest field list" where
  "SigningCertificateRequest_fields =
     [(''certificate'', set_string (\<lambda>s r. r\<lparr>sc_Certificate := s\<rparr>)),
      (''supportedSignatureAlgorithms'',
       set_slice (decode_struct SignatureAlgorithm_fields SignatureAlgorithm_zero)
         (\<lambda>xs r. r\<lparr>sc_SupportedSignatureAlgorithms := xs\<rparr>))]"

definition SigningCertificateRequest_json :: "SigningCertificateRequest \<Rightarrow> json" where
  "SigningCertificateRequest_json r = JObj (string_member ''certificate'' (sc_Certificate r) @
     value_member ''supportedSignatureAlgorithms''
       (JArr (map SignatureAlgorithm_json (sc_SupportedSignatureAlgorithms r))))"

definition FinalizeRequest_zero :: FinalizeRequest where
  "FinalizeRequest_zero = \<lparr>fq_Signature = [], fq_SignatureAlgorithm = SignatureAlgorithm_zero,
     fq_AuthCertificate = [], fq_Digest = [], fq_SigningCertificate = []\<rparr>"

definition FinalizeRequest_fields :: "FinalizeRequest field list" where
  "FinalizeRequest_fields =
     [(''signature'', set_string (\<lambda>s r. r\<lparr>fq_Signature := s\<rparr>)),
      (''signatureAlgorithm'', set_struct SignatureAlgorithm_fields fq_SignatureAlgorithm
         (\<lambda>a r. r\<lparr>fq_SignatureAlgorithm := a\<rparr>)),
      (''authCertificate'', set_string (\<lambda>s r. r\<lparr>fq_AuthCertificate := s\<rparr>)),
      (''digest'', set_string (\<lambda>s r. r\<lparr>fq_Digest := s\<rparr>)),
      (''signingCertificate'', set_string (\<lambda>s r. r\<lparr>fq_SigningCertificate := s\<rparr>))]"

definition FinalizeRequest_json :: "FinalizeRequest \<Rightarrow> json" where
  "FinalizeRequest_json r = JObj (string_member ''signature'' (fq_Signature r) @
     value_member ''signatureAlgorithm'' (SignatureAlgorithm_json (fq_SignatureAlgorithm r)) @
     string_member ''authCertificate'' (fq_AuthCertificate r) @ omitempty ''digest'' (fq_Digest r) @
     omitempty ''signingCertificate'' (fq_SigningCertificate r))"

definition utf8_login :: "LoginRequest \<Rightarrow> bool" where
  "utf8_login r \<longleftrightarrow> utf8_token (lr_AuthToken r)"

definition utf8_validate :: "ValidateRequest \<Rightarrow> bool" where
  "utf8_validate r \<longleftrightarrow> utf8_token (vr_AuthToken r) \<and> valid_utf8 (vr_Nonce r)"

definition utf8_signing :: "SigningCertificateRequest \<Rightarrow> bool" where
  "utf8_signing r \<longleftrightarrow> valid_utf8 (sc_Certificate r) \<and> list_all utf8_algorithm (sc_SupportedSignatureAlgorithms r)"

definition utf8_finalize :: "FinalizeRequest \<Rightarrow> bool" where
  "utf8_finalize r \<longleftrightarrow> utf8_algorithm (fq_SignatureAlgorithm r) \<and>
     list_all valid_utf8 [fq_Signature r, fq_AuthCertificate r, fq_Digest r, fq_SigningCertificate r]"

interpretation login_json: json_message LoginRequest_json
  "decode_struct LoginRequest_fields LoginRequest_zero" utf8_login
proof
  show "utf8_login r \<Longrightarrow> decode_struct LoginRequest_fields LoginRequest_zero (LoginRequest_json r) = Some r" for r
    by (cases r) (simp add: utf8_login_def LoginRequest_json_def LoginRequest_fields_def LoginRequest_zero_def
        decode_token_members json_simps)
qed (simp_all add: LoginRequest_json_def token_members_def)

interpretation validate_json: json_message ValidateRequest_json
  "decode_struct ValidateRequest_fields ValidateRequest_zero" utf8_validate
proof
  show "utf8_validate r \<Longrightarrow>
      decode_struct ValidateRequest_fields ValidateRequest_zero (ValidateRequest_json r) = Some r" for r
    by (cases r) (simp add: utf8_validate_def ValidateRequest_json_def ValidateRequest_fields_def
        ValidateRequest_zero_def decode_token_members json_simps)
qed (simp_all add: ValidateRequest_json_def token_members_def)

interpretation signing_json: json_message SigningCertificateRequest_json
  "decode_struct SigningCertificateRequest_fields SigningCertificateRequest_zero" utf8_signing
proof
  fix r :: SigningCertificateRequest
  let ?as = "sc_SupportedSignatureAlgorithms r"
  show "utf8_signing r \<Longrightarrow> decode_struct SigningCertificateRequest_fields SigningCertificateRequest_zero
      (SigningCertificateRequest_json r) = Some r"
    using algorithm_json.read_list [of ?as]
    by (cases r) (simp add: utf8_signing_def SigningCertificateRequest_json_def SigningCertificateRequest_fields_def
        SigningCertificateRequest_zero_def json_simps del: decode_slice.simps)
  show "encoded (SigningCertificateRequest_json r)"
    using algorithm_json.list_encoded [of ?as] by (simp add: SigningCertificateRequest_json_def del: encoded.simps(5))
  show "json_depth (SigningCertificateRequest_json r) \<le> 10"
    by (simp add: SigningCertificateRequest_json_def SignatureAlgorithm_json_def foldr_max_le)
qed

interpretation finalize_json: json_message FinalizeRequest_json
  "decode_struct FinalizeRequest_fields FinalizeRequest_zero" utf8_finalize
proof
  show "utf8_finalize r \<Longrightarrow>
      decode_struct FinalizeRequest_fields FinalizeRequest_zero (FinalizeRequest_json r) = Some r" for r
    using algorithm_json.dec_enc [of "fq_SignatureAlgorithm r"]
    by (cases r) (simp add: utf8_finalize_def FinalizeRequest_json_def FinalizeRequest_fields_def
        FinalizeRequest_zero_def json_simps)
qed (simp_all add: FinalizeRequest_json_def SignatureAlgorithm_json_def)

subsection \<open>Responses\<close>

text \<open>The body of a response; \<open>body_json\<close> is the document that \<^verbatim>\<open>ctx.JSON\<close> writes for it.\<close>

definition ChallengeResponse_json :: "string \<Rightarrow> json" where
  "ChallengeResponse_json n = JObj (string_member ''nonce'' n)"

definition ChallengeResponse_fields :: "string field list" where
  "ChallengeResponse_fields = [(''nonce'', set_string (\<lambda>s _. s))]"

definition AssertionResponse_json :: "string \<times> SubjectResponse \<Rightarrow> json" where
  "AssertionResponse_json r = JObj (string_member ''assertion'' (fst r) @ value_member ''subject'' (SubjectResponse_json (snd r)))"

definition AssertionResponse_fields :: "(string \<times> SubjectResponse) field list" where
  "AssertionResponse_fields =
     [(''assertion'', set_string (\<lambda>s r. (s, snd r))),
      (''subject'', set_struct SubjectResponse_fields snd (\<lambda>x r. (fst r, x)))]"

definition SigningCertificateResponse_json :: "SignatureAlgorithm \<times> string \<Rightarrow> json" where
  "SigningCertificateResponse_json r = JObj (value_member ''signatureAlgorithm'' (SignatureAlgorithm_json (fst r)) @
     string_member ''hashFunction'' (snd r))"

definition SigningCertificateResponse_fields :: "(SignatureAlgorithm \<times> string) field list" where
  "SigningCertificateResponse_fields =
     [(''signatureAlgorithm'', set_struct SignatureAlgorithm_fields fst (\<lambda>x r. (x, snd r))),
      (''hashFunction'', set_string (\<lambda>s r. (fst r, s)))]"

definition FinalizeResponse_zero :: FinalizeResponse where
  "FinalizeResponse_zero = \<lparr>fr_Status = [], fr_Signature = [], fr_AuthCertificate = [],
     fr_SignatureVerified = False, fr_IdentityBound = False\<rparr>"

definition FinalizeResponse_fields :: "FinalizeResponse field list" where
  "FinalizeResponse_fields =
     [(''status'', set_string (\<lambda>s r. r\<lparr>fr_Status := s\<rparr>)),
      (''signature'', set_string (\<lambda>s r. r\<lparr>fr_Signature := s\<rparr>)),
      (''authCertificate'', set_string (\<lambda>s r. r\<lparr>fr_AuthCertificate := s\<rparr>)),
      (''signatureVerified'', set_bool (\<lambda>b r. r\<lparr>fr_SignatureVerified := b\<rparr>)),
      (''identityBound'', set_bool (\<lambda>b r. r\<lparr>fr_IdentityBound := b\<rparr>))]"

definition FinalizeResponse_json :: "FinalizeResponse \<Rightarrow> json" where
  "FinalizeResponse_json r = JObj (string_member ''status'' (fr_Status r) @ omitempty ''signature'' (fr_Signature r) @
     omitempty ''authCertificate'' (fr_AuthCertificate r) @
     value_member ''signatureVerified'' (JBool (fr_SignatureVerified r)) @
     value_member ''identityBound'' (JBool (fr_IdentityBound r)))"

fun body_json :: "payload \<Rightarrow> json" where
  "body_json (ChallengeResponse n) = ChallengeResponse_json n"
| "body_json (SubjectPayload r) = SubjectResponse_json r"
| "body_json (AssertionResponse tok r) = AssertionResponse_json (tok, r)"
| "body_json (SigningCertificateResponse a h) = SigningCertificateResponse_json (a, h)"
| "body_json (FinalizePayload r) = FinalizeResponse_json r"
| "body_json (JWKSPayload d) = JObj (value_member ''keys'' (JArr (map encode_JWK (jwks_Keys d))))"

definition utf8_finalized :: "FinalizeResponse \<Rightarrow> bool" where
  "utf8_finalized r \<longleftrightarrow> list_all valid_utf8 [fr_Status r, fr_Signature r, fr_AuthCertificate r]"

interpretation challenge_response_json: json_message ChallengeResponse_json
  "decode_struct ChallengeResponse_fields []" valid_utf8
proof
  show "valid_utf8 n \<Longrightarrow> decode_struct ChallengeResponse_fields [] (ChallengeResponse_json n) = Some n" for n
    by (simp add: ChallengeResponse_json_def ChallengeResponse_fields_def json_simps)
qed (simp_all add: ChallengeResponse_json_def)

interpretation assertion_response_json: json_message AssertionResponse_json
  "decode_struct AssertionResponse_fields ([], SubjectResponse_zero)"
  "\<lambda>r. valid_utf8 (fst r) \<and> utf8_response_subject (snd r)"
proof
  show "valid_utf8 (fst r) \<and> utf8_response_subject (snd r) \<Longrightarrow>
      decode_struct AssertionResponse_fields ([], SubjectResponse_zero) (AssertionResponse_json r) = Some r" for r
    using subject_json.dec_enc [of "snd r"]
    by (cases r) (simp add: AssertionResponse_json_def AssertionResponse_fields_def json_simps)
qed (simp_all add: AssertionResponse_json_def SubjectResponse_json_def)

interpretation signing_response_json: json_message SigningCertificateResponse_json
  "decode_struct SigningCertificateResponse_fields (SignatureAlgorithm_zero, [])"
  "\<lambda>r. utf8_algorithm (fst r) \<and> valid_utf8 (snd r)"
proof
  show "utf8_algorithm (fst r) \<and> valid_utf8 (snd r) \<Longrightarrow>
      decode_struct SigningCertificateResponse_fields (SignatureAlgorithm_zero, []) (SigningCertificateResponse_json r) = Some r" for r
    using algorithm_json.dec_enc [of "fst r"]
    by (cases r) (simp add: SigningCertificateResponse_json_def SigningCertificateResponse_fields_def json_simps)
qed (simp_all add: SigningCertificateResponse_json_def SignatureAlgorithm_json_def)

interpretation finalize_response_json: json_message FinalizeResponse_json
  "decode_struct FinalizeResponse_fields FinalizeResponse_zero" utf8_finalized
proof
  show "utf8_finalized r \<Longrightarrow>
      decode_struct FinalizeResponse_fields FinalizeResponse_zero (FinalizeResponse_json r) = Some r" for r
    by (cases r) (simp add: utf8_finalized_def FinalizeResponse_json_def FinalizeResponse_fields_def
        FinalizeResponse_zero_def json_simps)
qed (simp_all add: FinalizeResponse_json_def)

end
