(* ===== verification/Go_Time.thy ===== *)
theory Go_Time
  imports Go_Strings
begin

text \<open>
  The text form of \<^verbatim>\<open>time.Time\<close> in JSON documents: \<^verbatim>\<open>MarshalJSON\<close> writes RFC 3339 with the
  nanoseconds that are not zero and the offset of the local time zone, \<^verbatim>\<open>UnmarshalJSON\<close> reads it
  strictly. The calendar is the proleptic Gregorian one; years are counted from March, so that the
  leap day ends a year. The main result is that reading what was written gives the instant back when
  the zone's offset is a whole number of minutes, the only ones the format can express.
\<close>

section \<open>The calendar\<close>

definition is_leap :: "int \<Rightarrow> bool" where
  "is_leap y \<longleftrightarrow> y mod 4 = 0 \<and> (y mod 100 \<noteq> 0 \<or> y mod 400 = 0)"

definition daysIn :: "int \<Rightarrow> int \<Rightarrow> int" where
  "daysIn m y = (if m = 2 then (if is_leap y then 29 else 28) else if m \<in> {4, 6, 9, 11} then 30 else 31)"

text \<open>Month and day of the day \<open>doy\<close> of a year that starts on March 1.\<close>

definition month_day :: "int \<Rightarrow> int \<times> int" where
  "month_day doy = (let mp = (5 * doy + 2) div 153 in
     (if mp < 10 then mp + 3 else mp - 9, doy - (153 * mp + 2) div 5 + 1))"

definition day_of_year :: "int \<Rightarrow> int \<Rightarrow> int" where
  "day_of_year m d = (let mp = (if m > 2 then m - 3 else m + 9) in (153 * mp + 2) div 5 + d - 1)"

text \<open>
  The date of a day counted from 1970-01-01: the 400-year cycle, the century in it (the last is a
  day longer), the four years in that, the year in those (the last is a day longer) and the day.
\<close>

definition date_of_days :: "int \<Rightarrow> int \<times> int \<times> int" where
  "date_of_days days =
     (let z = days + 719468; era = z div 146097; doe = z mod 146097;
          c = min 3 (doe div 36524); r1 = doe - 36524 * c;
          q = r1 div 1461; r2 = r1 - 1461 * q;
          a = min 3 (r2 div 365); doy = r2 - 365 * a;
          (m, d) = month_day doy in
      (400 * era + 100 * c + 4 * q + a + (if m \<le> 2 then 1 else 0), m, d))"

definition days_of_date :: "int \<Rightarrow> int \<Rightarrow> int \<Rightarrow> int" where
  "days_of_date y m d =
     (let y' = (if m \<le> 2 then y - 1 else y); yoe = y' mod 400 in
      y' div 400 * 146097 + 365 * yoe + yoe div 4 - yoe div 100 + day_of_year m d - 719468)"

lemma month_day_ok:
  assumes "0 \<le> doy" and "doy \<le> 365" and "month_day doy = (m, d)"
  shows "1 \<le> m \<and> m \<le> 12 \<and> 1 \<le> d \<and> day_of_year m d = doy \<and>
    (if m = 2 then d \<le> (if doy = 365 then 29 else 28) else d \<le> daysIn m y)"
proof -
  define mp where "mp = (5 * doy + 2) div 153"
  have bounds: "153 * mp \<le> 5 * doy + 2" "5 * doy + 2 < 153 * mp + 153"
    using div_mult_mod_eq [of "5 * doy + 2" 153] pos_mod_bound [of 153 "5 * doy + 2"]
      pos_mod_sign [of 153 "5 * doy + 2"] unfolding mp_def by linarith+
  have md: "m = (if mp < 10 then mp + 3 else mp - 9)" "d = doy - (153 * mp + 2) div 5 + 1"
    using assms(3) unfolding month_day_def Let_def mp_def [symmetric] by auto
  have "0 \<le> mp" "mp \<le> 11" using bounds assms(1, 2) by linarith+
  then have "mp = 0 \<or> mp = 1 \<or> mp = 2 \<or> mp = 3 \<or> mp = 4 \<or> mp = 5 \<or> mp = 6 \<or> mp = 7 \<or> mp = 8 \<or>
      mp = 9 \<or> mp = 10 \<or> mp = 11" by presburger
  then show ?thesis
    using bounds assms(2) by (elim disjE) (simp_all add: md day_of_year_def daysIn_def)
qed

text \<open>The place of a day in its 400-year cycle.\<close>

lemma era_split:
  fixes doe :: int
  assumes "0 \<le> doe" and "doe < 146097"
  defines "c \<equiv> min 3 (doe div 36524)" defines "r1 \<equiv> doe - 36524 * c"
  defines "q \<equiv> r1 div 1461" defines "r2 \<equiv> r1 - 1461 * q"
  defines "a \<equiv> min 3 (r2 div 365)" defines "doy \<equiv> r2 - 365 * a"
  shows "0 \<le> c" "c \<le> 3" "0 \<le> q" "q \<le> 24" "0 \<le> a" "a \<le> 3" "0 \<le> doy" "doy \<le> 365"
    and "doe = 36524 * c + 1461 * q + 365 * a + doy"
    and "doy = 365 \<Longrightarrow> a = 3 \<and> (q < 24 \<or> c = 3)"
proof -
  show c: "0 \<le> c" "c \<le> 3" using assms(1) by (simp_all add: c_def pos_imp_zdiv_nonneg_iff)
  have r1: "0 \<le> r1" "r1 \<le> 36524" "c < 3 \<longrightarrow> r1 < 36524"
    using assms(1, 2) by (auto simp: r1_def c_def min_def split: if_splits)
  show q: "0 \<le> q" "q \<le> 24" using r1 by (auto simp: q_def)
  have r2: "0 \<le> r2" "r2 < 1461" using r1 by (auto simp: r2_def q_def)
  show a: "0 \<le> a" "a \<le> 3" using r2 by (simp_all add: a_def pos_imp_zdiv_nonneg_iff)
  show doy: "0 \<le> doy" "doy \<le> 365" using r2 by (auto simp: doy_def a_def min_def)
  show "doe = 36524 * c + 1461 * q + 365 * a + doy" by (simp add: doy_def r2_def r1_def)
  assume "doy = 365"
  then have a3: "a = 3" using a r2 by (auto simp: doy_def a_def min_def split: if_splits)
  then have "r2 = 1460" using \<open>doy = 365\<close> by (simp add: doy_def)
  then have "r1 = 1461 * q + 1460" by (simp add: r2_def)
  then have "q < 24 \<or> c = 3" using r1(3) c(2) q(2) by auto
  with a3 show "a = 3 \<and> (q < 24 \<or> c = 3)" by simp
qed

lemma year_split:
  fixes c q a era :: int
  assumes "0 \<le> c" "c \<le> 3" "0 \<le> q" "q \<le> 24" "0 \<le> a" "a \<le> 3"
  shows "(400 * era + 100 * c + 4 * q + a) div 400 = era"
    and "(400 * era + 100 * c + 4 * q + a) mod 400 = 100 * c + 4 * q + a"
    and "(100 * c + 4 * q + a) div 4 = 25 * c + q" and "(100 * c + 4 * q + a) div 100 = c"
proof -
  have b: "0 \<le> 100 * c + 4 * q + a" "100 * c + 4 * q + a < 400" using assms by simp_all
  have "400 * era + 100 * c + 4 * q + a = 400 * era + (100 * c + 4 * q + a)" by simp
  then show "(400 * era + 100 * c + 4 * q + a) div 400 = era"
    "(400 * era + 100 * c + 4 * q + a) mod 400 = 100 * c + 4 * q + a"
    using b by (simp_all only: div_mult_self4 mod_mult_self4) simp_all
  have "100 * c + 4 * q + a = 4 * (25 * c + q) + a" by simp
  then show "(100 * c + 4 * q + a) div 4 = 25 * c + q" using assms by simp
  have "100 * c + 4 * q + a = 100 * c + (4 * q + a)" by simp
  then show "(100 * c + 4 * q + a) div 100 = c" using assms by simp
qed

lemma leap_day:
  fixes c q era :: int
  assumes "0 \<le> c" "c \<le> 3" "0 \<le> q" "q \<le> 24" and "q < 24 \<or> c = 3"
  shows "is_leap (400 * era + 100 * c + 4 * q + 3 + 1)"
proof -
  have 4: "400 * era + 100 * c + 4 * q + 3 + 1 = 4 * (100 * era + 25 * c + q + 1)" by simp
  show ?thesis
  proof (cases "q < 24")
    case True
    have "400 * era + 100 * c + 4 * q + 3 + 1 = 100 * (4 * era + c) + (4 * q + 4)" by simp
    then have "(400 * era + 100 * c + 4 * q + 3 + 1) mod 100 = 4 * q + 4"
      using True assms by (simp only: mod_mult_self4) simp
    then have "(400 * era + 100 * c + 4 * q + 3 + 1) mod 100 \<noteq> 0" using assms(3) by simp
    then show ?thesis unfolding is_leap_def by (simp add: 4)
  next
    case False
    then have "q = 24" "c = 3" using assms by auto
    then have "400 * era + 100 * c + 4 * q + 3 + 1 = 400 * (era + 1)" by simp
    then show ?thesis unfolding is_leap_def by simp
  qed
qed

text \<open>Every day has a date of the calendar, and the date determines the day.\<close>

lemma date_of_days_ok:
  assumes "date_of_days n = (y, m, d)"
  shows "days_of_date y m d = n" "1 \<le> m" "m \<le> 12" "1 \<le> d" "d \<le> daysIn m y"
proof -
  define era doe where "era = (n + 719468) div 146097" and "doe = (n + 719468) mod 146097"
  have n: "n + 719468 = 146097 * era + doe" by (simp add: era_def doe_def)
  have doe: "0 \<le> doe" "doe < 146097" by (simp_all add: doe_def)
  define c where "c = min 3 (doe div 36524)"
  define q where "q = (doe - 36524 * c) div 1461"
  define a where "a = min 3 ((doe - 36524 * c - 1461 * q) div 365)"
  define doy where "doy = doe - 36524 * c - 1461 * q - 365 * a"
  note split = era_split [OF doe, folded c_def, folded q_def, folded a_def, folded doy_def]
  note year = year_split [OF split(1-6)]
  have md: "month_day doy = (m, d)" and y: "y = 400 * era + 100 * c + 4 * q + a + (if m \<le> 2 then 1 else 0)"
    using assms unfolding date_of_days_def Let_def era_def [symmetric] doe_def [symmetric] c_def [symmetric]
      q_def [symmetric] a_def [symmetric] doy_def [symmetric] by (auto split: prod.splits)
  note ok = month_day_ok [OF split(7, 8) md, of y]
  show "1 \<le> m" "m \<le> 12" "1 \<le> d" using ok by simp_all
  have doy: "day_of_year m d = doy" using ok by simp
  have "(if m \<le> 2 then y - 1 else y) = 400 * era + 100 * c + 4 * q + a" by (simp add: y)
  then have "days_of_date y m d = era * 146097 + 365 * (100 * c + 4 * q + a) + (25 * c + q) - c + doy - 719468"
    by (simp only: days_of_date_def Let_def year doy)
  also have "\<dots> = n" using n split(9) by simp
  finally show "days_of_date y m d = n" .
  show "d \<le> daysIn m y"
  proof (cases "m = 2")
    case True
    show ?thesis
    proof (cases "doy = 365")
      case True
      with split(10) \<open>m = 2\<close> have "is_leap y" using leap_day [OF split(1-4)] by (simp add: y)
      then show ?thesis using ok \<open>m = 2\<close> True by (simp add: daysIn_def)
    next
      case False
      then show ?thesis using ok True by (simp add: daysIn_def)
    qed
  qed (use ok in simp)
qed

section \<open>Writing\<close>

text \<open>A number in a fixed number of decimal digits.\<close>

fun fixed_width :: "nat \<Rightarrow> nat \<Rightarrow> string" where
  "fixed_width 0 n = []"
| "fixed_width (Suc k) n = fixed_width k (n div 10) @ [digit_char (n mod 10)]"

definition trim_zeros :: "string \<Rightarrow> string" where
  "trim_zeros s = rev (dropWhile (\<lambda>c. c = CHR ''0'') (rev s))"

definition frac_text :: "nat \<Rightarrow> string" where
  "frac_text ns = (let ds = trim_zeros (fixed_width 9 ns) in if ds = [] then [] else CHR ''.'' # ds)"

text \<open>The offset in seconds, cut to minutes towards zero; \<^verbatim>\<open>Z\<close> only for the offset zero.\<close>

definition zone_minutes :: "int \<Rightarrow> nat" where
  "zone_minutes off = nat (\<bar>off\<bar> div 60)"

definition zone_text :: "int \<Rightarrow> string" where
  "zone_text off =
     (if off = 0 then ''Z''
      else (if off \<le> -60 then CHR ''-'' else CHR ''+'') # fixed_width 2 (zone_minutes off div 60) @
        CHR '':'' # fixed_width 2 (zone_minutes off mod 60))"

definition clock_text :: "nat \<Rightarrow> string" where
  "clock_text sod = fixed_width 2 (sod div 3600) @ CHR '':'' # fixed_width 2 (sod div 60 mod 60) @
     CHR '':'' # fixed_width 2 (sod mod 60)"

text \<open>
  The text between the quotes for an instant in a zone with the offset \<open>off\<close>; \<open>None\<close> is the error for
  a year that does not have four digits or an offset of a day or more.
\<close>

definition time_text :: "int \<Rightarrow> time \<Rightarrow> string option" where
  "time_text off t =
     (let ls = t div second + off; (y, m, d) = date_of_days (ls div 86400) in
      if y < 0 \<or> 9999 < y \<or> 24 \<le> zone_minutes off div 60 then None
      else Some (fixed_width 4 (nat y) @ CHR ''-'' # fixed_width 2 (nat m) @ CHR ''-'' # fixed_width 2 (nat d) @
        CHR ''T'' # clock_text (nat (ls mod 86400)) @ frac_text (nat (t mod second)) @ zone_text off))"

section \<open>Reading\<close>

definition parse_uint :: "string \<Rightarrow> int \<Rightarrow> int \<Rightarrow> int option" where
  "parse_uint s lo hi =
     (case digits_val 0 s of None \<Rightarrow> None | Some n \<Rightarrow> if lo \<le> n \<and> n \<le> hi then Some n else None)"

definition digit_at :: "string \<Rightarrow> nat \<Rightarrow> bool" where
  "digit_at s i \<longleftrightarrow> i < length s \<and> digit_val (s ! i) \<noteq> None"

definition char_at :: "string \<Rightarrow> nat \<Rightarrow> char \<Rightarrow> bool" where
  "char_at s i c \<longleftrightarrow> i < length s \<and> s ! i = c"

text \<open>The fraction of a second in nanoseconds (digits after the ninth are dropped), and the input after it.\<close>

definition parse_frac :: "string \<Rightarrow> int \<times> string" where
  "parse_frac s =
     (if char_at s 0 CHR ''.'' \<and> digit_at s 1
      then (let ds = takeWhile (\<lambda>c. digit_val c \<noteq> None) (tl s) in
            (the (digits_val 0 (take 9 (ds @ replicate 9 CHR ''0''))), dropWhile (\<lambda>c. digit_val c \<noteq> None) (tl s)))
      else (0, s))"

definition parse_zone :: "string \<Rightarrow> int option" where
  "parse_zone s =
     (if s = ''Z'' then Some 0
      else if length s \<noteq> 6 then None
      else Option.bind (parse_uint (take 2 (drop 1 s)) 0 23) (\<lambda>hr.
           Option.bind (parse_uint (take 2 (drop 4 s)) 0 59) (\<lambda>mm.
             if (s ! 0 = CHR ''-'' \<or> s ! 0 = CHR ''+'') \<and> s ! 3 = CHR '':''
             then Some ((if s ! 0 = CHR ''-'' then -1 else 1) * (hr * 60 + mm) * 60) else None)))"

definition parse_time :: "string \<Rightarrow> time option" where
  "parse_time s =
     (if length s < 19 then None
      else Option.bind (parse_uint (take 4 s) 0 9999) (\<lambda>year.
           Option.bind (parse_uint (take 2 (drop 5 s)) 1 12) (\<lambda>month.
           Option.bind (parse_uint (take 2 (drop 8 s)) 1 (daysIn month year)) (\<lambda>day.
           Option.bind (parse_uint (take 2 (drop 11 s)) 0 23) (\<lambda>hour.
           Option.bind (parse_uint (take 2 (drop 14 s)) 0 59) (\<lambda>mins.
           Option.bind (parse_uint (take 2 (drop 17 s)) 0 59) (\<lambda>sec.
             if s ! 4 = CHR ''-'' \<and> s ! 7 = CHR ''-'' \<and> s ! 10 = CHR ''T'' \<and> s ! 13 = CHR '':'' \<and> s ! 16 = CHR '':''
             then (let (nsec, rest) = parse_frac (drop 19 s) in
               Option.bind (parse_zone rest) (\<lambda>off.
                 Some ((days_of_date year month day * 86400 + hour * 3600 + mins * 60 + sec - off) * second + nsec)))
             else None)))))))"

section \<open>Reading what was written\<close>

lemma length_fixed_width [simp]: "length (fixed_width k n) = k"
  by (induction k n rule: fixed_width.induct) auto

lemma digits_val_fixed_width: "digits_val 0 (fixed_width k n) = Some (int (n mod 10 ^ k))"
proof (induction k n rule: fixed_width.induct)
  case (2 k n)
  have "n mod (10 * 10 ^ k) = 10 * (n div 10 mod 10 ^ k) + n mod 10"
    by (rule mod_mult2_eq)
  with 2 show ?case by (simp add: digits_val_append digit_val_char)
qed simp

lemma fixed_width_digits: "c \<in> set (fixed_width k n) \<Longrightarrow> digit_val c \<noteq> None"
  by (induction k n rule: fixed_width.induct) (auto simp: digit_val_char)

lemma parse_fixed_width:
  "n < 10 ^ k \<Longrightarrow> lo \<le> int n \<Longrightarrow> int n \<le> hi \<Longrightarrow> parse_uint (fixed_width k n) lo hi = Some (int n)"
  by (simp add: parse_uint_def digits_val_fixed_width)

lemma trim_zeros_fill: "length xs \<le> k \<Longrightarrow> take (length xs) (trim_zeros xs @ replicate k CHR ''0'') = xs"
proof -
  let ?z = "takeWhile (\<lambda>c. c = CHR ''0'') (rev xs)"
  assume "length xs \<le> k"
  have z: "?z = replicate (length ?z) CHR ''0''" by (rule replicate_eqI) (auto dest: set_takeWhileD)
  have "length ?z \<le> length xs" using length_takeWhile_le [of _ "rev xs"] by simp
  then obtain j where "k = length ?z + j" using \<open>length xs \<le> k\<close> le_Suc_ex [of "length ?z" k] by auto
  then have "replicate k CHR ''0'' = rev ?z @ replicate j CHR ''0''"
    by (subst z) (simp add: replicate_add)
  moreover have "trim_zeros xs @ rev ?z = xs"
    unfolding trim_zeros_def rev_append [symmetric] takeWhile_dropWhile_id by simp
  ultimately show ?thesis by (simp flip: append_assoc)
qed

lemma trim_zeros_set: "c \<in> set (trim_zeros xs) \<Longrightarrow> c \<in> set xs"
  by (auto simp: trim_zeros_def dest: set_dropWhileD)

lemma zone_text_head: "\<exists>c cs. zone_text off = c # cs \<and> c \<in> {CHR ''Z'', CHR ''+'', CHR ''-''}"
  by (simp add: zone_text_def)

lemma parse_frac_text:
  assumes "ns < 10 ^ 9"
  shows "parse_frac (frac_text ns @ zone_text off) = (int ns, zone_text off)"
proof -
  let ?ds = "trim_zeros (fixed_width 9 ns)"
  obtain c cs where z: "zone_text off = c # cs" "c \<in> {CHR ''Z'', CHR ''+'', CHR ''-''}"
    using zone_text_head by blast
  then have c: "digit_val c = None" "c \<noteq> CHR ''.''" by (auto simp: digit_val_def in_range_def)
  have fill: "take 9 (?ds @ replicate 9 CHR ''0'') = fixed_width 9 ns"
    using trim_zeros_fill [of "fixed_width 9 ns" 9] by simp
  have val: "digits_val 0 (fixed_width 9 ns) = Some (int ns)"
    using assms by (simp add: digits_val_fixed_width)
  show ?thesis
  proof (cases "?ds = []")
    case True
    have "digits_val 0 (replicate 9 CHR ''0'') = Some 0" by code_simp
    then have "ns = 0" using fill val True by simp
    then show ?thesis using True c by (simp add: frac_text_def parse_frac_def char_at_def z)
  next
    case False
    have d: "\<And>x. x \<in> set ?ds \<Longrightarrow> digit_val x \<noteq> None"
      using trim_zeros_set fixed_width_digits by blast
    then have "takeWhile (\<lambda>x. digit_val x \<noteq> None) (?ds @ c # cs) = ?ds"
      "dropWhile (\<lambda>x. digit_val x \<noteq> None) (?ds @ c # cs) = c # cs"
      using c by simp_all
    moreover have "digit_at (CHR ''.'' # ?ds @ c # cs) 1"
      using False d [of "hd ?ds"] by (cases ?ds) (auto simp: digit_at_def)
    ultimately show ?thesis
      using False fill val by (simp add: frac_text_def parse_frac_def char_at_def z(1) Let_def)
  qed
qed

lemma length_two: "length xs = 2 \<Longrightarrow> \<exists>a b. xs = [a, b]"
  by (auto simp: length_Suc_conv numeral_eq_Suc)

lemma length_four: "length xs = 4 \<Longrightarrow> \<exists>a b c d. xs = [a, b, c, d]"
  by (auto simp: length_Suc_conv numeral_eq_Suc)

lemmas fixed_width_2 = length_two [OF length_fixed_width]
lemmas fixed_width_4 = length_four [OF length_fixed_width]

lemma parse_zone_text:
  assumes "60 dvd off" and "zone_minutes off div 60 < 24"
  shows "parse_zone (zone_text off) = Some off"
proof (cases "off = 0")
  case False
  let ?h = "zone_minutes off div 60" and ?m = "zone_minutes off mod 60"
  obtain a b c d where t: "fixed_width 2 ?h = [a, b]" "fixed_width 2 ?m = [c, d]"
    using fixed_width_2 by metis
  have h: "parse_uint [a, b] 0 23 = Some (int ?h)" and m: "parse_uint [c, d] 0 59 = Some (int ?m)"
    using parse_fixed_width [of ?h 2 0 23] parse_fixed_width [of ?m 2 0 59] assms(2) t by simp_all
  have "int ?h * 60 + int ?m = \<bar>off\<bar> div 60"
    by (simp add: zone_minutes_def zdiv_int zmod_int)
  moreover have "\<bar>off\<bar> div 60 * 60 = \<bar>off\<bar>" using assms(1) by simp
  ultimately have abs: "(int ?h * 60 + int ?m) * 60 = \<bar>off\<bar>" by simp
  have sign: "off \<le> -60 \<longleftrightarrow> off < 0" using assms(1) False by presburger
  show ?thesis
    using False h m abs sign by (auto simp: zone_text_def parse_zone_def t)
qed (simp add: zone_text_def parse_zone_def)

lemma parse_clock:
  assumes "sod < 86400"
  shows "sod div 3600 < 24" "sod div 60 mod 60 < 60" "sod mod 60 < 60"
    and "int (sod div 3600) * 3600 + int (sod div 60 mod 60) * 60 + int (sod mod 60) = int sod"
proof -
  show "sod div 3600 < 24" "sod div 60 mod 60 < 60" "sod mod 60 < 60"
    using assms by (simp_all add: less_mult_imp_div_less)
  have "sod div 3600 = sod div 60 div 60" by (simp add: div_mult2_eq [symmetric])
  moreover have "sod div 60 div 60 * 3600 + sod div 60 mod 60 * 60 = sod div 60 * 60"
    using div_mult_mod_eq [of "sod div 60" 60] by linarith
  moreover have "sod div 60 * 60 + sod mod 60 = sod" by simp
  ultimately have "sod div 3600 * 3600 + sod div 60 mod 60 * 60 + sod mod 60 = sod" by (simp only:)
  from arg_cong [OF this, of int]
  show "int (sod div 3600) * 3600 + int (sod div 60 mod 60) * 60 + int (sod mod 60) = int sod"
    by (simp only: of_nat_add of_nat_mult of_nat_numeral)
qed

lemma parse_time_fields:
  assumes "parse_uint [y1, y2, y3, y4] 0 9999 = Some year" and "parse_uint [m1, m2] 1 12 = Some month"
    and "parse_uint [d1, d2] 1 (daysIn month year) = Some day" and "parse_uint [h1, h2] 0 23 = Some hour"
    and "parse_uint [i1, i2] 0 59 = Some mins" and "parse_uint [s1, s2] 0 59 = Some sec"
    and "parse_frac rest = (nsec, z)" and "parse_zone z = Some off"
  shows "parse_time ([y1, y2, y3, y4] @ CHR ''-'' # [m1, m2] @ CHR ''-'' # [d1, d2] @ CHR ''T'' #
      ([h1, h2] @ CHR '':'' # [i1, i2] @ CHR '':'' # [s1, s2]) @ rest) =
    Some ((days_of_date year month day * 86400 + hour * 3600 + mins * 60 + sec - off) * second + nsec)"
proof -
  let ?s = "[y1, y2, y3, y4] @ CHR ''-'' # [m1, m2] @ CHR ''-'' # [d1, d2] @ CHR ''T'' #
      ([h1, h2] @ CHR '':'' # [i1, i2] @ CHR '':'' # [s1, s2]) @ rest"
  have "\<not> length ?s < 19" "take 4 ?s = [y1, y2, y3, y4]" "take 2 (drop 5 ?s) = [m1, m2]"
    "take 2 (drop 8 ?s) = [d1, d2]" "take 2 (drop 11 ?s) = [h1, h2]" "take 2 (drop 14 ?s) = [i1, i2]"
    "take 2 (drop 17 ?s) = [s1, s2]" "drop 19 ?s = rest"
    "?s ! 4 = CHR ''-''" "?s ! 7 = CHR ''-''" "?s ! 10 = CHR ''T''" "?s ! 13 = CHR '':''" "?s ! 16 = CHR '':''"
    by simp_all
  with assms show ?thesis
    by (simp only: parse_time_def bind.bind_lunit Let_def prod.case if_True if_False simp_thms)
qed

text \<open>An instant written in a zone of whole minutes is read back unchanged.\<close>

theorem parse_time_text:
  assumes "time_text off t = Some s" and "60 dvd off"
  shows "parse_time s = Some t"
proof -
  define ls where "ls = t div second + off"
  define sod where "sod = nat (ls mod 86400)"
  obtain y m d where date: "date_of_days (ls div 86400) = (y, m, d)" by (cases "date_of_days (ls div 86400)") auto
  note ok = date_of_days_ok [OF date]
  from assms(1) have y: "0 \<le> y" "y \<le> 9999" and off: "zone_minutes off div 60 < 24"
    and s: "s = fixed_width 4 (nat y) @ CHR ''-'' # fixed_width 2 (nat m) @ CHR ''-'' # fixed_width 2 (nat d) @
        CHR ''T'' # clock_text sod @ frac_text (nat (t mod second)) @ zone_text off"
    by (auto simp: time_text_def Let_def ls_def [symmetric] sod_def [symmetric] date split: if_splits)
  have d31: "d \<le> 31" using ok(5) by (auto simp: daysIn_def split: if_splits)
  have sod: "sod < 86400" by (simp add: sod_def nat_less_iff)
  note clock = parse_clock [OF sod]
  have ns: "nat (t mod second) < 10 ^ 9" by (simp add: second_def nat_less_iff)
  obtain y1 y2 y3 y4 where 1: "fixed_width 4 (nat y) = [y1, y2, y3, y4]" using fixed_width_4 by metis
  obtain m1 m2 where 2: "fixed_width 2 (nat m) = [m1, m2]" using fixed_width_2 by metis
  obtain d1 d2 where 3: "fixed_width 2 (nat d) = [d1, d2]" using fixed_width_2 by metis
  obtain h1 h2 where 4: "fixed_width 2 (sod div 3600) = [h1, h2]" using fixed_width_2 by metis
  obtain i1 i2 where 5: "fixed_width 2 (sod div 60 mod 60) = [i1, i2]" using fixed_width_2 by metis
  obtain s1 s2 where 6: "fixed_width 2 (sod mod 60) = [s1, s2]" using fixed_width_2 by metis
  have "parse_time s = Some ((days_of_date y m d * 86400 + int (sod div 3600) * 3600 +
      int (sod div 60 mod 60) * 60 + int (sod mod 60) - off) * second + int (nat (t mod second)))"
    unfolding s clock_text_def 1 2 3 4 5 6
  proof (rule parse_time_fields)
    show "parse_uint [y1, y2, y3, y4] 0 9999 = Some y"
      using parse_fixed_width [of "nat y" 4 0 9999] y 1 by simp
    show "parse_uint [m1, m2] 1 12 = Some m"
      using parse_fixed_width [of "nat m" 2 1 12] ok(2, 3) 2 by simp
    show "parse_uint [d1, d2] 1 (daysIn m y) = Some d"
      using parse_fixed_width [of "nat d" 2 1 "daysIn m y"] ok(4, 5) d31 3 by simp
    show "parse_uint [h1, h2] 0 23 = Some (int (sod div 3600))"
      "parse_uint [i1, i2] 0 59 = Some (int (sod div 60 mod 60))"
      "parse_uint [s1, s2] 0 59 = Some (int (sod mod 60))"
      using parse_fixed_width [of "sod div 3600" 2 0 23] parse_fixed_width [of "sod div 60 mod 60" 2 0 59]
        parse_fixed_width [of "sod mod 60" 2 0 59] clock 4 5 6 by simp_all
  qed (rule parse_frac_text [OF ns] parse_zone_text [OF assms(2) off])+
  also have "(days_of_date y m d * 86400 + int (sod div 3600) * 3600 +
      int (sod div 60 mod 60) * 60 + int (sod mod 60) - off) * second + int (nat (t mod second)) = t"
  proof -
    have "int sod = ls mod 86400" by (simp add: sod_def)
    then have "days_of_date y m d * 86400 + int sod = ls" by (simp add: ok(1))
    with clock(4) have "days_of_date y m d * 86400 + int (sod div 3600) * 3600 +
        int (sod div 60 mod 60) * 60 + int (sod mod 60) - off = t div second"
      by (simp add: ls_def)
    moreover have "t div second * second + int (nat (t mod second)) = t" by (simp add: second_def)
    ultimately show ?thesis by (simp only:)
  qed
  finally show ?thesis .
qed

text \<open>The offset of the local time zone from UTC in seconds, at an instant.\<close>

type_synonym zone = "time \<Rightarrow> int"

definition whole_minutes :: "zone \<Rightarrow> bool" where
  "whole_minutes zone \<longleftrightarrow> (\<forall>t. 60 dvd zone t)"

definition time_char :: "char \<Rightarrow> bool" where
  "time_char c \<longleftrightarrow> digit_val c \<noteq> None \<or> c \<in> {CHR ''-'', CHR ''T'', CHR '':'', CHR ''.'', CHR ''Z'', CHR ''+''}"

lemma time_text_chars:
  assumes "time_text off t = Some s"
  shows "list_all time_char s"
proof -
  have f: "list_all time_char (fixed_width k n)" for k n
    using fixed_width_digits [of _ k n] by (auto simp: list_all_iff time_char_def)
  have p: "time_char CHR ''-''" "time_char CHR ''T''" "time_char CHR '':''" "time_char CHR ''.''"
    "time_char CHR ''Z''" "time_char CHR ''+''"
    by (simp_all add: time_char_def)
  have "list_all time_char (frac_text n)" for n
    using trim_zeros_set [of _ "fixed_width 9 n"] f [of 9 n] p
    by (auto simp: frac_text_def Let_def list_all_iff)
  moreover have "list_all time_char (zone_text off)" "\<And>n. list_all time_char (clock_text n)"
    by (simp_all add: zone_text_def clock_text_def f p)
  ultimately show ?thesis
    using assms f p by (auto simp: time_text_def Let_def split: if_splits prod.splits)
qed

end
