(* ===== verification/Redis_Store.thy ===== *)
theory Redis_Store
  imports Nonce Go_JSON Go_Time
begin

text \<open>
  Package \<^verbatim>\<open>redisstore\<close> (\<^verbatim>\<open>src/redisstore/store.go\<close>): the clustered nonce store. The Redis
  server is a parameter: a state \<open>'r\<close> with the two commands the store issues. What the store
  relies on is written down as \<open>redis_contract\<close> (the semantics of SET and of the atomic
  GETDEL; a key may disappear when its TTL ends). The stored document is modelled down to its bytes;
  the local time zone, in which the issue time is written, is a parameter. The in-memory client
  of \<^verbatim>\<open>store_test.go\<close> satisfies the contract.
\<close>

section \<open>Model\<close>

definition defaultKeyPrefix :: string where "defaultKeyPrefix = ''webeid:nonce:''"

record 'r redis_client =
  Set :: "time \<Rightarrow> string \<Rightarrow> bytes \<Rightarrow> duration \<Rightarrow> 'r \<Rightarrow> goerror option \<times> 'r"
  GetDel :: "time \<Rightarrow> string \<Rightarrow> 'r \<Rightarrow> bytes option result \<times> 'r"

text \<open>The go-redis client that \<^verbatim>\<open>Wrap\<close> adapts: a missing key is the error \<^verbatim>\<open>redis.Nil\<close>.\<close>

record 'r universal_client =
  uc_Set :: "time \<Rightarrow> string \<Rightarrow> bytes \<Rightarrow> duration \<Rightarrow> 'r \<Rightarrow> goerror option \<times> 'r"
  uc_GetDel :: "time \<Rightarrow> string \<Rightarrow> 'r \<Rightarrow> bytes result \<times> 'r"

definition redis_Nil :: goerror where "redis_Nil = ErrorString ''redis: nil''"

definition goRedisClient_Set ::
  "'r universal_client \<Rightarrow> time \<Rightarrow> string \<Rightarrow> bytes \<Rightarrow> duration \<Rightarrow> 'r \<Rightarrow> goerror option \<times> 'r" where
  "goRedisClient_Set g now key value ttl r = uc_Set g now key value ttl r"

definition goRedisClient_GetDel ::
  "'r universal_client \<Rightarrow> time \<Rightarrow> string \<Rightarrow> 'r \<Rightarrow> bytes option result \<times> 'r" where
  "goRedisClient_GetDel g now key r =
     (case uc_GetDel g now key r of
        (Inl err, r') \<Rightarrow> if errors_Is err redis_Nil then (Inr None, r') else (Inl err, r')
      | (Inr b, r') \<Rightarrow> (Inr (Some b), r'))"

definition redis_Wrap :: "'r universal_client \<Rightarrow> 'r redis_client" where
  "redis_Wrap g = \<lparr>Set = goRedisClient_Set g, GetDel = goRedisClient_GetDel g\<rparr>"

record ('c, 'r) Store =
  client :: "'r redis_client"
  rs_sessionKey :: "'c \<Rightarrow> string result"
  rs_ttl :: duration
  rs_prefix :: string

definition WithKeyPrefix :: "string \<Rightarrow> ('c, 'r) Store \<Rightarrow> ('c, 'r) Store" where
  "WithKeyPrefix p s = (if p \<noteq> [] then s\<lparr>rs_prefix := p\<rparr> else s)"

definition redisstore_New ::
  "'r redis_client option \<Rightarrow> ('c \<Rightarrow> string result) option \<Rightarrow> duration \<Rightarrow>
   (('c, 'r) Store \<Rightarrow> ('c, 'r) Store) list \<Rightarrow> ('c, 'r) Store result" where
  "redisstore_New cl sk ttl options =
     (case cl of
        None \<Rightarrow> Inl (ErrorString ''redisstore: a Redis client is required'')
      | Some c \<Rightarrow>
          (case sk of
             None \<Rightarrow> Inl (ErrorString ''redisstore: a session key function is required'')
           | Some f \<Rightarrow>
               Inr (foldl (\<lambda>s opt. opt s)
                 \<lparr>client = c, rs_sessionKey = f,
                  rs_ttl = (if ttl \<le> 0 then DefaultNonceTTL else ttl),
                  rs_prefix = defaultKeyPrefix\<rparr> options)))"

record storedNonce =
  sn_Nonce :: string
  sn_IssuedAt :: time

text \<open>
  The stored JSON document. \<^verbatim>\<open>(Time).MarshalJSON\<close> and \<^verbatim>\<open>UnmarshalJSON\<close> write and read the issue
  time as the text of a string.
\<close>

fun set_time :: "(time \<Rightarrow> 'r \<Rightarrow> 'r) \<Rightarrow> json \<Rightarrow> 'r \<Rightarrow> 'r option" where
  "set_time upd (JStr raw) r = map_option (\<lambda>t. upd t r) (parse_time raw)"
| "set_time upd JNull r = Some r"
| "set_time upd _ r = None"

definition storedNonce_fields :: "storedNonce field list" where
  "storedNonce_fields =
     [(''nonce'', set_string (\<lambda>s n. n\<lparr>sn_Nonce := s\<rparr>)), (''issuedAt'', set_time (\<lambda>t n. n\<lparr>sn_IssuedAt := t\<rparr>))]"

definition marshal_nonce :: "zone \<Rightarrow> storedNonce \<Rightarrow> bytes result" where
  "marshal_nonce Z sn =
     (case time_text (Z (sn_IssuedAt sn)) (sn_IssuedAt sn) of
        None \<Rightarrow> Inl (ErrorString ''json: error calling MarshalJSON for type time.Time'')
      | Some ts \<Rightarrow> Inr (json_Marshal (JObj
          (string_member ''nonce'' (sn_Nonce sn) @ [(escape ''issuedAt'', JStr ts)]))))"

definition unmarshal_nonce :: "bytes \<Rightarrow> storedNonce result" where
  "unmarshal_nonce = json_Unmarshal
     (decode_struct storedNonce_fields \<lparr>sn_Nonce = [], sn_IssuedAt = zero_time\<rparr>)"

definition Store_Put ::
  "zone \<Rightarrow> ('c, 'r) Store \<Rightarrow> time \<Rightarrow> 'c \<Rightarrow> ChallengeNonce \<Rightarrow> 'r \<Rightarrow> goerror option \<times> 'r" where
  "Store_Put Z S now ctx nonce r =
     (case rs_sessionKey S ctx of
        Inl err \<Rightarrow> (Some err, r)
      | Inr key \<Rightarrow>
          (case marshal_nonce Z \<lparr>sn_Nonce = Base64EncodedNonce nonce, sn_IssuedAt = IssuedAt nonce\<rparr> of
             Inl err \<Rightarrow> (Some err, r)
           | Inr payload \<Rightarrow> Set (client S) now (rs_prefix S @ key) payload (rs_ttl S) r))"

definition Store_GetAndRemove ::
  "zone \<Rightarrow> ('c, 'r) Store \<Rightarrow> time \<Rightarrow> 'c \<Rightarrow> 'r \<Rightarrow> ChallengeNonce result \<times> 'r" where
  "Store_GetAndRemove Z S now ctx r =
     (case rs_sessionKey S ctx of
        Inl err \<Rightarrow> (Inl err, r)
      | Inr key \<Rightarrow>
          (case GetDel (client S) now (rs_prefix S @ key) r of
             (Inl err, r') \<Rightarrow> (Inl (wrapped ErrChallengeNonceNotFound err), r')
           | (Inr None, r') \<Rightarrow> (Inl (Typed ErrChallengeNonceNotFound), r')
           | (Inr (Some raw), r') \<Rightarrow>
               (case unmarshal_nonce raw of
                  Inl err \<Rightarrow> (Inl (wrapped ErrChallengeNonceNotFound err), r')
                | Inr sn \<Rightarrow>
                    (Inr \<lparr>Base64EncodedNonce = sn_Nonce sn, IssuedAt = sn_IssuedAt sn\<rparr>, r'))))"

definition redis_store :: "zone \<Rightarrow> ('c, 'r) Store \<Rightarrow> ('c, 'r) ChallengeNonceStore" where
  "redis_store Z S = \<lparr>Put = Store_Put Z S, GetAndRemove = Store_GetAndRemove Z S\<rparr>"

text \<open>The fake client of \<^verbatim>\<open>store_test.go\<close>: a map, and GETDEL under one lock.\<close>

type_synonym fakeClient = "string \<rightharpoonup> bytes"

definition fake_Set ::
  "time \<Rightarrow> string \<Rightarrow> bytes \<Rightarrow> duration \<Rightarrow> fakeClient \<Rightarrow> goerror option \<times> fakeClient" where
  "fake_Set now key value ttl m = (None, m(key \<mapsto> value))"

definition fake_GetDel :: "time \<Rightarrow> string \<Rightarrow> fakeClient \<Rightarrow> bytes option result \<times> fakeClient" where
  "fake_GetDel now key m =
     (case m key of None \<Rightarrow> (Inr None, m) | Some v \<Rightarrow> (Inr (Some v), m(key := None)))"

definition newFakeClient :: "fakeClient redis_client" where
  "newFakeClient = \<lparr>Set = fake_Set, GetDel = fake_GetDel\<rparr>"

section \<open>The contract of the server\<close>

text \<open>
  \<open>content r k\<close> is the value stored at a key. SET stores the value; a failed SET may or may
  not have stored it; GETDEL returns the stored value and deletes the key; no command changes
  another key, and a key may vanish at any time (expiry), so only what is present is constrained.
\<close>

definition redis_contract :: "'r redis_client \<Rightarrow> ('r \<Rightarrow> string \<Rightarrow> bytes option) \<Rightarrow> bool" where
  "redis_contract cl content \<longleftrightarrow>
     (\<forall>t k v d r r'. Set cl t k v d r = (None, r') \<longrightarrow> content r' k = Some v) \<and>
     (\<forall>t k v d r e r' j w. Set cl t k v d r = (e, r') \<longrightarrow> content r' j = Some w \<longrightarrow>
        content r j = Some w \<or> j = k \<and> w = v) \<and>
     (\<forall>t k r v r'. GetDel cl t k r = (Inr (Some v), r') \<longrightarrow>
        content r k = Some v \<and> content r' k = None) \<and>
     (\<forall>t k r x r' j w. GetDel cl t k r = (x, r') \<longrightarrow> content r' j = Some w \<longrightarrow> content r j = Some w)"

text \<open>
  The document gives back a nonce of valid UTF-8 (the nonces of the generator are base64 text) and the
  instant of issue.
\<close>

definition utf8_nonce :: "ChallengeNonce \<Rightarrow> bool" where
  "utf8_nonce n \<longleftrightarrow> valid_utf8 (Base64EncodedNonce n)"

lemma plain_time_char: "time_char c \<Longrightarrow> plain_char c"
  unfolding time_char_def using plain_digit [of c] by (elim disjE) (auto simp: plain_char_def)

lemma plain_time_text: "list_all time_char s \<Longrightarrow> list_all plain_char s"
  by (simp add: list_all_iff plain_time_char)

lemma unmarshal_nonce_marshal:
  assumes "whole_minutes Z" and "valid_utf8 (sn_Nonce sn)" and "marshal_nonce Z sn = Inr b"
  shows "unmarshal_nonce b = Inr sn"
proof -
  obtain ts where ts: "time_text (Z (sn_IssuedAt sn)) (sn_IssuedAt sn) = Some ts"
    and b: "b = json_Marshal (JObj (string_member ''nonce'' (sn_Nonce sn) @ [(escape ''issuedAt'', JStr ts)]))"
    (is "b = json_Marshal ?v")
    using assms(3) by (auto simp: marshal_nonce_def split: option.splits)
  have "parse_time ts = Some (sn_IssuedAt sn)"
    using parse_time_text [OF ts] assms(1) by (simp add: whole_minutes_def)
  then have "decode_struct storedNonce_fields \<lparr>sn_Nonce = [], sn_IssuedAt = zero_time\<rparr> ?v = Some sn"
    using assms(2) by (cases sn) (simp add: storedNonce_fields_def json_simps)
  moreover have "encoded ?v"
    using escape_plain [OF plain_time_text [OF time_text_chars [OF ts]]] by (auto simp: string_member_def) metis
  moreover have "json_depth ?v \<le> maxNestingDepth"
    by (simp add: maxNestingDepth_def)
  ultimately show ?thesis unfolding unmarshal_nonce_def b by (intro Unmarshal_Marshal)
qed

lemma stored_round_trip:
  "whole_minutes Z \<Longrightarrow> utf8_nonce n \<Longrightarrow>
     marshal_nonce Z \<lparr>sn_Nonce = Base64EncodedNonce n, sn_IssuedAt = IssuedAt n\<rparr> = Inr b \<Longrightarrow>
     unmarshal_nonce b = Inr \<lparr>sn_Nonce = Base64EncodedNonce n, sn_IssuedAt = IssuedAt n\<rparr>"
  by (rule unmarshal_nonce_marshal) (simp_all add: utf8_nonce_def)

lemma redis_contractD:
  assumes "redis_contract cl content"
  shows "Set cl t k v d r = (None, r') \<Longrightarrow> content r' k = Some v"
    and "Set cl t k v d r = (e, r') \<Longrightarrow> content r' j = Some w \<Longrightarrow>
      content r j = Some w \<or> j = k \<and> w = v"
    and "GetDel cl t k r = (Inr (Some v), r') \<Longrightarrow> content r k = Some v \<and> content r' k = None"
    and "GetDel cl t k r = (x, r') \<Longrightarrow> content r' j = Some w \<Longrightarrow> content r j = Some w"
  using assms unfolding redis_contract_def by metis+

lemma fake_contract: "redis_contract newFakeClient (\<lambda>m. m)"
  by (auto simp: redis_contract_def newFakeClient_def fake_Set_def fake_GetDel_def
      split: option.splits if_splits)

text \<open>What a session's key holds, read back as a nonce.\<close>

definition to_nonce :: "storedNonce \<Rightarrow> ChallengeNonce" where
  "to_nonce sn = \<lparr>Base64EncodedNonce = sn_Nonce sn, IssuedAt = sn_IssuedAt sn\<rparr>"

definition redis_holds ::
  "('c, 'r) Store \<Rightarrow> ('r \<Rightarrow> string \<Rightarrow> bytes option) \<Rightarrow> 'r \<Rightarrow> string \<Rightarrow> ChallengeNonce option"
  where
  "redis_holds S content r k =
     (case content r (rs_prefix S @ k) of
        None \<Rightarrow> None
      | Some raw \<Rightarrow> (case unmarshal_nonce raw of Inl _ \<Rightarrow> None | Inr sn \<Rightarrow> Some (to_nonce sn)))"

locale redis_nonce_store =
  fixes S :: "('c, 'r) Store"
    and Z :: zone
    and content :: "'r \<Rightarrow> string \<Rightarrow> bytes option"
  assumes contract: "redis_contract (client S) content"
    and round_trip: "whole_minutes Z"
begin

lemma Put_stores:
  assumes "utf8_nonce n" and "Store_Put Z S t c n r = (e, r')" and "redis_holds S content r' k = Some m"
  shows "redis_holds S content r k = Some m \<or> rs_sessionKey S c = Inr k \<and> m = n"
proof (cases "rs_sessionKey S c")
  case (Inr key)
  let ?sn = "\<lparr>sn_Nonce = Base64EncodedNonce n, sn_IssuedAt = IssuedAt n\<rparr>"
  show ?thesis
  proof (cases "marshal_nonce Z ?sn")
    case (Inr b)
    then have set: "Set (client S) t (rs_prefix S @ key) b (rs_ttl S) r = (e, r')"
      using assms(2) \<open>rs_sessionKey S c = Inr key\<close> by (simp add: Store_Put_def)
    obtain raw sn where raw: "content r' (rs_prefix S @ k) = Some raw"
      and sn: "unmarshal_nonce raw = Inr sn" and m: "m = to_nonce sn"
      using assms(3) by (auto simp: redis_holds_def split: option.splits sum.splits)
    have "sn = ?sn" if "raw = b"
      using stored_round_trip [OF round_trip assms(1) Inr] sn that by simp
    then show ?thesis
      using redis_contractD(2) [OF contract set raw] sn m \<open>rs_sessionKey S c = Inr key\<close>
      by (auto simp: redis_holds_def to_nonce_def)
  qed (use assms \<open>rs_sessionKey S c = Inr key\<close> in \<open>auto simp: Store_Put_def\<close>)
qed (use assms in \<open>auto simp: Store_Put_def\<close>)

lemma Put_ok:
  assumes "utf8_nonce n" and "Store_Put Z S t c n r = (None, r')"
  shows "\<exists>k. rs_sessionKey S c = Inr k \<and> redis_holds S content r' k = Some n"
proof -
  let ?sn = "\<lparr>sn_Nonce = Base64EncodedNonce n, sn_IssuedAt = IssuedAt n\<rparr>"
  obtain k b where k: "rs_sessionKey S c = Inr k" and b: "marshal_nonce Z ?sn = Inr b"
    and set: "Set (client S) t (rs_prefix S @ k) b (rs_ttl S) r = (None, r')"
    using assms by (auto simp: Store_Put_def split: sum.splits)
  have "unmarshal_nonce b = Inr ?sn"
    by (rule stored_round_trip [OF round_trip assms(1) b])
  then show ?thesis
    using k redis_contractD(1) [OF contract set] by (simp add: redis_holds_def to_nonce_def)
qed

end

sublocale redis_nonce_store \<subseteq> red: nonce_store "redis_store Z S" "rs_sessionKey S"
  "redis_holds S content" "\<lambda>r. True" utf8_nonce
proof (unfold_locales, goal_cases)
  case (3 s t c n s')
  then show ?case using Put_ok by (simp add: redis_store_def)
next
  case (4 s t c n e s' k m)
  then show ?case using Put_stores by (simp add: redis_store_def)
next
  case (5 s t c n s')
  then show ?case
    by (auto simp: redis_store_def Store_GetAndRemove_def redis_holds_def to_nonce_def
        split: sum.splits prod.splits option.splits dest: redis_contractD(3) [OF contract])
next
  case (6 s t c r s' k m)
  then show ?case
    by (auto simp: redis_store_def Store_GetAndRemove_def redis_holds_def
        split: sum.splits prod.splits option.splits dest: redis_contractD(4) [OF contract])
qed auto

context redis_nonce_store
begin

lemma redis_single_use:
  "puts_only utf8_nonce ops \<Longrightarrow> redis_holds S content r k \<noteq> Some n \<Longrightarrow>
     run_ops (redis_store Z S) ops r = (log, r') \<Longrightarrow>
     taken (rs_sessionKey S) k n log \<le> issued (rs_sessionKey S) k n log"
  using red.single_use [where s = r and ops = ops and log = log and s' = r' and k = k and n = n]
  by simp

lemma redis_contract_laws:
  "nonce_store (redis_store Z S) (rs_sessionKey S) (redis_holds S content) (\<lambda>r. True) utf8_nonce"
  by (rule red.nonce_store_axioms)

end

section \<open>Keys that last\<close>

text \<open>
  What a server does that is reached and does not evict keys: a key that was set with a lifetime keeps
  its value until then, whatever is done to other keys, and GETDEL finds it. \<open>expiry r k\<close> is the time at
  which the key expires.
\<close>

definition redis_keeps ::
  "'r redis_client \<Rightarrow> ('r \<Rightarrow> string \<Rightarrow> bytes option) \<Rightarrow> ('r \<Rightarrow> string \<Rightarrow> time) \<Rightarrow> bool" where
  "redis_keeps cl content expiry \<longleftrightarrow>
     (\<forall>t k v d r r'. Set cl t k v d r = (None, r') \<longrightarrow> expiry r' k = t + d) \<and>
     (\<forall>t k v d r e r' j w. Set cl t k v d r = (e, r') \<longrightarrow> j \<noteq> k \<longrightarrow> content r j = Some w \<longrightarrow> t < expiry r j \<longrightarrow>
        content r' j = Some w \<and> expiry r' j = expiry r j) \<and>
     (\<forall>t k r x r' j w. GetDel cl t k r = (x, r') \<longrightarrow> j \<noteq> k \<longrightarrow> content r j = Some w \<longrightarrow> t < expiry r j \<longrightarrow>
        content r' j = Some w \<and> expiry r' j = expiry r j) \<and>
     (\<forall>t k r w. content r k = Some w \<longrightarrow> t < expiry r k \<longrightarrow> fst (GetDel cl t k r) = Inr (Some w))"

lemma redis_keepsD:
  assumes "redis_keeps cl content expiry"
  shows "Set cl t k v d r = (None, r') \<Longrightarrow> expiry r' k = t + d"
    and "Set cl t k v d r = (e, r') \<Longrightarrow> j \<noteq> k \<Longrightarrow> content r j = Some w \<Longrightarrow> t < expiry r j \<Longrightarrow>
      content r' j = Some w \<and> expiry r' j = expiry r j"
    and "GetDel cl t k r = (x, r') \<Longrightarrow> j \<noteq> k \<Longrightarrow> content r j = Some w \<Longrightarrow> t < expiry r j \<Longrightarrow>
      content r' j = Some w \<and> expiry r' j = expiry r j"
    and "content r k = Some w \<Longrightarrow> t < expiry r k \<Longrightarrow> fst (GetDel cl t k r) = Inr (Some w)"
  using assms unfolding redis_keeps_def by metis+

definition redis_lasts :: "('c, 'r) Store \<Rightarrow> ('r \<Rightarrow> string \<Rightarrow> time) \<Rightarrow> 'r \<Rightarrow> string \<Rightarrow> time \<Rightarrow> bool" where
  "redis_lasts S expiry r k t \<longleftrightarrow> t < expiry r (rs_prefix S @ k)"

locale lasting_redis_store = redis_nonce_store S Z content
  for S :: "('c, 'r) Store" and Z content +
  fixes expiry :: "'r \<Rightarrow> string \<Rightarrow> time"
  assumes keeps: "redis_keeps (client S) content expiry"
begin

lemma holds_content:
  "redis_holds S content r k = Some n \<Longrightarrow>
     \<exists>raw sn. content r (rs_prefix S @ k) = Some raw \<and> unmarshal_nonce raw = Inr sn \<and> n = to_nonce sn"
  by (auto simp: redis_holds_def split: option.splits sum.splits)

lemma Put_expiry:
  "Store_Put Z S t c n r = (None, r') \<Longrightarrow> rs_sessionKey S c = Inr k \<Longrightarrow> expiry r' (rs_prefix S @ k) = t + rs_ttl S"
  by (auto simp: Store_Put_def split: sum.splits dest: redis_keepsD(1) [OF keeps])

lemma Put_other:
  assumes "Store_Put Z S t c m r = (e, r')" and "rs_sessionKey S c \<noteq> Inr k" and "redis_holds S content r k = Some n"
    and "redis_lasts S expiry r k t"
  shows "redis_holds S content r' k = Some n \<and> redis_lasts S expiry r' k = redis_lasts S expiry r k"
proof -
  obtain raw sn where raw: "content r (rs_prefix S @ k) = Some raw" "unmarshal_nonce raw = Inr sn" "n = to_nonce sn"
    using holds_content [OF assms(3)] by blast
  have "r' = r \<or> (\<exists>j v. j \<noteq> k \<and> Set (client S) t (rs_prefix S @ j) v (rs_ttl S) r = (e, r'))"
    using assms(1, 2) by (auto simp: Store_Put_def split: sum.splits)
  then have "r' = r \<or> (content r' (rs_prefix S @ k) = Some raw \<and> expiry r' (rs_prefix S @ k) = expiry r (rs_prefix S @ k))"
    using redis_keepsD(2) [OF keeps _ _ raw(1)] assms(4) by (fastforce simp: redis_lasts_def)
  then show ?thesis using assms(3) raw by (auto simp: redis_holds_def redis_lasts_def fun_eq_iff)
qed

lemma GetAndRemove_other:
  assumes "Store_GetAndRemove Z S t c r = (x, r')" and "rs_sessionKey S c \<noteq> Inr k"
    and "redis_holds S content r k = Some n" and "redis_lasts S expiry r k t"
  shows "redis_holds S content r' k = Some n \<and> redis_lasts S expiry r' k = redis_lasts S expiry r k"
proof -
  obtain raw sn where raw: "content r (rs_prefix S @ k) = Some raw" "unmarshal_nonce raw = Inr sn" "n = to_nonce sn"
    using holds_content [OF assms(3)] by blast
  have "r' = r \<or> (\<exists>j y. j \<noteq> k \<and> GetDel (client S) t (rs_prefix S @ j) r = (y, r'))"
    using assms(1, 2) by (auto simp: Store_GetAndRemove_def split: sum.splits prod.splits option.splits)
  then have "r' = r \<or> (content r' (rs_prefix S @ k) = Some raw \<and> expiry r' (rs_prefix S @ k) = expiry r (rs_prefix S @ k))"
    using redis_keepsD(3) [OF keeps _ _ raw(1)] assms(4) by (fastforce simp: redis_lasts_def)
  then show ?thesis using assms(3) raw by (auto simp: redis_holds_def redis_lasts_def fun_eq_iff)
qed

lemma GetAndRemove_found:
  assumes "rs_sessionKey S c = Inr k" and "redis_holds S content r k = Some n" and "redis_lasts S expiry r k t"
  shows "fst (Store_GetAndRemove Z S t c r) = Inr n"
proof -
  obtain raw sn where raw: "content r (rs_prefix S @ k) = Some raw" "unmarshal_nonce raw = Inr sn" "n = to_nonce sn"
    using holds_content [OF assms(2)] by blast
  have "fst (GetDel (client S) t (rs_prefix S @ k) r) = Inr (Some raw)"
    using redis_keepsD(4) [OF keeps raw(1)] assms(3) by (simp add: redis_lasts_def)
  then show ?thesis
    using raw assms(1) by (auto simp: Store_GetAndRemove_def to_nonce_def split: prod.splits)
qed

end

sublocale lasting_redis_store \<subseteq> red_lasting: lasting_nonce_store "redis_store Z S" "rs_sessionKey S"
  "redis_holds S content" "\<lambda>r. True" utf8_nonce "redis_lasts S expiry" "redis_lasts S expiry"
  using Put_other GetAndRemove_other GetAndRemove_found by unfold_locales (simp_all add: redis_store_def)

section \<open>The fake client\<close>

definition sample_zone :: zone where "sample_zone = (\<lambda>t. 7200)"

lemma sample_whole_minutes: "whole_minutes sample_zone"
  by (simp add: whole_minutes_def sample_zone_def)

definition sample_redis :: "(string, fakeClient) Store" where
  "sample_redis = \<lparr>client = newFakeClient, rs_sessionKey = Inr, rs_ttl = 5 * minute,
     rs_prefix = defaultKeyPrefix\<rparr>"

interpretation fake: redis_nonce_store sample_redis sample_zone "\<lambda>m. m"
  by unfold_locales (simp_all add: sample_redis_def fake_contract sample_whole_minutes)

text \<open>A server that expires keys: each value with the time at which it expires.\<close>

type_synonym expiring = "string \<rightharpoonup> bytes \<times> time"

definition expiring_server :: "expiring redis_client" where
  "expiring_server = \<lparr>Set = (\<lambda>now key value ttl m. (None, m(key \<mapsto> (value, now + ttl)))),
     GetDel = (\<lambda>now key m. (case m key of
         None \<Rightarrow> Inr None | Some (v, x) \<Rightarrow> if now < x then Inr (Some v) else Inr None, m(key := None)))\<rparr>"

definition expiring_content :: "expiring \<Rightarrow> string \<Rightarrow> bytes option" where
  "expiring_content m k = map_option fst (m k)"

definition expiring_at :: "expiring \<Rightarrow> string \<Rightarrow> time" where
  "expiring_at m k = (case m k of None \<Rightarrow> 0 | Some (v, x) \<Rightarrow> x)"

lemma expiring_contract: "redis_contract expiring_server expiring_content"
  by (auto simp: redis_contract_def expiring_server_def expiring_content_def split: option.splits if_splits prod.splits)

lemma expiring_keeps: "redis_keeps expiring_server expiring_content expiring_at"
  by (auto simp: redis_keeps_def expiring_server_def expiring_content_def expiring_at_def split: option.splits)

definition sample_expiring :: "(string, expiring) Store" where
  "sample_expiring = \<lparr>client = expiring_server, rs_sessionKey = Inr, rs_ttl = 5 * minute, rs_prefix = defaultKeyPrefix\<rparr>"

interpretation expiring_fake: lasting_redis_store sample_expiring sample_zone expiring_content expiring_at
  by unfold_locales (simp_all add: sample_expiring_def expiring_contract expiring_keeps sample_whole_minutes)

section \<open>A store over go-redis\<close>

text \<open>
  The contract of the go-redis client below the adapter: as \<open>redis_contract\<close>, with
  \<^verbatim>\<open>redis.Nil\<close> for a missing key. A store made by \<^verbatim>\<open>New\<close> over \<^verbatim>\<open>Wrap\<close> of such a client
  meets the contract of a nonce store, whatever key prefix it is given.
\<close>

definition universal_contract :: "'r universal_client \<Rightarrow> ('r \<Rightarrow> string \<Rightarrow> bytes option) \<Rightarrow> bool" where
  "universal_contract g content \<longleftrightarrow>
     (\<forall>t k v d r r'. uc_Set g t k v d r = (None, r') \<longrightarrow> content r' k = Some v) \<and>
     (\<forall>t k v d r e r' j w. uc_Set g t k v d r = (e, r') \<longrightarrow> content r' j = Some w \<longrightarrow>
        content r j = Some w \<or> j = k \<and> w = v) \<and>
     (\<forall>t k r v r'. uc_GetDel g t k r = (Inr v, r') \<longrightarrow> content r k = Some v \<and> content r' k = None) \<and>
     (\<forall>t k r x r' j w. uc_GetDel g t k r = (x, r') \<longrightarrow> content r' j = Some w \<longrightarrow> content r j = Some w)"

lemma goRedisClient_GetDel_eq:
  "goRedisClient_GetDel g t k r = (x, r') \<Longrightarrow>
     \<exists>y. uc_GetDel g t k r = (y, r') \<and> (\<forall>v. x = Inr (Some v) \<longrightarrow> y = Inr v)"
  by (auto simp: goRedisClient_GetDel_def split: prod.splits sum.splits if_splits)

lemma Wrap_contract: "universal_contract g content \<Longrightarrow> redis_contract (redis_Wrap g) content"
  unfolding redis_contract_def universal_contract_def redis_Wrap_def goRedisClient_Set_def
  by (auto dest!: goRedisClient_GetDel_eq)

lemma WithKeyPrefix_fields [simp]:
  "client (WithKeyPrefix p s) = client s" "rs_sessionKey (WithKeyPrefix p s) = rs_sessionKey s"
  "rs_ttl (WithKeyPrefix p s) = rs_ttl s" "rs_prefix s \<noteq> [] \<Longrightarrow> rs_prefix (WithKeyPrefix p s) \<noteq> []"
  by (simp_all add: WithKeyPrefix_def)

lemma foldl_WithKeyPrefix:
  "client (foldl (\<lambda>s opt. opt s) s (map WithKeyPrefix ps)) = client s"
  "rs_sessionKey (foldl (\<lambda>s opt. opt s) s (map WithKeyPrefix ps)) = rs_sessionKey s"
  "rs_ttl (foldl (\<lambda>s opt. opt s) s (map WithKeyPrefix ps)) = rs_ttl s"
  "rs_prefix s \<noteq> [] \<Longrightarrow> rs_prefix (foldl (\<lambda>s opt. opt s) s (map WithKeyPrefix ps)) \<noteq> []"
  by (induction ps arbitrary: s) simp_all

lemma redisstore_New_fields:
  assumes "redisstore_New (Some cl) (Some sk) ttl (map WithKeyPrefix ps) = Inr S"
  shows "client S = cl" "rs_sessionKey S = sk" "0 < rs_ttl S" "rs_prefix S \<noteq> []"
  using assms
  by (auto simp: redisstore_New_def foldl_WithKeyPrefix defaultKeyPrefix_def DefaultNonceTTL_def
      minute_def second_def)

locale go_redis_store =
  fixes g :: "'r universal_client"
    and sk :: "'c \<Rightarrow> string result"
    and ttl :: duration
    and prefixes :: "string list"
    and S :: "('c, 'r) Store"
    and Z :: zone
    and content :: "'r \<Rightarrow> string \<Rightarrow> bytes option"
  assumes made: "redisstore_New (Some (redis_Wrap g)) (Some sk) ttl (map WithKeyPrefix prefixes) = Inr S"
    and server: "universal_contract g content"
    and json: "whole_minutes Z"

sublocale go_redis_store \<subseteq> redis_nonce_store S Z content
  using redisstore_New_fields [OF made] Wrap_contract [OF server] json by unfold_locales simp_all

context go_redis_store
begin

lemma go_redis_single_use:
  "puts_only utf8_nonce ops \<Longrightarrow> redis_holds S content r k \<noteq> Some n \<Longrightarrow>
     run_ops (redis_store Z S) ops r = (log, r') \<Longrightarrow> taken sk k n log \<le> issued sk k n log"
  using redis_single_use redisstore_New_fields(2) [OF made] by simp

end

text \<open>The fake client behind the go-redis interface.\<close>

definition fake_universal :: "fakeClient universal_client" where
  "fake_universal = \<lparr>uc_Set = fake_Set,
     uc_GetDel = (\<lambda>now key m. case m key of None \<Rightarrow> (Inl redis_Nil, m) | Some v \<Rightarrow> (Inr v, m(key := None)))\<rparr>"

definition sample_wrapped :: "(string, fakeClient) Store" where
  "sample_wrapped = \<lparr>client = redis_Wrap fake_universal, rs_sessionKey = Inr, rs_ttl = 5 * minute,
     rs_prefix = ''app:''\<rparr>"

interpretation wrapped_fake: go_redis_store fake_universal Inr 0 "[''app:'']" sample_wrapped
  sample_zone "\<lambda>m. m"
proof (unfold_locales, goal_cases)
  case 2
  show ?case
    by (auto simp: universal_contract_def fake_universal_def fake_Set_def split: option.splits if_splits)
qed (simp_all add: redisstore_New_def WithKeyPrefix_def DefaultNonceTTL_def sample_whole_minutes
    sample_wrapped_def)

section \<open>Properties\<close>

text \<open>C21: Single use, Redis store: for a store made by \<^verbatim>\<open>New\<close> over a wrapped go-redis client, whatever the
  server does within its contract (keys may expire, commands may fail), over any sequence of
  operations from a state that does not hold the nonce, a session takes a nonce out at most as many
  times as it was put in for that session.\<close>

theorem redis_store_single_use:
  assumes "redisstore_New (Some (redis_Wrap g)) (Some key) ttl (map WithKeyPrefix prefixes) = Inr S"
    and "universal_contract g content" and "whole_minutes Z"
    and "puts_only utf8_nonce ops"
    and "redis_holds S content r k \<noteq> Some n"
    and "run_ops (redis_store Z S) ops r = (log, r')"
  shows "taken key k n log \<le> issued key k n log"
proof -
  have "go_redis_store g key ttl prefixes S Z content" using assms(1, 2, 3) by unfold_locales
  from go_redis_store.go_redis_single_use [OF this assms(4, 5, 6)] show ?thesis .
qed

text \<open>What the store writes for a nonce issued at the epoch, two hours east of Greenwich.\<close>

definition sample_stored :: bytes where
  "sample_stored = bytes_of ([CHR ''{'', dquote] @ ''nonce'' @ [dquote, CHR '':'', dquote] @ ''AAAA'' @
     [dquote, CHR '','', dquote] @ ''issuedAt'' @ [dquote, CHR '':'', dquote] @
     ''1970-01-01T02:00:00+02:00'' @ [dquote, CHR ''}''])"

lemma sample_stored_eq: "marshal_nonce sample_zone \<lparr>sn_Nonce = ''AAAA'', sn_IssuedAt = 0\<rparr> = Inr sample_stored"
proof -
  have "time_text 7200 0 = Some ''1970-01-01T02:00:00+02:00''" by code_simp
  moreover have "escape ''nonce'' = ''nonce''" "escape ''issuedAt'' = ''issuedAt''" "escape ''AAAA'' = ''AAAA''"
    by (simp_all add: escape_plain plain_char_def)
  ultimately show ?thesis
    by (simp add: marshal_nonce_def sample_zone_def json_Marshal_def string_member_def member_text_def sample_stored_def)
qed

lemma sample_nonce_utf8: "utf8_nonce sample_nonce"
  unfolding utf8_nonce_def
  by (rule valid_utf8_ascii) (simp add: sample_nonce_def is_ascii_def ascii_char_def)

theorem redis_store_single_use_witness:
  "taken Inr ''s1'' sample_nonce (fst (run_ops (redis_store sample_zone sample_wrapped) sample_ops Map.empty))
     \<le> issued Inr ''s1'' sample_nonce
         (fst (run_ops (redis_store sample_zone sample_wrapped) sample_ops Map.empty))"
proof -
  have "puts_only utf8_nonce sample_ops" by (simp add: sample_ops_def sample_nonce_utf8)
  moreover have "redis_holds sample_wrapped (\<lambda>m. m) Map.empty ''s1'' \<noteq> Some sample_nonce"
    by (simp add: redis_holds_def)
  ultimately show ?thesis
    using redis_store_single_use [OF wrapped_fake.made wrapped_fake.server wrapped_fake.json _ _
        prod.collapse [symmetric], of sample_ops Map.empty "''s1''" sample_nonce]
    by simp
qed

end
