(* ===== verification/Routes.thy ===== *)
theory Routes
  imports Handler Messages Redis_Store
begin

text \<open>
  \<^verbatim>\<open>src/azugo/routes.go\<close>, \<^verbatim>\<open>dto.go\<close> and \<^verbatim>\<open>subject.go\<close>: the endpoints and the route
  table. A handler receives what \<^verbatim>\<open>ctx.Body.JSON\<close> decoded (or its error); the clocks, the random
  source and the trust snapshots one request reads are its \<open>request_env\<close>. \<open>serve\<close> looks a
  request up in the route table and runs its handler, behind the session middleware where the
  table says so; \<open>run_service\<close> serves a sequence of requests.
\<close>

record request_env =
  re_run :: validate_run
  re_sign :: signing_run
  re_world :: world
  re_now :: time
  re_store_now :: time
  re_struct :: struct_validator
  re_order :: "string list"
  re_session_rand :: "nat \<Rightarrow> bytes result"
  re_read :: nat

section \<open>Subjects\<close>

fun or_empty :: "string result \<Rightarrow> string" where
  "or_empty (Inr s) = s"
| "or_empty (Inl err) = []"

definition subjectFromCertificate :: "x509_cert \<Rightarrow> SubjectResponse" where
  "subjectFromCertificate cert =
     \<lparr>sr_CommonName = or_empty (SubjectCN cert), sr_IDCode = or_empty (SubjectIDCode cert),
      sr_CountryCode = or_empty (SubjectCountryCode cert),
      sr_GivenName = or_empty (SubjectGivenName cert), sr_Surname = or_empty (SubjectSurname cert)\<rparr>"

definition user_claims :: "unicode \<Rightarrow> SubjectResponse \<Rightarrow> (string \<times> string) list" where
  "user_claims U subject =
     [(''sub'', sr_IDCode subject), (''given_name'', sr_GivenName subject),
      (''family_name'', sr_Surname subject),
      (''name'', TitleCase U (sr_GivenName subject @ '' '' @ sr_Surname subject))]"

definition assertion_subject :: "SubjectResponse \<Rightarrow> assertion_Subject" where
  "assertion_subject subject =
     \<lparr>s_NationalID = sr_IDCode subject, s_Country = sr_CountryCode subject,
      s_GivenName = sr_GivenName subject, s_FamilyName = sr_Surname subject, s_LoA = ''high''\<rparr>"

text \<open>The end of \<^verbatim>\<open>login\<close> and of \<^verbatim>\<open>validate\<close>: set the user, issue an assertion if configured.\<close>

definition establish ::
  "'a platform_scheme \<Rightarrow> 'j jose_platform_scheme \<Rightarrow> 'x Handler \<Rightarrow> request_env \<Rightarrow> x509_cert \<Rightarrow>
   http_ctx \<Rightarrow> payload response \<times> http_ctx" where
  "establish P J h E cert ctx =
     (let subject = subjectFromCertificate cert;
          ctx1 = ctx\<lparr>ctx_User := Some (user_claims (tables P) subject)\<rparr> in
      case h_assertionIssuer h of
        None \<Rightarrow> (JSONResponse (SubjectPayload subject), ctx1)
      | Some iss \<Rightarrow>
          (case Issue J (re_world E) iss (assertion_subject subject) of
             Inl err \<Rightarrow> (ErrorResponse err, ctx1)
           | Inr tok \<Rightarrow> (JSONResponse (AssertionResponse tok subject), ctx1)))"

section \<open>Endpoints\<close>

definition jwks :: "'x Handler \<Rightarrow> request_env \<Rightarrow> (payload, 's) handler_fun" where
  "jwks h E ctx s =
     (case h_publishedKeys h of
        None \<Rightarrow> (ErrorResponse errNilKey, ctx, s)
      | Some ks \<Rightarrow>
          (case KeySet_JWKS ks (re_order E) of
             Inl err \<Rightarrow> (ErrorResponse err, ctx, s)
           | Inr doc \<Rightarrow> (JSONResponse (JWKSPayload doc), ctx, s)))"

definition challenge :: "'x Handler \<Rightarrow> request_env \<Rightarrow> (payload, 'x backends) handler_fun" where
  "challenge h E ctx s =
     (case GenerateAndStoreNonce (h_generator h) (re_read E) (re_now E) (re_store_now E) ctx s of
        (Inl err, s') \<Rightarrow> (ErrorResponse err, ctx, s')
      | (Inr nonce, s') \<Rightarrow> (JSONResponse (ChallengeResponse (Base64EncodedNonce nonce)), ctx, s'))"

definition login ::
  "'a ocsp_platform_scheme \<Rightarrow> 'j jose_platform_scheme \<Rightarrow> 'x Handler \<Rightarrow> request_env \<Rightarrow>
   LoginRequest result \<Rightarrow> (payload, 'x backends) handler_fun" where
  "login P J h E body ctx s =
     (case body of
        Inl err \<Rightarrow> (ErrorResponse err, ctx, s)
      | Inr req \<Rightarrow>
          (case GetAndRemove (h_store h) (re_store_now E) ctx s of
             (Inl err, s') \<Rightarrow> (ErrorResponse err, ctx, s')
           | (Inr stored, s') \<Rightarrow>
               if Expired stored (re_now E) (cfg_NonceTTL (h_config h))
               then (ErrorResponse (Typed ErrChallengeNonceExpired), ctx, s')
               else (case Validate P (h_validator h) (re_run E) (Some (lr_AuthToken req))
                            (Base64EncodedNonce stored) of
                       Inl err \<Rightarrow> (ErrorResponse err, ctx, s')
                     | Inr cert \<Rightarrow>
                         (let (resp, ctx1) = establish P J h E cert ctx in (resp, ctx1, s')))))"

definition validate ::
  "'a ocsp_platform_scheme \<Rightarrow> 'j jose_platform_scheme \<Rightarrow> 'x Handler \<Rightarrow> request_env \<Rightarrow>
   ValidateRequest result \<Rightarrow> (payload, 's) handler_fun" where
  "validate P J h E body ctx s =
     (case body of
        Inl err \<Rightarrow> (ErrorResponse err, ctx, s)
      | Inr req \<Rightarrow>
          (case ValidateRequest_Validate (re_struct E) req of
             Some err \<Rightarrow> (ErrorResponse err, ctx, s)
           | None \<Rightarrow>
               (case Validate P (h_validator h) (re_run E) (Some (vr_AuthToken req)) (vr_Nonce req) of
                  Inl err \<Rightarrow> (ErrorResponse err, ctx, s)
                | Inr cert \<Rightarrow> (let (resp, ctx1) = establish P J h E cert ctx in (resp, ctx1, s)))))"

definition std_decode :: "web_error \<Rightarrow> string \<Rightarrow> bytes result" where
  "std_decode base t =
     (case StdEncoding_DecodeString t of
        None \<Rightarrow> Inl (wrapped base base64_error) | Some b \<Rightarrow> Inr b)"

definition signingCertificate ::
  "'a ocsp_platform_scheme \<Rightarrow> 'x Handler \<Rightarrow> request_env \<Rightarrow> SigningCertificateRequest result \<Rightarrow>
   (payload, 's) handler_fun" where
  "signingCertificate P h E body ctx s =
     (case bindE body (\<lambda>req.
             bindE (std_decode ErrSigningCertificateInvalid (sc_Certificate req)) (\<lambda>der.
             PrepareSigning P (h_signer h) (re_sign E) der (sc_SupportedSignatureAlgorithms req))) of
        Inl err \<Rightarrow> (ErrorResponse err, ctx, s)
      | Inr (_, algo, hashFn) \<Rightarrow> (JSONResponse (SigningCertificateResponse algo hashFn), ctx, s))"

definition errVerifiedFinalizeNeedsBoth :: goerror where
  "errVerifiedFinalizeNeedsBoth = PartialVerifiedFinalize"

definition errPartialVerifiedFinalize_Error :: string where
  "errPartialVerifiedFinalize_Error = ''verified finalize requires both digest and signingCertificate''"

text \<open>The verified part of \<^verbatim>\<open>finalize\<close>: the flags \<^verbatim>\<open>sigVerified\<close> and \<^verbatim>\<open>identityBound\<close>.\<close>

definition verified_finalize ::
  "'a platform_scheme \<Rightarrow> FinalizeRequest \<Rightarrow> bytes \<Rightarrow> x509_cert \<Rightarrow> (bool \<times> bool) result" where
  "verified_finalize P req sig authCert =
     (if fq_Digest req = [] \<and> fq_SigningCertificate req = [] then Inr (False, False)
      else if fq_Digest req = [] \<or> fq_SigningCertificate req = []
      then Inl (wrapped ErrSignatureValueInvalid errVerifiedFinalizeNeedsBoth)
      else
        bindE (std_decode ErrSignatureValueInvalid (fq_Digest req)) (\<lambda>digest.
        bindE (std_decode ErrSigningCertificateInvalid (fq_SigningCertificate req)) (\<lambda>signDER.
        bindE (ParseSigningCertificate P signDER) (\<lambda>signCert.
        checkE (VerifySignatureValue P (Some signCert) (fq_SignatureAlgorithm req) digest sig)
          (case CheckSameNaturalPerson (Some authCert) (Some signCert) of
             (_, Some berr) \<Rightarrow> Inl berr
           | (checked, None) \<Rightarrow> Inr (True, checked))))))"

definition finalize_result ::
  "'a platform_scheme \<Rightarrow> FinalizeRequest \<Rightarrow> FinalizeResponse result" where
  "finalize_result P req =
     bindE (std_decode ErrSigningCertificateInvalid (fq_Signature req)) (\<lambda>sig.
     bindE (std_decode ErrSigningCertificateInvalid (fq_AuthCertificate req)) (\<lambda>authDER.
     bindE (Finalize P sig authDER) (\<lambda>(authCert, signed).
     bindE (verified_finalize P req sig authCert) (\<lambda>(sigVerified, identityBound).
       Inr \<lparr>fr_Status = ''ok'', fr_Signature = StdEncoding_EncodeToString signed,
            fr_AuthCertificate = StdEncoding_EncodeToString (Raw authCert),
            fr_SignatureVerified = sigVerified, fr_IdentityBound = identityBound\<rparr>))))"

definition finalize ::
  "'a platform_scheme \<Rightarrow> 'x Handler \<Rightarrow> FinalizeRequest result \<Rightarrow> (payload, 's) handler_fun" where
  "finalize P h body ctx s =
     (case bindE body (finalize_result P) of
        Inl err \<Rightarrow> (ErrorResponse err, ctx, s)
      | Inr resp \<Rightarrow> (JSONResponse (FinalizePayload resp), ctx, s))"

section \<open>Routes\<close>

datatype endpoint =
  EpChallenge | EpLogin | EpValidate | EpSigningCertificate | EpFinalize | EpJWKS

record route =
  rt_Method :: string
  rt_Path :: string
  rt_Session :: bool
  rt_Endpoint :: endpoint

definition Bind :: "'x Handler \<Rightarrow> route list" where
  "Bind h =
     [\<lparr>rt_Method = ''GET'', rt_Path = ''/auth/challenge'', rt_Session = True, rt_Endpoint = EpChallenge\<rparr>,
      \<lparr>rt_Method = ''POST'', rt_Path = ''/auth/login'', rt_Session = True, rt_Endpoint = EpLogin\<rparr>,
      \<lparr>rt_Method = ''POST'', rt_Path = ''/auth/validate'', rt_Session = False, rt_Endpoint = EpValidate\<rparr>,
      \<lparr>rt_Method = ''POST'', rt_Path = ''/sign/certificate'', rt_Session = True,
       rt_Endpoint = EpSigningCertificate\<rparr>,
      \<lparr>rt_Method = ''POST'', rt_Path = ''/sign/finalize'', rt_Session = True, rt_Endpoint = EpFinalize\<rparr>] @
     (if h_publishedKeys h \<noteq> None
      then [\<lparr>rt_Method = ''GET'', rt_Path = ''/.well-known/jwks.json'', rt_Session = False,
             rt_Endpoint = EpJWKS\<rparr>] else [])"

text \<open>A request: method, path, and what decoding its body as the type an endpoint expects gives.\<close>

record http_request_in =
  rq_Method :: string
  rq_Path :: string
  rq_Login :: "LoginRequest result"
  rq_Validate :: "ValidateRequest result"
  rq_SigningCertificate :: "SigningCertificateRequest result"
  rq_Finalize :: "FinalizeRequest result"

definition errNotFound :: goerror where "errNotFound = ErrorString ''Not Found''"

fun run_endpoint ::
  "'a ocsp_platform_scheme \<Rightarrow> 'j jose_platform_scheme \<Rightarrow> 'x Handler \<Rightarrow> request_env \<Rightarrow>
   http_request_in \<Rightarrow> endpoint \<Rightarrow> (payload, 'x backends) handler_fun" where
  "run_endpoint P J h E rq EpChallenge = challenge h E"
| "run_endpoint P J h E rq EpLogin = login P J h E (rq_Login rq)"
| "run_endpoint P J h E rq EpValidate = validate P J h E (rq_Validate rq)"
| "run_endpoint P J h E rq EpSigningCertificate =
     signingCertificate P h E (rq_SigningCertificate rq)"
| "run_endpoint P J h E rq EpFinalize = finalize P h (rq_Finalize rq)"
| "run_endpoint P J h E rq EpJWKS = jwks h E"

definition route_of :: "'x Handler \<Rightarrow> http_request_in \<Rightarrow> route option" where
  "route_of h rq = find (\<lambda>r. rt_Method r = rq_Method rq \<and> rt_Path r = rq_Path rq) (Bind h)"

definition serve ::
  "'a ocsp_platform_scheme \<Rightarrow> 'j jose_platform_scheme \<Rightarrow> 'x Handler \<Rightarrow> request_env \<Rightarrow>
   http_request_in \<Rightarrow> (payload, 'x backends) handler_fun" where
  "serve P J h E rq ctx s =
     (case route_of h rq of
        None \<Rightarrow> (ErrorResponse errNotFound, ctx, s)
      | Some r \<Rightarrow>
          (if rt_Session r
           then EnsureSession P (h_config h) (re_session_rand E)
                  (run_endpoint P J h E rq (rt_Endpoint r)) ctx s
           else run_endpoint P J h E rq (rt_Endpoint r) ctx s))"

text \<open>A sequence of requests against one service, with the final context and response of each.\<close>

fun run_service ::
  "'a ocsp_platform_scheme \<Rightarrow> 'j jose_platform_scheme \<Rightarrow> 'x Handler \<Rightarrow>
   (request_env \<times> http_request_in \<times> http_ctx) list \<Rightarrow> 'x backends \<Rightarrow>
   (http_request_in \<times> http_ctx \<times> payload response) list \<times> 'x backends" where
  "run_service P J h [] s = ([], s)"
| "run_service P J h ((E, rq, ctx) # rest) s =
     (let (resp, c, s1) = serve P J h E rq ctx s; (log, s2) = run_service P J h rest s1
      in ((rq, c, resp) # log, s2))"

lemma run_service_ConsE:
  assumes "run_service P J h (r # rs) s = (log, s')"
  obtains E rq ctx resp c s1 log1 where "r = (E, rq, ctx)" "serve P J h E rq ctx s = (resp, c, s1)"
    "run_service P J h rs s1 = (log1, s')" "log = (rq, c, resp) # log1"
  using assms by (cases r) (auto split: prod.splits)

lemma run_service_nth:
  "run_service P J h rs s = (log, s') \<Longrightarrow> b < length log \<Longrightarrow> log ! b = (rq, c, resp) \<Longrightarrow>
     \<exists>E ctx s1 s2. run_service P J h (take b rs) s = (take b log, s1) \<and> serve P J h E rq ctx s1 = (resp, c, s2) \<and>
       rs ! b = (E, rq, ctx) \<and> b < length rs"
proof (induction rs arbitrary: s log b)
  case (Cons r rs)
  obtain E rq0 ctx resp0 c0 s1 log1 where r: "r = (E, rq0, ctx)" and sv: "serve P J h E rq0 ctx s = (resp0, c0, s1)"
    and run: "run_service P J h rs s1 = (log1, s')" and log: "log = (rq0, c0, resp0) # log1"
    using Cons.prems(1) by (rule run_service_ConsE)
  show ?case
  proof (cases b)
    case 0
    then show ?thesis using sv r log Cons.prems(3) by auto
  next
    case (Suc n)
    then show ?thesis using Cons.IH [OF run, of n] Cons.prems(2, 3) sv r log by fastforce
  qed
qed simp

section \<open>Error texts and answers\<close>

text \<open>
  \<^verbatim>\<open>fmt.Errorf\<close>: the verbs take the arguments in order, \<^verbatim>\<open>%w\<close> is the text of the cause, and \<^verbatim>\<open>%q\<close>
  quotes with \<open>q\<close> (\<^verbatim>\<open>strconv.Quote\<close>).
\<close>

fun fmt_text :: "(string \<Rightarrow> string) \<Rightarrow> string \<Rightarrow> string list \<Rightarrow> string \<Rightarrow> string" where
  "fmt_text q (CHR ''%'' # v # cs) as w =
     (if v = CHR ''w'' then w @ fmt_text q cs as w
      else case as of
        [] \<Rightarrow> ''%!'' @ v # ''(MISSING)'' @ fmt_text q cs [] w
      | a # as' \<Rightarrow> (if v = CHR ''q'' then q a else a) @ fmt_text q cs as' w)"
| "fmt_text q (c # cs) as w = c # fmt_text q cs as w"
| "fmt_text q [] as w = []"

text \<open>What the \<^verbatim>\<open>Error\<close> method of an error value returns, for the logs.\<close>

fun error_text :: "(string \<Rightarrow> string) \<Rightarrow> goerror \<Rightarrow> string" where
  "error_text q (Typed (WebError c m s None)) = ''webeid: '' @ c @ '': '' @ m"
| "error_text q (Typed (WebError c m s (Some x))) = ''webeid: '' @ c @ '': '' @ m @ '': '' @ error_text q x"
| "error_text q (ErrorString s) = s"
| "error_text q (FmtError f as None) = fmt_text q f as []"
| "error_text q (FmtError f as (Some x)) = fmt_text q f as (error_text q x)"
| "error_text q (JoinError es) = join_with (CHR 0x0A) (map (error_text q) es)"
| "error_text q HostMismatchError = hostMismatch_Error"
| "error_text q ResponderNotAllowed = errResponderNotAllowed_Error"
| "error_text q PartialVerifiedFinalize = errPartialVerifiedFinalize_Error"
| "error_text q (InvalidP1363Length got want) = errInvalidP1363Length_Error got want"

text \<open>
  What a client is told: status and safe message of the two error types that have them; other errors
  are answered by the framework's default.
\<close>

fun client_answer :: "goerror \<Rightarrow> (int \<times> string) option" where
  "client_answer (Typed e) = Some (StatusCode e, SafeError e)"
| "client_answer HostMismatchError = Some (hostMismatch_StatusCode, hostMismatch_SafeError)"
| "client_answer _ = None"

lemma error_text_Typed: "error_text q (Typed e) = Error (error_text q) e"
  by (cases e; cases "Err e") (auto simp: Error_def)

text \<open>The cause of a typed error is in the log and never in the answer.\<close>

lemma cause_not_answered:
  "client_answer (wrapped b x) = client_answer (Typed b)"
  "error_text q (wrapped b x) = ''webeid: '' @ Code b @ '': '' @ Message b @ '': '' @ error_text q x"
  by (simp_all add: wrapped_Typed StatusCode_def SafeError_def error_text_Typed Error_def del: error_text.simps)

section \<open>What the endpoints do\<close>

lemma establish_JSON:
  "establish P J h E cert ctx = (JSONResponse p, c) \<longleftrightarrow>
     c = ctx\<lparr>ctx_User := Some (user_claims (tables P) (subjectFromCertificate cert))\<rparr> \<and>
     (case h_assertionIssuer h of
        None \<Rightarrow> p = SubjectPayload (subjectFromCertificate cert)
      | Some iss \<Rightarrow> \<exists>tok. Issue J (re_world E) iss (assertion_subject (subjectFromCertificate cert)) = Inr tok \<and>
          p = AssertionResponse tok (subjectFromCertificate cert))"
  by (auto simp: establish_def Let_def split: option.splits sum.splits)

lemma establish_ctx: "request_key (snd (establish P J h E cert ctx)) = request_key ctx"
  by (simp add: establish_def request_key_def SessionKey_def Let_def split: option.split sum.split)

lemma login_JSON:
  "login P J h E body ctx s = (JSONResponse p, c, s') \<longleftrightarrow>
     (\<exists>req stored cert. body = Inr req \<and>
        GetAndRemove (h_store h) (re_store_now E) ctx s = (Inr stored, s') \<and>
        \<not> Expired stored (re_now E) (cfg_NonceTTL (h_config h)) \<and>
        Validate P (h_validator h) (re_run E) (Some (lr_AuthToken req)) (Base64EncodedNonce stored) = Inr cert \<and>
        establish P J h E cert ctx = (JSONResponse p, c))"
  by (auto simp: login_def split: sum.splits prod.splits if_splits)

lemma login_state:
  "login P J h E (Inr req) ctx s = (resp, c, s') \<Longrightarrow>
     (\<exists>r. GetAndRemove (h_store h) (re_store_now E) ctx s = (r, s') \<and> (\<forall>e. r = Inl e \<longrightarrow> resp = ErrorResponse e)) \<and>
     request_key c = request_key ctx"
  using establish_ctx [of P J h E _ ctx]
  by (auto simp: login_def split: sum.splits prod.splits if_splits) (metis snd_conv)

lemma challenge_state:
  "challenge h E ctx s = (resp, c, s') \<Longrightarrow>
     c = ctx \<and> (s' = s \<or> (\<exists>buf e. Put (gen_store (h_generator h)) (re_store_now E) ctx
        \<lparr>Base64EncodedNonce = StdEncoding_EncodeToString buf, IssuedAt = re_now E\<rparr> s = (e, s')))"
  by (auto simp: challenge_def GenerateAndStoreNonce_def Let_def split: sum.splits prod.splits option.splits)

lemma stateless_endpoints:
  "validate P J h E vb ctx s = (resp, c, s') \<Longrightarrow> s' = s"
  "signingCertificate P h E sb ctx s = (resp, c, s') \<Longrightarrow> s' = s"
  "finalize P h fb ctx s = (resp, c, s') \<Longrightarrow> s' = s"
  "jwks h E ctx s = (resp, c, s') \<Longrightarrow> s' = s"
  by (auto simp: validate_def signingCertificate_def finalize_def jwks_def
      split: sum.splits option.splits prod.splits)

definition is_challenge :: "http_request_in \<Rightarrow> bool" where
  "is_challenge rq \<longleftrightarrow> rq_Method rq = ''GET'' \<and> rq_Path rq = ''/auth/challenge''"

definition is_login :: "http_request_in \<Rightarrow> bool" where
  "is_login rq \<longleftrightarrow> rq_Method rq = ''POST'' \<and> rq_Path rq = ''/auth/login''"

lemma route_of_login: "is_login rq \<Longrightarrow> \<exists>r. route_of h rq = Some r \<and> rt_Session r \<and> rt_Endpoint r = EpLogin"
  by (simp add: route_of_def Bind_def is_login_def)

lemma route_of_endpoint:
  assumes "route_of h rq = Some r"
  shows "rt_Endpoint r = EpLogin \<Longrightarrow> is_login rq" and "rt_Endpoint r = EpChallenge \<Longrightarrow> is_challenge rq"
proof -
  have "r \<in> set (Bind h)" "rt_Method r = rq_Method rq" "rt_Path r = rq_Path rq"
    using assms by (auto simp: route_of_def find_Some_iff)
  then show "rt_Endpoint r = EpLogin \<Longrightarrow> is_login rq" "rt_Endpoint r = EpChallenge \<Longrightarrow> is_challenge rq"
    by (auto simp: Bind_def is_login_def is_challenge_def split: if_splits)
qed

text \<open>What the middleware hands on: an error, or the handler run in a context with a session key.\<close>

lemma EnsureSession_cases:
  assumes "EnsureSession P cfg rand handler ctx s = (resp, c, s')"
  obtains (refused) e where "resp = ErrorResponse e" "c = ctx" "s' = s"
    | (passed) ctx1 sid where "handler ctx1 s = (resp, c, s')"
      "ctx1 = (ctx1 \<lparr>ctx_UserValue := (ctx_UserValue ctx)(sessionContextKey \<mapsto> sid)\<rparr>)"
proof -
  let ?key = "\<lambda>sid. (ctx_UserValue ctx)(sessionContextKey \<mapsto> sid)"
  consider e where "resp = ErrorResponse e" "c = ctx" "s' = s"
    | sid where "handler (ctx\<lparr>ctx_UserValue := ?key sid\<rparr>) s = (resp, c, s')"
    | new where "handler ((setSessionCookie ctx (cfg_SessionCookieName cfg) new (cfg_NonceTTL cfg))
        \<lparr>ctx_UserValue := ?key new\<rparr>) s = (resp, c, s')"
    using assms by (auto simp: EnsureSession_def Let_def split: if_splits sum.splits)
  then show ?thesis
  proof cases
    case 1
    then show ?thesis by (rule refused)
  next
    case (2 sid)
    show ?thesis by (rule passed [OF 2, of sid]) simp
  next
    case (3 new)
    show ?thesis by (rule passed [OF 3, of new]) simp
  qed
qed

definition fresh_ctx :: "http_ctx \<Rightarrow> bool" where
  "fresh_ctx ctx \<longleftrightarrow> ctx_UserValue ctx sessionContextKey = None"

lemma fresh_no_key: "fresh_ctx ctx \<Longrightarrow> request_key ctx \<noteq> Inr k"
  by (simp add: fresh_ctx_def request_key_def SessionKey_def)

lemma run_endpoint_effect:
  assumes "run_endpoint P J h E rq ep ctx s = (resp, c, s')"
  shows "s' = s \<or>
     (ep = EpChallenge \<and> (\<exists>buf e. Put (gen_store (h_generator h)) (re_store_now E) c
        \<lparr>Base64EncodedNonce = StdEncoding_EncodeToString buf, IssuedAt = re_now E\<rparr> s = (e, s'))) \<or>
     (ep = EpLogin \<and> (\<exists>r ctx1. GetAndRemove (h_store h) (re_store_now E) ctx1 s = (r, s') \<and>
        request_key ctx1 = request_key c))"
proof (cases ep)
  case EpLogin
  show ?thesis
  proof (cases "rq_Login rq")
    case (Inl e)
    then show ?thesis using assms EpLogin by (simp add: login_def)
  next
    case (Inr req)
    then show ?thesis using assms EpLogin login_state [of P J h E req ctx s resp c s'] by fastforce
  qed
qed (use assms in \<open>auto dest: challenge_state stateless_endpoints\<close>)

lemma serve_effect:
  assumes "serve P J h E rq ctx s = (resp, c, s')"
  shows "s' = s \<or>
     (is_challenge rq \<and> (\<exists>buf e. Put (gen_store (h_generator h)) (re_store_now E) c
        \<lparr>Base64EncodedNonce = StdEncoding_EncodeToString buf, IssuedAt = re_now E\<rparr> s = (e, s'))) \<or>
     (is_login rq \<and> (\<exists>r ctx1. GetAndRemove (h_store h) (re_store_now E) ctx1 s = (r, s') \<and>
        request_key ctx1 = request_key c))"
proof (cases "route_of h rq")
  case None
  then show ?thesis using assms by (simp add: serve_def)
next
  case (Some r)
  show ?thesis
  proof (cases "s' = s")
    case False
    have "\<exists>ctx1. run_endpoint P J h E rq (rt_Endpoint r) ctx1 s = (resp, c, s')"
    proof (cases "rt_Session r")
      case True
      with assms Some have "EnsureSession P (h_config h) (re_session_rand E)
          (run_endpoint P J h E rq (rt_Endpoint r)) ctx s = (resp, c, s')" by (simp add: serve_def)
      then show ?thesis using False by (cases rule: EnsureSession_cases) auto
    qed (use assms Some in \<open>auto simp: serve_def\<close>)
    then show ?thesis
      using run_endpoint_effect [of P J h E rq "rt_Endpoint r" _ s resp c s'] route_of_endpoint [OF Some] by blast
  qed simp
qed

lemma serve_login:
  assumes "serve P J h E rq ctx s = (resp, c, s')" and "is_login rq" and "rq_Login rq = Inr req"
    and "fresh_ctx ctx" and "request_key c = Inr k"
  shows "\<exists>r ctx1. GetAndRemove (h_store h) (re_store_now E) ctx1 s = (r, s') \<and> request_key ctx1 = Inr k \<and>
     (\<forall>e. r = Inl e \<longrightarrow> resp = ErrorResponse e)"
proof -
  obtain r where r: "route_of h rq = Some r" "rt_Session r" "rt_Endpoint r = EpLogin"
    using route_of_login [OF assms(2)] by blast
  then have "EnsureSession P (h_config h) (re_session_rand E) (login P J h E (rq_Login rq)) ctx s = (resp, c, s')"
    using assms(1) by (simp add: serve_def)
  then show ?thesis
  proof (cases rule: EnsureSession_cases)
    case (refused e)
    then show ?thesis using fresh_no_key [OF assms(4)] assms(5) by simp
  next
    case (passed ctx1 sid)
    then show ?thesis using login_state [of P J h E req ctx1 s resp c s'] assms(3, 5) by auto
  qed
qed

lemma serve_login_JSON:
  assumes "serve P J h E rq ctx s = (JSONResponse p, c, s')" and "is_login rq"
  shows "\<exists>req. rq_Login rq = Inr req"
proof -
  obtain r where r: "route_of h rq = Some r" "rt_Session r" "rt_Endpoint r = EpLogin"
    using route_of_login [OF assms(2)] by blast
  then have "EnsureSession P (h_config h) (re_session_rand E) (login P J h E (rq_Login rq)) ctx s =
      (JSONResponse p, c, s')"
    using assms(1) by (simp add: serve_def)
  then show ?thesis by (cases rule: EnsureSession_cases) (auto simp: login_JSON)
qed

section \<open>Finalize\<close>

lemma finalize_result_Inr:
  "finalize_result P req = Inr resp \<longleftrightarrow>
     (\<exists>sig authDER authCert. StdEncoding_DecodeString (fq_Signature req) = Some sig \<and> sig \<noteq> [] \<and>
        StdEncoding_DecodeString (fq_AuthCertificate req) = Some authDER \<and>
        ParseCertificate P authDER = Inr authCert \<and>
        fr_Status resp = ''ok'' \<and> fr_Signature resp = StdEncoding_EncodeToString sig \<and>
        fr_AuthCertificate resp = StdEncoding_EncodeToString (Raw authCert) \<and>
        (fq_Digest req = [] \<and> fq_SigningCertificate req = [] \<and>
           \<not> fr_SignatureVerified resp \<and> \<not> fr_IdentityBound resp \<or>
         fq_Digest req \<noteq> [] \<and> fq_SigningCertificate req \<noteq> [] \<and> fr_SignatureVerified resp \<and>
           (\<exists>digest signDER signCert. StdEncoding_DecodeString (fq_Digest req) = Some digest \<and>
              StdEncoding_DecodeString (fq_SigningCertificate req) = Some signDER \<and>
              ParseCertificate P signDER = Inr signCert \<and>
              VerifySignatureValue P (Some signCert) (fq_SignatureAlgorithm req) digest sig = None \<and>
              CheckSameNaturalPerson (Some authCert) (Some signCert) = (fr_IdentityBound resp, None))))"
proof -
  have dec: "std_decode b t = Inr x \<longleftrightarrow> StdEncoding_DecodeString t = Some x" for b t x
    by (auto simp: std_decode_def split: option.splits)
  have fin: "Finalize P sig der = Inr (c, sd) \<longleftrightarrow> sig \<noteq> [] \<and> ParseCertificate P der = Inr c \<and> sd = sig" for sig der c sd
    by (auto simp: Finalize_def result_simps)
  have same: "(case CheckSameNaturalPerson a b of (_, Some e) \<Rightarrow> Inl e | (ch, None) \<Rightarrow> Inr (True, ch)) = Inr (v, i) \<longleftrightarrow>
      v \<and> CheckSameNaturalPerson a b = (i, None)" for a b v i
    by (cases "CheckSameNaturalPerson a b") (auto split: option.splits)
  have ver: "verified_finalize P req sig ac = Inr (v, i) \<longleftrightarrow>
      (fq_Digest req = [] \<and> fq_SigningCertificate req = [] \<and> \<not> v \<and> \<not> i \<or>
       fq_Digest req \<noteq> [] \<and> fq_SigningCertificate req \<noteq> [] \<and> v \<and>
         (\<exists>digest signDER signCert. StdEncoding_DecodeString (fq_Digest req) = Some digest \<and>
            StdEncoding_DecodeString (fq_SigningCertificate req) = Some signDER \<and>
            ParseCertificate P signDER = Inr signCert \<and>
            VerifySignatureValue P (Some signCert) (fq_SignatureAlgorithm req) digest sig = None \<and>
            CheckSameNaturalPerson (Some ac) (Some signCert) = (i, None)))" for sig ac v i
    by (auto simp: verified_finalize_def bindE_Inr checkE_Inr mapErr_Inr dec same ParseSigningCertificate_def)
  have resp: "\<lparr>fr_Status = a, fr_Signature = b, fr_AuthCertificate = c, fr_SignatureVerified = d, fr_IdentityBound = e\<rparr> = resp \<longleftrightarrow>
      fr_Status resp = a \<and> fr_Signature resp = b \<and> fr_AuthCertificate resp = c \<and>
      fr_SignatureVerified resp = d \<and> fr_IdentityBound resp = e" for a b c d e
    by (cases resp) auto
  show ?thesis
    by (simp add: finalize_result_def bindE_Inr dec fin ver resp split_paired_Ex) blast
qed

section \<open>Logins over any store\<close>

text \<open>
  A handler whose challenges and logins use one store that keeps the contract of
  \<open>nonce_store\<close>, for nonces that are base64 text.
\<close>

locale login_service = nonce_store "h_store h" request_key holds invar storable
  for h :: "'x Handler" and holds invar storable +
  assumes one_store: "gen_store (h_generator h) = h_store h"
    and storable_b64: "storable \<lparr>Base64EncodedNonce = StdEncoding_EncodeToString buf, IssuedAt = t\<rparr>"
begin

lemma serve_invar: "invar s \<Longrightarrow> serve P J h E rq ctx s = (resp, c, s') \<Longrightarrow> invar s'"
  using serve_effect [of P J h E rq ctx s resp c s'] put_invar get_invar one_store by metis

lemma serve_keeps_none:
  assumes "invar s" and "serve P J h E rq ctx s = (resp, c, s')" and "holds s k = None"
    and "is_challenge rq \<Longrightarrow> request_key c \<noteq> Inr k"
  shows "holds s' k = None"
proof (rule ccontr)
  assume "holds s' k \<noteq> None"
  then obtain m where m: "holds s' k = Some m" by blast
  from serve_effect [OF assms(2)] show False
  proof (elim disjE conjE exE)
    assume "s' = s"
    then show False using m assms(3) by simp
  next
    fix buf e
    assume "is_challenge rq" and put: "Put (gen_store (h_generator h)) (re_store_now E) c
        \<lparr>Base64EncodedNonce = StdEncoding_EncodeToString buf, IssuedAt = re_now E\<rparr> s = (e, s')"
    then show False
      using put_frame [OF assms(1) storable_b64 put [unfolded one_store] m] assms(3, 4) by simp
  next
    fix r ctx1
    assume "GetAndRemove (h_store h) (re_store_now E) ctx1 s = (r, s')"
    then show False using get_frame [OF assms(1) _ m] assms(3) by fastforce
  qed
qed

lemma run_keeps_none:
  "invar s \<Longrightarrow> run_service P J h rs s = (log, s') \<Longrightarrow> holds s k = None \<Longrightarrow>
     (\<forall>(rq, c, r) \<in> set log. is_challenge rq \<longrightarrow> request_key c \<noteq> Inr k) \<Longrightarrow> invar s' \<and> holds s' k = None"
proof (induction rs arbitrary: s log)
  case (Cons r rs)
  obtain E rq ctx resp c s1 log1 where r: "r = (E, rq, ctx)" and sv: "serve P J h E rq ctx s = (resp, c, s1)"
    and run: "run_service P J h rs s1 = (log1, s')" and log: "log = (rq, c, resp) # log1"
    using Cons.prems(2) by (rule run_service_ConsE)
  have "invar s1" using serve_invar [OF Cons.prems(1) sv] .
  moreover have "holds s1 k = None"
    using serve_keeps_none [OF Cons.prems(1) sv Cons.prems(3)] Cons.prems(4) log by auto
  ultimately show ?case using Cons.IH [OF _ run] Cons.prems(4) log by auto
qed simp

lemma login_takes:
  assumes "invar s" and "serve P J h E rq ctx s = (JSONResponse p, c, s')" and "is_login rq"
    and "fresh_ctx ctx" and "request_key c = Inr k"
  shows "holds s' k = None"
proof -
  obtain req where "rq_Login rq = Inr req" using serve_login_JSON [OF assms(2, 3)] by blast
  from serve_login [OF assms(2, 3) this assms(4, 5)]
  obtain r ctx1 where r: "GetAndRemove (h_store h) (re_store_now E) ctx1 s = (r, s')"
    "request_key ctx1 = Inr k" "\<forall>e. r \<noteq> Inl e" by auto
  then obtain n where "r = Inr n" by (cases r) auto
  then show ?thesis using get_takes [OF assms(1)] r by fastforce
qed

lemma login_needs_nonce:
  assumes "invar s" and "serve P J h E rq ctx s = (resp, c, s')" and "is_login rq"
    and "fresh_ctx ctx" and "request_key c = Inr k" and "holds s k = None"
  shows "resp \<noteq> JSONResponse p"
proof
  assume json: "resp = JSONResponse p"
  obtain req where "rq_Login rq = Inr req"
    using serve_login_JSON [OF assms(2) [unfolded json] assms(3)] by blast
  from serve_login [OF assms(2, 3) this assms(4, 5)] json
  obtain r ctx1 where r: "GetAndRemove (h_store h) (re_store_now E) ctx1 s = (r, s')"
    "request_key ctx1 = Inr k" "\<forall>e. r \<noteq> Inl e" by auto
  then obtain n where "r = Inr n" by (cases r) auto
  then show False using get_takes [OF assms(1)] r assms(6) by fastforce
qed

lemma no_replay:
  assumes "invar s" and "serve P J h E rq ctx s = (JSONResponse p, c, s1)" and "is_login rq"
    and "fresh_ctx ctx" and "request_key c = Inr k"
    and "run_service P J h between s1 = (log, s2)"
    and "\<forall>(rq, c, r) \<in> set log. is_challenge rq \<longrightarrow> request_key c \<noteq> Inr k"
    and "serve P J h E' rq' ctx' s2 = (resp, c', s3)" and "is_login rq'" and "fresh_ctx ctx'"
    and "request_key c' = Inr k"
  shows "resp \<noteq> JSONResponse p'"
proof -
  have "invar s1" using serve_invar [OF assms(1, 2)] .
  with run_keeps_none [OF _ assms(6) login_takes [OF assms(1-5)] assms(7)]
  have "invar s2" "holds s2 k = None" by auto
  then show ?thesis using login_needs_nonce [OF _ assms(8-11)] by blast
qed

end

locale reliable_login_service = login_service + reliable_nonce_store "h_store h" request_key
begin

text \<open>A login attempt with a well-formed body uses the nonce up, whatever its outcome.\<close>

lemma attempt_takes:
  assumes "invar s" and "serve P J h E rq ctx s = (resp, c, s')" and "is_login rq" and "rq_Login rq = Inr req"
    and "fresh_ctx ctx" and "request_key c = Inr k"
  shows "holds s' k = None"
proof -
  from serve_login [OF assms(2-6)]
  obtain r ctx1 where r: "GetAndRemove (h_store h) (re_store_now E) ctx1 s = (r, s')" "request_key ctx1 = Inr k"
    by blast
  show ?thesis
  proof (cases r)
    case (Inr n)
    then show ?thesis using get_takes [OF assms(1)] r by fastforce
  next
    case (Inl e)
    then have "holds s k = None"
      using get_hit [OF assms(1) r(2), of _ "re_store_now E"] r(1) by (cases "holds s k") auto
    then show ?thesis using get_frame [OF assms(1) r(1)] by (cases "holds s' k") auto
  qed
qed

lemma attempt_misses:
  assumes "invar s" and "serve P J h E rq ctx s = (resp, c, s')" and "is_login rq" and "rq_Login rq = Inr req"
    and "fresh_ctx ctx" and "request_key c = Inr k" and "holds s k = None"
  shows "resp = ErrorResponse (Typed ErrChallengeNonceNotFound)"
proof -
  from serve_login [OF assms(2-6)]
  obtain r ctx1 where r: "GetAndRemove (h_store h) (re_store_now E) ctx1 s = (r, s')" "request_key ctx1 = Inr k"
    "\<forall>e. r = Inl e \<longrightarrow> resp = ErrorResponse e" by blast
  then show ?thesis using get_miss [OF assms(1) r(2) assms(7), of "re_store_now E"] by simp
qed

lemma attempt_then_not_found:
  assumes "invar s" and "serve P J h E rq ctx s = (resp, c, s1)" and "is_login rq" and "rq_Login rq = Inr req"
    and "fresh_ctx ctx" and "request_key c = Inr k"
    and "run_service P J h between s1 = (log, s2)"
    and "\<forall>(rq, c, r) \<in> set log. is_challenge rq \<longrightarrow> request_key c \<noteq> Inr k"
    and "serve P J h E' rq' ctx' s2 = (resp', c', s3)" and "is_login rq'" and "rq_Login rq' = Inr req'"
    and "fresh_ctx ctx'" and "request_key c' = Inr k"
  shows "resp' = ErrorResponse (Typed ErrChallengeNonceNotFound)"
proof -
  have "invar s1" using serve_invar [OF assms(1, 2)] .
  with run_keeps_none [OF _ assms(7) attempt_takes [OF assms(1-6)] assms(8)]
  have "invar s2" "holds s2 k = None" by auto
  then show ?thesis using attempt_misses [OF _ assms(9-13)] by blast
qed

end

text \<open>
  Over a lasting store the nonce of a session outlives what other sessions do, so a challenge that is
  answered in time logs in.
\<close>

locale lasting_login_service = login_service h holds invar storable +
    lasting_nonce_store "h_store h" request_key holds invar storable lasts found
  for h :: "'x Handler" and holds invar storable lasts found
begin

lemma serve_lasts:
  assumes "invar s" and "serve P J h E rq ctx s = (resp, c, s')"
    and "is_challenge rq \<or> is_login rq \<Longrightarrow> request_key c \<noteq> Inr k"
    and "holds s k = Some n" and "lasts s k (re_store_now E)"
  shows "holds s' k = Some n \<and> lasts s' k = lasts s k \<and> found s' k = found s k"
  using serve_effect [OF assms(2)]
proof (elim disjE conjE exE)
  fix buf e
  assume "is_challenge rq" and "Put (gen_store (h_generator h)) (re_store_now E) c
    \<lparr>Base64EncodedNonce = StdEncoding_EncodeToString buf, IssuedAt = re_now E\<rparr> s = (e, s')"
  then show ?thesis using put_other [OF assms(1) _ assms(3) assms(4, 5)] one_store by metis
next
  fix r ctx1
  assume "is_login rq" and "GetAndRemove (h_store h) (re_store_now E) ctx1 s = (r, s')"
    and "request_key ctx1 = request_key c"
  then show ?thesis using get_other [OF assms(1) _ _ assms(4, 5)] assms(3) by metis
qed (use assms in auto)

lemma run_lasts:
  "invar s \<Longrightarrow> run_service P J h rs s = (log, s') \<Longrightarrow>
     (\<forall>(rq, c, r) \<in> set log. is_challenge rq \<or> is_login rq \<longrightarrow> request_key c \<noteq> Inr k) \<Longrightarrow>
     holds s k = Some n \<Longrightarrow> (\<forall>(E, rq, ctx) \<in> set rs. lasts s k (re_store_now E)) \<Longrightarrow>
     invar s' \<and> holds s' k = Some n \<and> found s' k = found s k"
proof (induction rs arbitrary: s log)
  case (Cons r rs)
  obtain E rq ctx resp c s1 log1 where r: "r = (E, rq, ctx)" and sv: "serve P J h E rq ctx s = (resp, c, s1)"
    and run: "run_service P J h rs s1 = (log1, s')" and log: "log = (rq, c, resp) # log1"
    using Cons.prems(2) by (rule run_service_ConsE)
  have "holds s1 k = Some n \<and> lasts s1 k = lasts s k \<and> found s1 k = found s k"
    by (rule serve_lasts [OF Cons.prems(1) sv _ Cons.prems(4)]) (use Cons.prems(3, 5) log r in auto)
  then show ?case using Cons.IH [OF serve_invar [OF Cons.prems(1) sv] run] Cons.prems(3, 5) log by auto
qed simp

lemma challenge_login:
  assumes "invar s" and "challenge h E ctx s = (JSONResponse (ChallengeResponse n), c, s1)" and "request_key ctx = Inr k"
    and "run_service P J h between s1 = (log, s2)"
    and "\<forall>(rq, c, r) \<in> set log. is_challenge rq \<or> is_login rq \<longrightarrow> request_key c \<noteq> Inr k"
    and "\<And>m. IssuedAt m = re_now E \<Longrightarrow> Put (h_store h) (re_store_now E) ctx m s = (None, s1) \<Longrightarrow> holds s1 k = Some m \<Longrightarrow>
      (\<forall>(Eb, rq, c) \<in> set between. lasts s1 k (re_store_now Eb)) \<and> found s1 k (re_store_now E')"
    and "request_key ctx' = Inr k" and "time_sub (re_now E') (re_now E) \<le> cfg_NonceTTL (h_config h)"
    and "Validate P (h_validator h) (re_run E') (Some (lr_AuthToken req)) n = Inr cert"
    and "establish P J h E' cert ctx' = (JSONResponse p, c')"
  shows "\<exists>s3. login P J h E' (Inr req) ctx' s2 = (JSONResponse p, c', s3)"
proof -
  obtain nonce where gen: "GenerateAndStoreNonce (h_generator h) (re_read E) (re_now E) (re_store_now E) ctx s = (Inr nonce, s1)"
    and n: "n = Base64EncodedNonce nonce"
    using assms(2) by (auto simp: challenge_def split: prod.splits sum.splits)
  from GenerateAndStoreNonce_ok [OF gen] one_store obtain buf
    where put: "Put (h_store h) (re_store_now E) ctx nonce s = (None, s1)" and t: "IssuedAt nonce = re_now E"
    and "nonce = \<lparr>Base64EncodedNonce = StdEncoding_EncodeToString buf, IssuedAt = re_now E\<rparr>"
    by auto
  then have held: "holds s1 k = Some nonce" using put_stores [OF assms(1) _ put] storable_b64 assms(3) by auto
  have late: "\<forall>(Eb, rq, c) \<in> set between. lasts s1 k (re_store_now Eb)" "found s1 k (re_store_now E')"
    using assms(6) [OF t put held] by blast+
  have "invar s1" using put_invar [OF assms(1) put] .
  from run_lasts [OF this assms(4, 5) held late(1)] late(2)
  have "invar s2" "holds s2 k = Some nonce" "found s2 k (re_store_now E')" by auto
  then obtain s3 where "GetAndRemove (h_store h) (re_store_now E') ctx' s2 = (Inr nonce, s3)"
    using get_found [of s2 ctx' k nonce "re_store_now E'"] assms(7) by (metis prod.exhaust_sel)
  moreover have "\<not> Expired nonce (re_now E') (cfg_NonceTTL (h_config h))"
    using assms(8) t by (simp add: Expired_def)
  ultimately have "login P J h E' (Inr req) ctx' s2 = (JSONResponse p, c', s3)"
    unfolding login_JSON using assms(9, 10) n by auto
  then show ?thesis by blast
qed

end

text \<open>The default deployment: challenges and logins use the in-process store.\<close>

definition in_process :: "'x Handler \<Rightarrow> 'x Handler" where
  "in_process h = h\<lparr>h_store := session_store, h_generator := (h_generator h)\<lparr>gen_store := session_store\<rparr>\<rparr>"

lemma in_process_id:
  "h_store h = session_store \<Longrightarrow> gen_store (h_generator h) = session_store \<Longrightarrow> in_process h = h"
  by (simp add: in_process_def)

interpretation svc: reliable_login_service "in_process h" "\<lambda>s. entries (be_memory s)"
  "\<lambda>s. sessionKey (be_memory s) = request_key" "\<lambda>_. True"
  for h :: "'x Handler"
proof -
  have "reliable_nonce_store (session_store :: (http_ctx, 'x backends) ChallengeNonceStore) request_key
      (\<lambda>s. entries (be_memory s)) (\<lambda>s. sessionKey (be_memory s) = request_key) (\<lambda>_. True)"
    unfolding session_store_def by (rule ses.whole.reliable_nonce_store_axioms)
  then show "reliable_login_service (in_process h) (\<lambda>s. entries (be_memory s))
      (\<lambda>s. sessionKey (be_memory s) = request_key) (\<lambda>_. True)"
    by (simp add: reliable_login_service_def login_service_def login_service_axioms_def in_process_def
        reliable_nonce_store_def)
qed

interpretation svc_lasting: lasting_login_service "in_process h" "\<lambda>s. entries (be_memory s)"
  "\<lambda>s. sessionKey (be_memory s) = request_key" "\<lambda>_. True" "\<lambda>s. mem_lasts (be_memory s)" "\<lambda>s k t. True"
  for h :: "'x Handler"
proof -
  have "lasting_nonce_store (session_store :: (http_ctx, 'x backends) ChallengeNonceStore) request_key
      (\<lambda>s. entries (be_memory s)) (\<lambda>s. sessionKey (be_memory s) = request_key) (\<lambda>_. True)
      (\<lambda>s. mem_lasts (be_memory s)) (\<lambda>s k t. True)"
    unfolding session_store_def by (rule ses_lasting.whole.lasting_nonce_store_axioms)
  then show "lasting_login_service (in_process h) (\<lambda>s. entries (be_memory s))
      (\<lambda>s. sessionKey (be_memory s) = request_key) (\<lambda>_. True) (\<lambda>s. mem_lasts (be_memory s)) (\<lambda>s k t. True)"
    using svc.login_service_axioms [of h] by (simp add: lasting_login_service_def in_process_def)
qed

text \<open>The clustered deployment: challenges and logins use the Redis store.\<close>

locale redis_login_service = redis_nonce_store S Z content
  for S :: "(http_ctx, 'r) Store" and Z content +
  fixes h :: "'r Handler"
  assumes session_keys: "rs_sessionKey S = request_key"
    and redis_backed: "h_store h = external_store (redis_store Z S)" "gen_store (h_generator h) = h_store h"

sublocale redis_login_service \<subseteq> ext: store_part "redis_store Z S" "rs_sessionKey S" "redis_holds S content"
  "\<lambda>r. True" utf8_nonce be_external "\<lambda>x (s :: 'r backends). s\<lparr>be_external := x\<rparr>"
  by unfold_locales simp

lemma b64_nonce_utf8: "utf8_nonce \<lparr>Base64EncodedNonce = StdEncoding_EncodeToString buf, IssuedAt = t\<rparr>"
proof -
  have "list_all ascii_char std_alphabet" "ascii_char CHR ''=''" by code_simp+
  then have "is_ascii (StdEncoding_EncodeToString buf)"
    using std64.enc_chars [of buf] by (auto simp: is_ascii_def list_all_iff)
  then show ?thesis by (simp add: utf8_nonce_def valid_utf8_ascii)
qed

sublocale redis_login_service \<subseteq> logins: login_service h "\<lambda>s. redis_holds S content (be_external s)"
  "\<lambda>s. True" utf8_nonce
proof -
  have "nonce_store (h_store h) request_key (\<lambda>s. redis_holds S content (be_external s)) (\<lambda>s. True) utf8_nonce"
    using ext.whole.nonce_store_axioms by (simp add: redis_backed external_store_def session_keys)
  then show "login_service h (\<lambda>s. redis_holds S content (be_external s)) (\<lambda>s. True) utf8_nonce"
    by (simp add: login_service_def login_service_axioms_def redis_backed(2) b64_nonce_utf8)
qed

context redis_login_service
begin

lemma redis_no_replay:
  assumes "serve P Q h E rq ctx s = (JSONResponse p, c, s1)" and "is_login rq"
    and "fresh_ctx ctx" and "request_key c = Inr k"
    and "run_service P Q h between s1 = (log, s2)"
    and "\<forall>(rq, c, r) \<in> set log. is_challenge rq \<longrightarrow> request_key c \<noteq> Inr k"
    and "serve P Q h E' rq' ctx' s2 = (resp, c', s3)" and "is_login rq'" and "fresh_ctx ctx'"
    and "request_key c' = Inr k"
  shows "resp \<noteq> JSONResponse p'"
  using logins.no_replay [OF TrueI assms] .

end

locale lasting_redis_service = redis_login_service S Z content h + lasting_redis_store S Z content expiry
  for S :: "(http_ctx, 'r) Store" and Z content and h :: "'r Handler" and expiry

sublocale lasting_redis_service \<subseteq> ext_lasting: lasting_store_part "redis_store Z S" "rs_sessionKey S"
  "redis_holds S content" "\<lambda>r. True" utf8_nonce be_external "\<lambda>x (s :: 'r backends). s\<lparr>be_external := x\<rparr>"
  "redis_lasts S expiry" "redis_lasts S expiry"
  by unfold_locales

sublocale lasting_redis_service \<subseteq> lasting_logins: lasting_login_service h "\<lambda>s. redis_holds S content (be_external s)"
  "\<lambda>s. True" utf8_nonce "\<lambda>s. redis_lasts S expiry (be_external s)" "\<lambda>s. redis_lasts S expiry (be_external s)"
proof -
  have "lasting_nonce_store (h_store h) request_key (\<lambda>s. redis_holds S content (be_external s)) (\<lambda>s. True) utf8_nonce
      (\<lambda>s. redis_lasts S expiry (be_external s)) (\<lambda>s. redis_lasts S expiry (be_external s))"
    using ext_lasting.whole.lasting_nonce_store_axioms by (simp add: redis_backed external_store_def session_keys)
  then show "lasting_login_service h (\<lambda>s. redis_holds S content (be_external s)) (\<lambda>s. True) utf8_nonce
      (\<lambda>s. redis_lasts S expiry (be_external s)) (\<lambda>s. redis_lasts S expiry (be_external s))"
    using logins.login_service_axioms by (simp add: lasting_login_service_def)
qed

context lasting_redis_service
begin

lemma axioms_lasting:
  "lasting_login_service h (\<lambda>s. redis_holds S content (be_external s)) (\<lambda>s. True) utf8_nonce
     (\<lambda>s. redis_lasts S expiry (be_external s)) (\<lambda>s. redis_lasts S expiry (be_external s))"
  by (rule lasting_logins.lasting_login_service_axioms)

end

section \<open>A sample service\<close>

definition sample_handler :: "(http_ctx, 'x backends) ChallengeNonceStore \<Rightarrow> 'x Handler" where
  "sample_handler st = handler_base.extend
     \<lparr>h_config = sample_config, h_store = st, h_runtimeTrust = False,
      h_ocspTransport = None, h_assertionIssuer = Some sample_issuer,
      h_publishedKeys = Some (Issuer_KeySet sample_issuer)\<rparr>
     (Handler.fields \<lparr>snap = newTrustSnapshot [sample_cert [2]]\<rparr> sample_validator
        \<lparr>hashPreference = [''SHA-256''], hasTrust = True, sg_ocspChecker = None, acceptedPolicies = []\<rparr>
        \<lparr>gen_store = st, gen_nonceSize = 32, gen_random = (\<lambda>_. sample_rand)\<rparr>)"

lemma sample_handler_fields [simp]:
  "h_config (sample_handler st) = sample_config" "h_store (sample_handler st) = st"
  "h_assertionIssuer (sample_handler st) = Some sample_issuer"
  "h_validator (sample_handler st) = sample_validator" "h_publishedKeys (sample_handler st) = Some (Issuer_KeySet sample_issuer)"
  "gen_store (h_generator (sample_handler st)) = st"
  by (simp_all add: sample_handler_def handler_base.defs Handler.defs)

definition sample_env :: request_env where
  "sample_env = \<lparr>re_run = sample_run,
     re_sign = \<lparr>sg_now = unix_time 60, sg_verify_snap = newTrustSnapshot [sample_cert [2]],
       sg_issuer_snap = newTrustSnapshot [sample_cert [2]], sg_ocsp_now = unix_time 60, sg_rand = sample_rand\<rparr>,
     re_world = sample_world (unix_time 60), re_now = unix_time 60, re_store_now = unix_time 60,
     re_struct = sample_struct, re_order = [], re_session_rand = sample_rand, re_read = 0\<rparr>"

definition sample_login :: http_request_in where
  "sample_login = \<lparr>rq_Method = ''POST'', rq_Path = ''/auth/login'',
     rq_Login = Inr \<lparr>lr_AuthToken = sample_token ''AAAA''\<rparr>,
     rq_Validate = Inl (ErrorString ''json''), rq_SigningCertificate = Inl (ErrorString ''json''),
     rq_Finalize = Inl (ErrorString ''json'')\<rparr>"

definition sample_state :: "'x \<Rightarrow> 'x backends" where
  "sample_state x = \<lparr>be_memory = (NewSessionStore sample_config)\<lparr>entries := [''AAAA'' \<mapsto> sample_nonce]\<rparr>,
     be_external = x\<rparr>"

definition sample_session :: http_ctx where
  "sample_session = sample_ctx\<lparr>ctx_UserValue := [sessionContextKey \<mapsto> ''AAAA'']\<rparr>"

lemma sample_sid: "validSessionID ''AAAA''"
proof -
  have "RawURLEncoding_EncodeToString [0, 0, 0] = ''AAAA''"
    by (simp add: RawURLEncoding_EncodeToString_def url_alphabet_def)
  then show ?thesis using url64.dec_enc [of "[0, 0, 0]"] by (simp add: validSessionID_def)
qed

lemma sample_key: "request_key sample_session = Inr ''AAAA''" "fresh_ctx sample_ctx"
  by (simp_all add: sample_session_def request_key_def SessionKey_def fresh_ctx_def sample_ctx_def)

lemma sample_serve:
  "serve P J (sample_handler st) E sample_login sample_ctx s =
     login P J (sample_handler st) E (rq_Login sample_login) sample_session s"
  by (simp add: serve_def route_of_def Bind_def sample_login_def EnsureSession_def sample_config_def
      sample_sid sample_ctx_def sample_session_def Let_def)

lemma sample_establish:
  "\<exists>p. establish sample_ocsp sample_jose (sample_handler st) sample_env (sample_cert [1]) ctx =
     (JSONResponse p, ctx\<lparr>ctx_User := Some (user_claims sample_unicode (subjectFromCertificate (sample_cert [1])))\<rparr>)"
  by (simp add: establish_def Issue_def assertion_subject_def subjectFromCertificate_def SubjectIDCode_def
      sample_cert_def sample_issuer_def randomJTI_def sample_env_def sample_world_def sign_def
      sample_signing_key_def fill_half_def p256ByteLen_def marshal_header_def marshal_claims_def Let_def)

lemma sample_login_ok:
  assumes "GetAndRemove st (unix_time 60) sample_session s = (Inr sample_nonce, s')"
  shows "\<exists>p c. serve sample_ocsp sample_jose (sample_handler st) sample_env sample_login sample_ctx s =
     (JSONResponse p, c, s') \<and> request_key c = Inr ''AAAA''"
proof -
  obtain p where p: "establish sample_ocsp sample_jose (sample_handler st) sample_env (sample_cert [1]) sample_session =
      (JSONResponse p, sample_session\<lparr>ctx_User := Some (user_claims sample_unicode (subjectFromCertificate (sample_cert [1])))\<rparr>)"
    using sample_establish by blast
  have "\<not> Expired sample_nonce (unix_time 60) (5 * minute)"
    by (simp add: Expired_def sample_nonce_def time_sub_def unix_time_small second_def minute_def
        max_int64_def min_int64_def)
  moreover have "Validate sample_ocsp sample_validator sample_run (Some (sample_token ''AAAA'')) ''AAAA'' =
      Inr (sample_cert [1])" by (rule sample_Validate) simp
  ultimately have "login sample_ocsp sample_jose (sample_handler st) sample_env (rq_Login sample_login) sample_session s =
      (JSONResponse p, sample_session\<lparr>ctx_User := Some (user_claims sample_unicode (subjectFromCertificate (sample_cert [1])))\<rparr>, s')"
    using assms p
    by (simp add: login_def sample_login_def sample_env_def sample_config_def sample_nonce_def)
  then show ?thesis
    using sample_key(1) by (simp add: sample_serve request_key_def SessionKey_def)
qed

lemma sample_take:
  "\<exists>s1. GetAndRemove session_store (unix_time 60) sample_session (sample_state x) = (Inr sample_nonce, s1)"
  using sample_key(1)
  by (simp add: sample_state_def NewSessionStore_def NewInMemoryStore_def session_store_def lift_store_def
      memory_store_def InMemoryStore_GetAndRemove_def)

lemma sample_first_login:
  "\<exists>p c s1. serve sample_ocsp sample_jose (sample_handler session_store) sample_env sample_login sample_ctx (sample_state x) =
     (JSONResponse p, c, s1) \<and> request_key c = Inr ''AAAA''"
  using sample_take [of x] sample_login_ok by blast

definition sample_cluster :: "(http_ctx, fakeClient) Store" where
  "sample_cluster = \<lparr>client = newFakeClient, rs_sessionKey = request_key, rs_ttl = 5 * minute,
     rs_prefix = defaultKeyPrefix\<rparr>"

interpretation cluster: redis_login_service sample_cluster sample_zone "\<lambda>m. m"
  "sample_handler (external_store (redis_store sample_zone sample_cluster))"
  by unfold_locales (simp_all add: sample_cluster_def fake_contract sample_whole_minutes)

section \<open>Properties\<close>


text \<open>C4: No second login on one challenge, in-process store: after any login attempt with a well-formed body
  in a session, successful or not, and after any further requests that issue no challenge to that
  session, the next login attempt in the session is answered with nonce not found.\<close>

theorem login_attempt_burns_nonce:
  assumes "h_store h = session_store" and "gen_store (h_generator h) = session_store"
    and "sessionKey (be_memory s) = request_key"
    and "serve P J h E rq ctx s = (resp, c, s1)" and "is_login rq" and "rq_Login rq = Inr req"
    and "fresh_ctx ctx" and "request_key c = Inr k"
    and "run_service P J h between s1 = (log, s2)"
    and "\<forall>(rq, c, r) \<in> set log. is_challenge rq \<longrightarrow> request_key c \<noteq> Inr k"
    and "serve P J h E' rq' ctx' s2 = (resp', c', s3)" and "is_login rq'" and "rq_Login rq' = Inr req'"
    and "fresh_ctx ctx'" and "request_key c' = Inr k"
  shows "resp' = ErrorResponse (Typed ErrChallengeNonceNotFound)"
  using svc.attempt_then_not_found [of s P J h, unfolded in_process_id [OF assms(1, 2)], OF assms(3-15)] .

theorem login_attempt_burns_nonce_witness:
  "\<exists>p c s1 c' s2.
     serve sample_ocsp sample_jose (sample_handler session_store) sample_env sample_login sample_ctx (sample_state ()) =
       (JSONResponse p, c, s1) \<and>
     serve sample_ocsp sample_jose (sample_handler session_store) sample_env sample_login sample_ctx s1 =
       (ErrorResponse (Typed ErrChallengeNonceNotFound), c', s2)"
proof -
  let ?h = "sample_handler session_store :: unit Handler"
  have login: "is_login sample_login" "rq_Login sample_login = Inr \<lparr>lr_AuthToken = sample_token ''AAAA''\<rparr>"
    by (simp_all add: is_login_def sample_login_def)
  have key: "sessionKey (be_memory (sample_state ())) = request_key"
    by (simp add: sample_state_def NewSessionStore_def NewInMemoryStore_def)
  obtain p c s1 where one:
    "serve sample_ocsp sample_jose ?h sample_env sample_login sample_ctx (sample_state ()) = (JSONResponse p, c, s1)"
    "request_key c = Inr ''AAAA''" using sample_first_login [of "()"] by blast
  obtain resp c' s2 where two:
    "serve sample_ocsp sample_jose ?h sample_env sample_login sample_ctx s1 = (resp, c', s2)" by (metis prod_cases3)
  then have "request_key c' = Inr ''AAAA''"
    unfolding sample_serve login(2) using login_state sample_key(1) by metis
  from login_attempt_burns_nonce [OF _ _ key one(1) login sample_key(2) one(2) _ _ two login sample_key(2) this, of "[]" "[]"]
  show ?thesis using one(1) two by simp
qed

text \<open>C5: No second login on one challenge, Redis store: whatever the server does within its contract, after a
  successful login in a session and any further requests that issue no challenge to that session, no
  other login in the session succeeds.\<close>

theorem login_no_replay_redis:
  assumes "redis_contract (client S) content" and "whole_minutes Z" and "rs_sessionKey S = request_key"
    and "h_store h = external_store (redis_store Z S)" and "gen_store (h_generator h) = h_store h"
    and "serve P J h E rq ctx s = (JSONResponse p, c, s1)" and "is_login rq"
    and "fresh_ctx ctx" and "request_key c = Inr k"
    and "run_service P J h between s1 = (log, s2)"
    and "\<forall>(rq, c, r) \<in> set log. is_challenge rq \<longrightarrow> request_key c \<noteq> Inr k"
    and "serve P J h E' rq' ctx' s2 = (resp, c', s3)" and "is_login rq'" and "fresh_ctx ctx'"
    and "request_key c' = Inr k"
  shows "resp \<noteq> JSONResponse p'"
proof -
  have "redis_login_service S Z content h" using assms(1-5) by unfold_locales
  from redis_login_service.redis_no_replay [OF this assms(6-15)] show ?thesis .
qed

theorem login_no_replay_redis_witness:
  "\<exists>p c s1 resp c' s2.
     serve sample_ocsp sample_jose (sample_handler (external_store (redis_store sample_zone sample_cluster)))
       sample_env sample_login sample_ctx (sample_state [''webeid:nonce:AAAA'' \<mapsto> sample_stored]) =
       (JSONResponse p, c, s1) \<and>
     serve sample_ocsp sample_jose (sample_handler (external_store (redis_store sample_zone sample_cluster)))
       sample_env sample_login sample_ctx s1 = (resp, c', s2) \<and> resp \<noteq> JSONResponse p"
proof -
  let ?st = "external_store (redis_store sample_zone sample_cluster)"
  let ?s = "sample_state [''webeid:nonce:AAAA'' \<mapsto> sample_stored]"
  have login: "is_login sample_login" "rq_Login sample_login = Inr \<lparr>lr_AuthToken = sample_token ''AAAA''\<rparr>"
    by (simp_all add: is_login_def sample_login_def)
  have un: "unmarshal_nonce sample_stored = Inr \<lparr>sn_Nonce = ''AAAA'', sn_IssuedAt = 0\<rparr>"
    using stored_round_trip [OF sample_whole_minutes sample_nonce_utf8] sample_stored_eq
    by (simp add: sample_nonce_def)
  obtain s1 where "GetAndRemove ?st (unix_time 60) sample_session ?s = (Inr sample_nonce, s1)"
    using un sample_key(1)
    by (simp add: external_store_def lift_store_def redis_store_def Store_GetAndRemove_def sample_cluster_def
        newFakeClient_def fake_GetDel_def sample_state_def sample_nonce_def defaultKeyPrefix_def)
  from sample_login_ok [OF this] obtain p c where one:
    "serve sample_ocsp sample_jose (sample_handler ?st) sample_env sample_login sample_ctx ?s = (JSONResponse p, c, s1)"
    "request_key c = Inr ''AAAA''" by blast
  obtain resp c' s2 where two:
    "serve sample_ocsp sample_jose (sample_handler ?st) sample_env sample_login sample_ctx s1 = (resp, c', s2)"
    by (metis prod_cases3)
  then have "request_key c' = Inr ''AAAA''"
    unfolding sample_serve login(2) using login_state sample_key(1) by metis
  from login_no_replay_redis [OF cluster.contract cluster.round_trip cluster.session_keys _ _ one(1) login(1)
      sample_key(2) one(2) _ _ two login(1) sample_key(2) this, of "[]" "[]" p]
  show ?thesis using one(1) two by auto
qed


text \<open>What a validator of struct tags makes sure of, for each request type.\<close>

theorem request_Validate:
  assumes "tag_contract V is_url"
  shows "ValidateRequest_Validate V vr = None \<Longrightarrow> vr_Nonce vr \<noteq> []"
    and "SigningCertificateRequest_Validate V sc = None \<longleftrightarrow>
      sc_Certificate sc \<noteq> [] \<and> sc_SupportedSignatureAlgorithms sc \<noteq> []"
    and "FinalizeRequest_Validate V fq = None \<Longrightarrow> fq_Signature fq \<noteq> [] \<and> fq_AuthCertificate fq \<noteq> []"
    and "\<not> zero_token (lr_AuthToken lr) \<Longrightarrow> LoginRequest_Validate V lr = None"
proof -
  have sound: "V fs = None \<Longrightarrow> struct_ok is_url fs" for fs using assms by (simp add: tag_contract_def)
  show "ValidateRequest_Validate V vr = None \<Longrightarrow> vr_Nonce vr \<noteq> []"
    unfolding ValidateRequest_Validate_def by (drule sound) (simp add: struct_ok_def)
  show "FinalizeRequest_Validate V fq = None \<Longrightarrow> fq_Signature fq \<noteq> [] \<and> fq_AuthCertificate fq \<noteq> []"
    unfolding FinalizeRequest_Validate_def by (drule sound) (simp add: struct_ok_def)
  show "SigningCertificateRequest_Validate V sc = None \<longleftrightarrow>
      sc_Certificate sc \<noteq> [] \<and> sc_SupportedSignatureAlgorithms sc \<noteq> []"
    unfolding SigningCertificateRequest_Validate_def
    by (subst tag_contractD [OF assms]) (auto simp: struct_ok_def Suc_le_eq)
  show "\<not> zero_token (lr_AuthToken lr) \<Longrightarrow> LoginRequest_Validate V lr = None"
    unfolding LoginRequest_Validate_def by (subst tag_contractD [OF assms]) (auto simp: struct_ok_def)
qed

text \<open>Apart from challenge and login no endpoint touches the nonce store; stateless validation in
  particular accepts and reports exactly what the validator does for the nonce in the request.\<close>

theorem validate_iff:
  "(validate P J h E body ctx s = (JSONResponse p, c, s') \<longleftrightarrow>
      s' = s \<and> (\<exists>req cert. body = Inr req \<and> ValidateRequest_Validate (re_struct E) req = None \<and>
        Validate P (h_validator h) (re_run E) (Some (vr_AuthToken req)) (vr_Nonce req) = Inr cert \<and>
        establish P J h E cert ctx = (JSONResponse p, c))) \<and>
   (\<nexists>rq resp. serve P J h E rq ctx s = (resp, c, s') \<and> s' \<noteq> s \<and> \<not> is_challenge rq \<and> \<not> is_login rq)"
  using serve_effect [of P J h E _ ctx s _ c s']
  by (auto simp: validate_def split: sum.splits option.splits prod.splits)

end
