(* ===== verification/Programs.thy ===== *)
theory Programs
  imports Routes
begin

text \<open>
  Handlers as sequences of accesses to what requests share. A handler of \<^verbatim>\<open>azugo/routes.go\<close> is
  local computation and accesses to the nonce store (one operation under its mutex, or one Redis
  command) and to the trust snapshot (one load of an atomic pointer). \<open>prog\<close> is such a sequence;
  the programs below split the endpoints, \<^verbatim>\<open>Validate\<close> and \<^verbatim>\<open>PrepareSigning\<close> at their accesses.
  Run alone a program does what the handler of \<^verbatim>\<open>Routes\<close> does (\<open>serve_prog_run\<close>), with at most one
  access to the store and three in all.
\<close>

section \<open>Programs over the shared state\<close>

datatype 'a prog =
    finished: Done (result_of: 'a)
  | TakeNonce time http_ctx "ChallengeNonce result \<Rightarrow> 'a prog"
  | PutNonce time http_ctx ChallengeNonce "goerror option \<Rightarrow> 'a prog"
  | LoadTrust "trustSnapshot \<Rightarrow> 'a prog"

primrec bindP :: "'a prog \<Rightarrow> ('a \<Rightarrow> 'b prog) \<Rightarrow> 'b prog" where
  "bindP (Done x) k = k x"
| "bindP (TakeNonce t c f) k = TakeNonce t c (\<lambda>r. bindP (f r) k)"
| "bindP (PutNonce t c n f) k = PutNonce t c n (\<lambda>e. bindP (f e) k)"
| "bindP (LoadTrust f) k = LoadTrust (\<lambda>sn. bindP (f sn) k)"

text \<open>The error returns inside a program.\<close>

fun tryP :: "'a result \<Rightarrow> ('a \<Rightarrow> 'b result prog) \<Rightarrow> 'b result prog" where
  "tryP (Inl err) k = Done (Inl err)"
| "tryP (Inr x) k = k x"

fun guardP :: "goerror option \<Rightarrow> 'b result prog \<Rightarrow> 'b result prog" where
  "guardP (Some err) k = Done (Inl err)"
| "guardP None k = k"

section \<open>The validator and the signer\<close>

definition Verify_prog ::
  "'a platform_scheme \<Rightarrow> x509_cert \<Rightarrow> time \<Rightarrow> ext_key_usage list \<Rightarrow> goerror option prog" where
  "Verify_prog P cert now keyUsages = LoadTrust (\<lambda>sn. Done (TrustStore_Verify P sn cert now keyUsages))"

definition IssuerOf_prog :: "'a platform_scheme \<Rightarrow> x509_cert \<Rightarrow> x509_cert option prog" where
  "IssuerOf_prog P cert = LoadTrust (\<lambda>sn. Done (IssuerOf P sn cert))"

definition checkRevocation_prog ::
  "'a ocsp_platform_scheme \<Rightarrow> authTokenValidator \<Rightarrow> validate_run \<Rightarrow> x509_cert \<Rightarrow> goerror option prog" where
  "checkRevocation_prog P v R cert =
     (if ocspEnabled v then
        bindP (IssuerOf_prog P cert) (\<lambda>issuer.
          Done (case issuer of
             None \<Rightarrow> Some (Typed ErrCertificateNotTrusted)
           | Some ca \<Rightarrow>
               (case ocspChecker v of
                  None \<Rightarrow> Some errNilClient
                | Some c \<Rightarrow> Check P c (run_rand R) (run_ocsp_now R) cert ca)))
      else Done None)"

definition Validate_prog ::
  "'a ocsp_platform_scheme \<Rightarrow> authTokenValidator \<Rightarrow> validate_run \<Rightarrow> AuthToken option \<Rightarrow> string \<Rightarrow>
   x509_cert result prog" where
  "Validate_prog P v R token currentChallengeNonce =
     (case token of
        None \<Rightarrow> Done (Inl (wrapped ErrTokenParse errEmptyToken))
      | Some t \<Rightarrow>
          if currentChallengeNonce = [] then Done (Inl (Typed ErrChallengeNonceNotFound))
          else tryP (decodeCertificate t) (\<lambda>der.
            tryP (mapErr (wrapped ErrTokenParse) (ParseCertificate P der)) (\<lambda>cert.
            guardP (CheckValidity cert (run_now R))
            (guardP (CheckKeyUsageForAuthentication cert)
            (guardP (CheckDisallowedPolicies cert (disallowedPolicies v))
            (bindP (Verify_prog P cert (run_now R) [ExtKeyUsageClientAuth]) (\<lambda>err. guardP err
            (bindP (checkRevocation_prog P v R cert) (\<lambda>err. guardP err
            (guardP (verifySignature P v t cert currentChallengeNonce)
            (tryP (mapErr (wrapped ErrTokenParse) (SubjectCN cert)) (\<lambda>_.
             Done (Inr cert))))))))))))) "

definition checkSigningTrust_prog ::
  "'a ocsp_platform_scheme \<Rightarrow> Signer \<Rightarrow> signing_run \<Rightarrow> x509_cert \<Rightarrow> goerror option prog" where
  "checkSigningTrust_prog P s R cert =
     (if hasTrust s then
        bindP (Verify_prog P cert (sg_now R) []) (\<lambda>err.
          if err \<noteq> None then Done (Some (Typed ErrSigningCertificateInvalid))
          else case sg_ocspChecker s of
            None \<Rightarrow> Done None
          | Some c \<Rightarrow>
              bindP (IssuerOf_prog P cert) (\<lambda>issuer.
                Done (case issuer of
                   None \<Rightarrow> Some (Typed ErrSigningCertificateInvalid)
                 | Some ca \<Rightarrow> Check P c (sg_rand R) (sg_ocsp_now R) cert ca)))
      else Done None)"

definition PrepareSigning_prog ::
  "'a ocsp_platform_scheme \<Rightarrow> Signer \<Rightarrow> signing_run \<Rightarrow> bytes \<Rightarrow> SignatureAlgorithm list \<Rightarrow>
   (x509_cert \<times> SignatureAlgorithm \<times> string) result prog" where
  "PrepareSigning_prog P s R signingCertDER supported =
     tryP (ParseSigningCertificate P signingCertDER) (\<lambda>cert.
     guardP (validateSigningCertificate cert (sg_now R))
     (guardP (CheckAcceptedPolicies cert (acceptedPolicies s))
     (bindP (checkSigningTrust_prog P s R cert) (\<lambda>err. guardP err
     (tryP (SelectHashFunction (tables P) (hashPreference s) supported) (\<lambda>hashFn.
      Done (Inr (cert, pickAlgorithmForHash (tables P) hashFn supported, hashFn))))))))"

section \<open>The endpoints\<close>

type_synonym reply = "payload response \<times> http_ctx"

definition challenge_prog :: "'x Handler \<Rightarrow> request_env \<Rightarrow> http_ctx \<Rightarrow> reply prog" where
  "challenge_prog h E ctx =
     (case gen_random (h_generator h) (re_read E) (nat (gen_nonceSize (h_generator h))) of
        Inl err \<Rightarrow> Done (ErrorResponse err, ctx)
      | Inr buf \<Rightarrow>
          let nonce = \<lparr>Base64EncodedNonce = StdEncoding_EncodeToString buf, IssuedAt = re_now E\<rparr> in
          PutNonce (re_store_now E) ctx nonce (\<lambda>e. Done (case e of
             Some err \<Rightarrow> (ErrorResponse err, ctx)
           | None \<Rightarrow> (JSONResponse (ChallengeResponse (Base64EncodedNonce nonce)), ctx))))"

definition login_prog ::
  "'a ocsp_platform_scheme \<Rightarrow> 'j jose_platform_scheme \<Rightarrow> 'x Handler \<Rightarrow> request_env \<Rightarrow>
   LoginRequest result \<Rightarrow> http_ctx \<Rightarrow> reply prog" where
  "login_prog P J h E body ctx =
     (case body of
        Inl err \<Rightarrow> Done (ErrorResponse err, ctx)
      | Inr req \<Rightarrow> TakeNonce (re_store_now E) ctx (\<lambda>r.
          case r of
            Inl err \<Rightarrow> Done (ErrorResponse err, ctx)
          | Inr stored \<Rightarrow>
              if Expired stored (re_now E) (cfg_NonceTTL (h_config h))
              then Done (ErrorResponse (Typed ErrChallengeNonceExpired), ctx)
              else bindP (Validate_prog P (h_validator h) (re_run E) (Some (lr_AuthToken req))
                     (Base64EncodedNonce stored)) (\<lambda>v.
                   Done (case v of
                      Inl err \<Rightarrow> (ErrorResponse err, ctx)
                    | Inr cert \<Rightarrow> establish P J h E cert ctx))))"

definition validate_prog ::
  "'a ocsp_platform_scheme \<Rightarrow> 'j jose_platform_scheme \<Rightarrow> 'x Handler \<Rightarrow> request_env \<Rightarrow>
   ValidateRequest result \<Rightarrow> http_ctx \<Rightarrow> reply prog" where
  "validate_prog P J h E body ctx =
     (case body of
        Inl err \<Rightarrow> Done (ErrorResponse err, ctx)
      | Inr req \<Rightarrow>
          (case ValidateRequest_Validate (re_struct E) req of
             Some err \<Rightarrow> Done (ErrorResponse err, ctx)
           | None \<Rightarrow>
               bindP (Validate_prog P (h_validator h) (re_run E) (Some (vr_AuthToken req)) (vr_Nonce req))
                 (\<lambda>v. Done (case v of
                    Inl err \<Rightarrow> (ErrorResponse err, ctx)
                  | Inr cert \<Rightarrow> establish P J h E cert ctx))))"

definition signingCertificate_prog ::
  "'a ocsp_platform_scheme \<Rightarrow> 'x Handler \<Rightarrow> request_env \<Rightarrow> SigningCertificateRequest result \<Rightarrow>
   http_ctx \<Rightarrow> reply prog" where
  "signingCertificate_prog P h E body ctx =
     bindP (tryP body (\<lambda>req.
            tryP (std_decode ErrSigningCertificateInvalid (sc_Certificate req)) (\<lambda>der.
            PrepareSigning_prog P (h_signer h) (re_sign E) der (sc_SupportedSignatureAlgorithms req))))
       (\<lambda>r. Done (case r of
          Inl err \<Rightarrow> (ErrorResponse err, ctx)
        | Inr (_, algo, hashFn) \<Rightarrow> (JSONResponse (SigningCertificateResponse algo hashFn), ctx)))"

text \<open>An endpoint that accesses nothing shared: its answer for any store state.\<close>

definition local_reply :: "(payload, unit) handler_fun \<Rightarrow> http_ctx \<Rightarrow> reply prog" where
  "local_reply f ctx = (let (resp, c, _) = f ctx () in Done (resp, c))"

fun endpoint_prog ::
  "'a ocsp_platform_scheme \<Rightarrow> 'j jose_platform_scheme \<Rightarrow> 'x Handler \<Rightarrow> request_env \<Rightarrow>
   http_request_in \<Rightarrow> endpoint \<Rightarrow> http_ctx \<Rightarrow> reply prog" where
  "endpoint_prog P J h E rq EpChallenge ctx = challenge_prog h E ctx"
| "endpoint_prog P J h E rq EpLogin ctx = login_prog P J h E (rq_Login rq) ctx"
| "endpoint_prog P J h E rq EpValidate ctx = validate_prog P J h E (rq_Validate rq) ctx"
| "endpoint_prog P J h E rq EpSigningCertificate ctx =
     signingCertificate_prog P h E (rq_SigningCertificate rq) ctx"
| "endpoint_prog P J h E rq EpFinalize ctx = local_reply (finalize P h (rq_Finalize rq)) ctx"
| "endpoint_prog P J h E rq EpJWKS ctx = local_reply (jwks h E) ctx"

text \<open>\<open>EnsureSession\<close> is local: it decides in which context the endpoint runs, or refuses.\<close>

definition EnsureSession_prog ::
  "'a platform_scheme \<Rightarrow> Configuration \<Rightarrow> (nat \<Rightarrow> bytes result) \<Rightarrow> (http_ctx \<Rightarrow> reply prog) \<Rightarrow>
   http_ctx \<Rightarrow> reply prog" where
  "EnsureSession_prog P cfg rand next ctx =
     (let cookieName = cfg_SessionCookieName cfg;
          ttl = cfg_NonceTTL cfg;
          originHosts = originHostnames P (cfg_Origins cfg);
          enforceHost = (cfg_EnforceHostHeader cfg \<and> originHosts \<noteq> []) in
      if enforceHost \<and> \<not> hostMatchesAny (tables P) (ctx_Host ctx) originHosts
      then Done (ErrorResponse errHostMismatch, ctx)
      else let sid = ctx_Cookie ctx cookieName in
        if \<not> validSessionID sid
        then (case newSessionID rand of
                Inl err \<Rightarrow> Done (ErrorResponse err, ctx)
              | Inr newID \<Rightarrow>
                  next ((setSessionCookie ctx cookieName newID ttl)
                    \<lparr>ctx_UserValue := (ctx_UserValue ctx)(sessionContextKey \<mapsto> newID)\<rparr>))
        else next (ctx\<lparr>ctx_UserValue := (ctx_UserValue ctx)(sessionContextKey \<mapsto> sid)\<rparr>))"

definition serve_prog ::
  "'a ocsp_platform_scheme \<Rightarrow> 'j jose_platform_scheme \<Rightarrow> 'x Handler \<Rightarrow>
   request_env \<times> http_request_in \<times> http_ctx \<Rightarrow> reply prog" where
  "serve_prog P J h = (\<lambda>(E, rq, ctx).
     case route_of h rq of
        None \<Rightarrow> Done (ErrorResponse errNotFound, ctx)
      | Some r \<Rightarrow>
          (if rt_Session r
           then EnsureSession_prog P (h_config h) (re_session_rand E)
                  (endpoint_prog P J h E rq (rt_Endpoint r)) ctx
           else endpoint_prog P J h E rq (rt_Endpoint r) ctx))"

section \<open>Running a program alone\<close>

text \<open>
  A program run by itself, where each load may return any snapshot of \<open>H\<close>: the trust material
  is the only thing that can change under a request.
\<close>

inductive prog_run ::
  "'x Handler \<Rightarrow> trustSnapshot set \<Rightarrow> 'r prog \<Rightarrow> 'x backends \<Rightarrow> 'r \<Rightarrow> 'x backends \<Rightarrow> bool"
  for h :: "'x Handler" and H where
  ret: "prog_run h H (Done x) b x b"
| take: "GetAndRemove (h_store h) t c b = (r, b1) \<Longrightarrow> prog_run h H (f r) b1 x b2 \<Longrightarrow>
     prog_run h H (TakeNonce t c f) b x b2"
| put: "Put (gen_store (h_generator h)) t c n b = (e, b1) \<Longrightarrow> prog_run h H (f e) b1 x b2 \<Longrightarrow>
     prog_run h H (PutNonce t c n f) b x b2"
| load: "sn \<in> H \<Longrightarrow> prog_run h H (f sn) b x b1 \<Longrightarrow> prog_run h H (LoadTrust f) b x b1"

inductive_simps prog_run_simps [simp]:
  "prog_run h H (Done x) b y b'"
  "prog_run h H (TakeNonce t c f) b y b'"
  "prog_run h H (PutNonce t c n f) b y b'"
  "prog_run h H (LoadTrust f) b y b'"

lemma prog_run_bindP [simp]:
  "prog_run h H (bindP m k) b y b' \<longleftrightarrow> (\<exists>x b1. prog_run h H m b x b1 \<and> prog_run h H (k x) b1 y b')"
  by (induction m arbitrary: b) (auto; blast)+

lemma prog_run_tryP [simp]:
  "prog_run h H (tryP m k) b y b' \<longleftrightarrow>
     (\<exists>err. m = Inl err \<and> y = Inl err \<and> b' = b) \<or> (\<exists>x. m = Inr x \<and> prog_run h H (k x) b y b')"
  by (cases m) auto

lemma prog_run_guardP [simp]:
  "prog_run h H (guardP c k) b y b' \<longleftrightarrow>
     (\<exists>err. c = Some err \<and> y = Inl err \<and> b' = b) \<or> (c = None \<and> prog_run h H k b y b')"
  by (cases c) auto

lemma tryP_Done: "tryP m (\<lambda>x. Done (g x)) = Done (bindE m g)"
  by (cases m) auto

lemma guardP_Done: "guardP c (Done y) = Done (checkE c y)"
  by (cases c) auto

text \<open>A program that accesses the store not at all, or once at most.\<close>

primrec no_access :: "'a prog \<Rightarrow> bool" where
  "no_access (Done x) = True"
| "no_access (TakeNonce t c f) = False"
| "no_access (PutNonce t c n f) = False"
| "no_access (LoadTrust f) = (\<forall>sn. no_access (f sn))"

primrec one_access :: "'a prog \<Rightarrow> bool" where
  "one_access (Done x) = True"
| "one_access (TakeNonce t c f) = (\<forall>r. no_access (f r))"
| "one_access (PutNonce t c n f) = (\<forall>e. no_access (f e))"
| "one_access (LoadTrust f) = (\<forall>sn. one_access (f sn))"

lemma no_access_one: "no_access p \<Longrightarrow> one_access p"
  by (induction p) auto

lemma no_access_bindP: "no_access m \<Longrightarrow> (\<And>x. no_access (k x)) \<Longrightarrow> no_access (bindP m k)"
  by (induction m) auto

lemma no_access_tryP: "(\<And>x. no_access (k x)) \<Longrightarrow> no_access (tryP m k)"
  by (cases m) auto

lemma no_access_guardP: "no_access k \<Longrightarrow> no_access (guardP c k)"
  by (cases c) auto

lemma no_access_run: "prog_run h H p b x b' \<Longrightarrow> no_access p \<Longrightarrow> b' = b \<and> prog_run h H p b2 x b2"
  by (induction rule: prog_run.induct) auto

section \<open>Programs and handlers\<close>

text \<open>\<open>reads H E E'\<close>: the inputs \<open>E\<close> of a request, with trust snapshots taken from \<open>H\<close>.\<close>

definition reads :: "trustSnapshot set \<Rightarrow> request_env \<Rightarrow> request_env \<Rightarrow> bool" where
  "reads H E E' \<longleftrightarrow> (\<exists>a \<in> H. \<exists>b \<in> H. \<exists>c \<in> H. \<exists>d \<in> H.
     E' = E\<lparr>re_run := (re_run E)\<lparr>verify_snap := a, issuer_snap := b\<rparr>,
            re_sign := (re_sign E)\<lparr>sg_verify_snap := c, sg_issuer_snap := d\<rparr>\<rparr>)"

lemma checkRevocation_prog_run:
  assumes "prog_run h H (checkRevocation_prog P v R cert) b x b'" and "sn \<in> H"
  shows "b' = b \<and> (\<exists>i \<in> H. checkRevocation P v (R\<lparr>issuer_snap := i\<rparr>) cert = x)"
  using assms by (auto simp: checkRevocation_prog_def IssuerOf_prog_def checkRevocation_def
      cong: option.case_cong split: if_splits)

lemma trust_checks_run:
  assumes "prog_run h H (bindP (Verify_prog P cert now kus) (\<lambda>err. guardP err
      (bindP (checkRevocation_prog P v R cert) (\<lambda>err. Done (checkE err T))))) b x b'" and "sn \<in> H"
  shows "b' = b \<and> (\<exists>a \<in> H. \<exists>i \<in> H. checkE (TrustStore_Verify P a cert now kus)
     (checkE (checkRevocation P v (R\<lparr>verify_snap := a, issuer_snap := i\<rparr>) cert) T) = x)"
proof -
  have rev: "checkRevocation P v (R\<lparr>verify_snap := a, issuer_snap := i\<rparr>) cert =
      checkRevocation P v (R\<lparr>issuer_snap := i\<rparr>) cert" for a i
    by (simp add: checkRevocation_def cong: option.case_cong)
  from assms obtain a e b1 where a: "a \<in> H" "e = TrustStore_Verify P a cert now kus"
    and rest: "prog_run h H (guardP e (bindP (checkRevocation_prog P v R cert) (\<lambda>err. Done (checkE err T)))) b x b'"
    by (auto simp: Verify_prog_def simp del: prog_run_guardP)
  show ?thesis
  proof (cases e)
    case None
    then obtain c b1 where "prog_run h H (checkRevocation_prog P v R cert) b c b1" "b' = b1" "x = checkE c T"
      using rest by auto
    with checkRevocation_prog_run [OF _ assms(2)] show ?thesis
      using a None by (metis checkE.simps(2) rev)
  next
    case (Some err)
    then show ?thesis using rest a assms(2) by force
  qed
qed

lemma Validate_prog_run:
  assumes "prog_run h H (Validate_prog P v R token nonce) b x b'" and "sn \<in> H"
  shows "b' = b \<and> (\<exists>a \<in> H. \<exists>i \<in> H. Validate P v (R\<lparr>verify_snap := a, issuer_snap := i\<rparr>) token nonce = x)"
proof (cases token)
  case (Some t)
  have ne: "\<exists>a. a \<in> H" using assms(2) by blast
  show ?thesis
    using assms(1)
    unfolding Some Validate_prog_def Validate_def option.case tryP_Done guardP_Done
    by (auto simp del: prog_run_bindP simp: ne split: if_splits dest!: trust_checks_run [OF _ assms(2)])
      blast
qed (use assms in \<open>auto simp: Validate_prog_def Validate_def\<close>)

lemma checkSigningTrust_prog_run:
  assumes "prog_run h H (checkSigningTrust_prog P s R cert) b x b'" and "sn \<in> H"
  shows "b' = b \<and> (\<exists>a \<in> H. \<exists>i \<in> H.
     checkSigningTrust P s (R\<lparr>sg_verify_snap := a, sg_issuer_snap := i\<rparr>) cert = x)"
  using assms
  by (auto simp: checkSigningTrust_prog_def checkSigningTrust_def Verify_prog_def IssuerOf_prog_def
      cong: option.case_cong split: if_splits option.splits)
    (force split: option.splits)+

lemma PrepareSigning_prog_run:
  assumes "prog_run h H (PrepareSigning_prog P s R der supported) b x b'" and "sn \<in> H"
  shows "b' = b \<and> (\<exists>a \<in> H. \<exists>i \<in> H.
     PrepareSigning P s (R\<lparr>sg_verify_snap := a, sg_issuer_snap := i\<rparr>) der supported = x)"
proof -
  have ne: "\<exists>a. a \<in> H" using assms(2) by blast
  have trust: "b' = b \<and> (\<exists>a \<in> H. \<exists>i \<in> H.
      checkE (checkSigningTrust P s (R\<lparr>sg_verify_snap := a, sg_issuer_snap := i\<rparr>) cert) T = x)"
    if "prog_run h H (bindP (checkSigningTrust_prog P s R cert) (\<lambda>err. Done (checkE err T))) b x b'" for cert T
    using that checkSigningTrust_prog_run [OF _ assms(2)] by fastforce
  show ?thesis
    using assms(1)
    unfolding PrepareSigning_prog_def PrepareSigning_def tryP_Done guardP_Done
    by (auto simp del: prog_run_bindP simp: ne dest!: trust) blast
qed

lemma establish_reads: "reads H E E' \<Longrightarrow> establish P J h E' cert ctx = establish P J h E cert ctx"
  by (auto simp: reads_def establish_def Let_def cong: option.case_cong)

lemma reads_run: "a \<in> H \<Longrightarrow> i \<in> H \<Longrightarrow>
    \<exists>E'. reads H E E' \<and> re_run E' = (re_run E)\<lparr>verify_snap := a, issuer_snap := i\<rparr>"
  unfolding reads_def
  by (rule exI [of _ "E\<lparr>re_run := (re_run E)\<lparr>verify_snap := a, issuer_snap := i\<rparr>,
      re_sign := (re_sign E)\<lparr>sg_verify_snap := a, sg_issuer_snap := i\<rparr>\<rparr>"]) auto

lemma reads_sign: "a \<in> H \<Longrightarrow> i \<in> H \<Longrightarrow>
    \<exists>E'. reads H E E' \<and> re_sign E' = (re_sign E)\<lparr>sg_verify_snap := a, sg_issuer_snap := i\<rparr>"
  unfolding reads_def
  by (rule exI [of _ "E\<lparr>re_run := (re_run E)\<lparr>verify_snap := a, issuer_snap := i\<rparr>,
      re_sign := (re_sign E)\<lparr>sg_verify_snap := a, sg_issuer_snap := i\<rparr>\<rparr>"]) auto

lemma reads_same: "reads H E E' \<Longrightarrow>
    re_now E' = re_now E \<and> re_store_now E' = re_store_now E \<and> re_world E' = re_world E \<and>
    re_struct E' = re_struct E \<and> re_order E' = re_order E \<and> re_session_rand E' = re_session_rand E \<and> re_read E' = re_read E"
  by (auto simp: reads_def)

lemma login_prog_run:
  assumes "prog_run h H (login_prog P J h E body ctx) b (resp, c) b'" and "sn \<in> H"
  shows "\<exists>E'. reads H E E' \<and> login P J h E' body ctx b = (resp, c, b')"
proof -
  obtain E0 where E0: "reads H E E0" using reads_run [OF assms(2, 2)] by blast
  show ?thesis
  proof (cases body)
    case (Inl err)
    then show ?thesis using assms E0 by (auto simp: login_prog_def login_def)
  next
    case (Inr req)
    obtain r b1 where get: "GetAndRemove (h_store h) (re_store_now E) ctx b = (r, b1)" by fastforce
    show ?thesis
    proof (cases "\<exists>stored. r = Inr stored \<and> \<not> Expired stored (re_now E) (cfg_NonceTTL (h_config h))")
      case True
      then obtain stored where st: "r = Inr stored" "\<not> Expired stored (re_now E) (cfg_NonceTTL (h_config h))" by blast
      then obtain v where v: "prog_run h H (Validate_prog P (h_validator h) (re_run E) (Some (lr_AuthToken req))
          (Base64EncodedNonce stored)) b1 v b'"
        and rep: "(resp, c) = (case v of Inl err \<Rightarrow> (ErrorResponse err, ctx) | Inr cert \<Rightarrow> establish P J h E cert ctx)"
        using assms(1) Inr get by (auto simp: login_prog_def)
      from Validate_prog_run [OF v assms(2)] obtain a i where "b' = b1" "a \<in> H" "i \<in> H"
        "Validate P (h_validator h) ((re_run E)\<lparr>verify_snap := a, issuer_snap := i\<rparr>) (Some (lr_AuthToken req))
          (Base64EncodedNonce stored) = v" by blast
      moreover then obtain E' where "reads H E E'" "re_run E' = (re_run E)\<lparr>verify_snap := a, issuer_snap := i\<rparr>"
        using reads_run by blast
      ultimately have "login P J h E' body ctx b = (resp, c, b')"
        using rep [symmetric] st get Inr reads_same [of H E E'] establish_reads [of H E E' P J h _ ctx]
        by (cases v) (auto simp: login_def)
      then show ?thesis using \<open>reads H E E'\<close> by blast
    next
      case False
      then show ?thesis
        using assms(1) Inr get E0 reads_same [OF E0]
        by (intro exI [of _ E0]) (auto simp: login_prog_def login_def split: sum.splits)
    qed
  qed
qed

lemma validate_prog_run:
  assumes "prog_run h H (validate_prog P J h E body ctx) b (resp, c) b'" and "sn \<in> H"
  shows "\<exists>E'. reads H E E' \<and> validate P J h E' body ctx b = (resp, c, b')"
proof -
  obtain E0 where E0: "reads H E E0" using reads_run [OF assms(2, 2)] by blast
  show ?thesis
  proof (cases "\<exists>req. body = Inr req \<and> ValidateRequest_Validate (re_struct E) req = None")
    case True
    then obtain req where req: "body = Inr req" "ValidateRequest_Validate (re_struct E) req = None" by blast
    then obtain v where v: "prog_run h H (Validate_prog P (h_validator h) (re_run E) (Some (vr_AuthToken req))
        (vr_Nonce req)) b v b'"
      and rep: "(resp, c) = (case v of Inl err \<Rightarrow> (ErrorResponse err, ctx) | Inr cert \<Rightarrow> establish P J h E cert ctx)"
      using assms(1) by (auto simp: validate_prog_def)
    from Validate_prog_run [OF v assms(2)] obtain a i where "b' = b" "a \<in> H" "i \<in> H"
      "Validate P (h_validator h) ((re_run E)\<lparr>verify_snap := a, issuer_snap := i\<rparr>) (Some (vr_AuthToken req))
        (vr_Nonce req) = v" by blast
    moreover then obtain E' where "reads H E E'" "re_run E' = (re_run E)\<lparr>verify_snap := a, issuer_snap := i\<rparr>"
      using reads_run by blast
    ultimately have "validate P J h E' body ctx b = (resp, c, b')"
      using rep [symmetric] req reads_same [of H E E'] establish_reads [of H E E' P J h _ ctx]
      by (cases v) (auto simp: validate_def)
    then show ?thesis using \<open>reads H E E'\<close> by blast
  next
    case False
    then show ?thesis
      using assms(1) E0 reads_same [OF E0]
      by (intro exI [of _ E0]) (auto simp: validate_prog_def validate_def split: sum.splits option.splits)
  qed
qed

lemma challenge_prog_run:
  "prog_run h H (challenge_prog h E ctx) b (resp, c) b' \<Longrightarrow> challenge h E ctx b = (resp, c, b')"
  by (auto simp: challenge_prog_def challenge_def GenerateAndStoreNonce_def Let_def
      split: sum.splits option.splits prod.splits)

lemma signingCertificate_prog_run:
  assumes "prog_run h H (signingCertificate_prog P h E body ctx) b (resp, c) b'" and "sn \<in> H"
  shows "\<exists>E'. reads H E E' \<and> signingCertificate P h E' body ctx b = (resp, c, b')"
proof -
  obtain E0 where E0: "reads H E E0" using reads_run [OF assms(2, 2)] by blast
  let ?der = "\<lambda>req. std_decode ErrSigningCertificateInvalid (sc_Certificate req)"
  let ?answer = "\<lambda>r. case r of Inl err \<Rightarrow> (ErrorResponse err, ctx)
      | Inr (_, algo, hashFn) \<Rightarrow> (JSONResponse (SigningCertificateResponse algo hashFn), ctx)"
  show ?thesis
  proof (cases "\<exists>req der. body = Inr req \<and> ?der req = Inr der")
    case True
    then obtain req der where req: "body = Inr req" "?der req = Inr der" by blast
    then obtain r where r: "prog_run h H (PrepareSigning_prog P (h_signer h) (re_sign E) der
        (sc_SupportedSignatureAlgorithms req)) b r b'" and rep: "?answer r = (resp, c)"
      using assms(1) by (auto simp: signingCertificate_prog_def)
    from PrepareSigning_prog_run [OF r assms(2)] obtain a i where "b' = b" "a \<in> H" "i \<in> H"
      "PrepareSigning P (h_signer h) ((re_sign E)\<lparr>sg_verify_snap := a, sg_issuer_snap := i\<rparr>) der
        (sc_SupportedSignatureAlgorithms req) = r" by blast
    moreover then obtain E' where "reads H E E'" "re_sign E' = (re_sign E)\<lparr>sg_verify_snap := a, sg_issuer_snap := i\<rparr>"
      using reads_sign by blast
    ultimately have "signingCertificate P h E' body ctx b = (resp, c, b')"
      using rep req by (cases r) (auto simp: signingCertificate_def)
    then show ?thesis using \<open>reads H E E'\<close> by blast
  next
    case False
    then obtain err where "body = Inl err \<or> (\<exists>req. body = Inr req \<and> ?der req = Inl err)"
      by (cases body) (auto, metis sum.exhaust)
    then have "signingCertificate P h E0 body ctx b = (resp, c, b')"
      using assms(1) by (auto simp: signingCertificate_prog_def signingCertificate_def)
    then show ?thesis using E0 by blast
  qed
qed

lemma endpoint_prog_run:
  assumes "prog_run h H (endpoint_prog P J h E rq ep ctx) b (resp, c) b'" and "sn \<in> H"
  shows "\<exists>E'. reads H E E' \<and> run_endpoint P J h E' rq ep ctx b = (resp, c, b')"
proof -
  obtain E0 where E0: "reads H E E0" using reads_run [OF assms(2, 2)] by blast
  note same = reads_same [OF E0]
  show ?thesis
  proof (cases ep)
    case EpChallenge
    then have "challenge h E ctx b = (resp, c, b')" using assms(1) challenge_prog_run by simp
    then show ?thesis using E0 same EpChallenge by (auto simp: challenge_def intro!: exI [of _ E0])
  next
    case EpLogin
    then show ?thesis using login_prog_run assms by simp
  next
    case EpValidate
    then show ?thesis using validate_prog_run assms by simp
  next
    case EpSigningCertificate
    then show ?thesis using signingCertificate_prog_run assms by simp
  next
    case EpFinalize
    then show ?thesis using assms(1) E0
      by (auto simp: local_reply_def finalize_def intro!: exI [of _ E0] split: sum.splits)
  next
    case EpJWKS
    then show ?thesis using assms(1) E0 same
      by (auto simp: local_reply_def jwks_def intro!: exI [of _ E0] split: sum.splits option.splits)
  qed
qed

text \<open>The middleware runs the program exactly where it runs the handler.\<close>

lemma EnsureSession_prog_run:
  assumes "prog_run h H (EnsureSession_prog P cfg rand p ctx) b (resp, c) b'"
    and "\<And>ctx1. prog_run h H (p ctx1) b (resp, c) b' \<Longrightarrow> \<exists>E. Q E \<and> f E ctx1 b = (resp, c, b')"
    and "Q E0"
  shows "\<exists>E. Q E \<and> EnsureSession P cfg rand (f E) ctx b = (resp, c, b')"
  using assms by (auto simp: EnsureSession_prog_def EnsureSession_def Let_def split: if_splits sum.splits)

theorem serve_prog_run:
  assumes "prog_run h H (serve_prog P J h (E, rq, ctx)) b (resp, c) b'" and "sn \<in> H"
  shows "\<exists>E'. reads H E E' \<and> serve P J h E' rq ctx b = (resp, c, b')"
proof -
  obtain E0 where E0: "reads H E E0" using reads_run [OF assms(2, 2)] by blast
  show ?thesis
  proof (cases "route_of h rq")
    case None
    then show ?thesis using assms(1) E0 by (auto simp: serve_prog_def serve_def)
  next
    case (Some r)
    show ?thesis
    proof (cases "rt_Session r")
      case True
      have "\<exists>E'. reads H E E' \<and> EnsureSession P (h_config h) (re_session_rand E)
          (run_endpoint P J h E' rq (rt_Endpoint r)) ctx b = (resp, c, b')"
        by (rule EnsureSession_prog_run [where Q = "reads H E", OF _ endpoint_prog_run E0])
          (use assms Some True in \<open>auto simp: serve_prog_def\<close>)
      then show ?thesis using reads_same True Some by (fastforce simp: serve_def)
    next
      case False
      then show ?thesis
        using endpoint_prog_run [OF _ assms(2)] assms(1) Some by (auto simp: serve_prog_def serve_def)
    qed
  qed
qed

section \<open>How often a request accesses shared state\<close>

lemmas no_access_intros = no_access_bindP no_access_tryP no_access_guardP

lemma Validate_no_access: "no_access (Validate_prog P v R token nonce)"
  by (auto simp: Validate_prog_def Verify_prog_def checkRevocation_prog_def IssuerOf_prog_def
      intro!: no_access_intros split: option.split)

lemma PrepareSigning_no_access: "no_access (PrepareSigning_prog P s R der supported)"
  by (auto simp: PrepareSigning_prog_def checkSigningTrust_prog_def Verify_prog_def IssuerOf_prog_def
      intro!: no_access_intros split: option.split)

lemma endpoint_one_access: "one_access (endpoint_prog P J h E rq ep ctx)"
proof (cases ep)
  case EpChallenge
  then show ?thesis by (simp add: challenge_prog_def Let_def split: sum.split option.split)
next
  case EpLogin
  then show ?thesis
    by (auto simp: login_prog_def intro!: no_access_bindP Validate_no_access split: sum.split)
next
  case EpValidate
  then show ?thesis
    by (auto simp: validate_prog_def intro!: no_access_one no_access_bindP Validate_no_access
        split: sum.split option.split)
next
  case EpSigningCertificate
  then show ?thesis
    by (auto simp: signingCertificate_prog_def intro!: no_access_one no_access_intros PrepareSigning_no_access)
qed (auto simp: local_reply_def split: prod.split)

lemma serve_one_access: "one_access (serve_prog P J h r)"
  using endpoint_one_access
  by (auto simp: serve_prog_def EnsureSession_prog_def Let_def split: prod.split option.split sum.split)

text \<open>A program that finishes after at most \<open>n\<close> accesses, whatever they return.\<close>

primrec within :: "'a prog \<Rightarrow> nat \<Rightarrow> bool" where
  "within (Done x) n = True"
| "within (TakeNonce t c f) n = (0 < n \<and> (\<forall>r. within (f r) (n - 1)))"
| "within (PutNonce t c m f) n = (0 < n \<and> (\<forall>e. within (f e) (n - 1)))"
| "within (LoadTrust f) n = (0 < n \<and> (\<forall>sn. within (f sn) (n - 1)))"

lemma within_add: "within p m \<Longrightarrow> within p (m + d)"
  by (induction p arbitrary: m) (auto simp: gr0_conv_Suc)

lemma within_mono: "within p m \<Longrightarrow> m \<le> n \<Longrightarrow> within p n"
  using within_add [of p m "n - m"] by simp

lemma within_bindP: "within p m \<Longrightarrow> (\<And>x. within (k x) n) \<Longrightarrow> within (bindP p k) (m + n)"
proof (induction p arbitrary: m)
  case (Done x)
  then show ?case using within_mono [of "k x" n "m + n"] by simp
qed (auto simp: gr0_conv_Suc)

lemma within_tryP: "(\<And>x. within (k x) n) \<Longrightarrow> within (tryP m k) n"
  by (cases m) auto

lemma within_guardP: "within k n \<Longrightarrow> within (guardP c k) n"
  by (cases c) auto

lemma within_bindP1: "within p 1 \<Longrightarrow> (\<And>x. within (k x) n) \<Longrightarrow> within (bindP p k) (Suc n)"
  using within_bindP [of p 1 k n] by simp

lemma within_bindP_Done: "within p n \<Longrightarrow> within (bindP p (\<lambda>x. Done (g x))) n"
  using within_bindP [of p n "\<lambda>x. Done (g x)" 0] by simp

lemmas within_intros = within_bindP_Done within_bindP1 within_tryP within_guardP

lemma Validate_within: "within (Validate_prog P v R token nonce) 2"
proof -
  have "within (Verify_prog P cert now ks) 1" "within (checkRevocation_prog P v R cert) (Suc 0)" for cert now ks
    by (simp_all add: Verify_prog_def checkRevocation_prog_def IssuerOf_prog_def)
  then show ?thesis
    by (auto simp: Validate_prog_def numeral_2_eq_2 tryP_Done guardP_Done intro!: within_intros split: option.split)
qed

lemma PrepareSigning_within: "within (PrepareSigning_prog P s R der supported) 2"
proof -
  have "within (checkSigningTrust_prog P s R cert) 2" for cert
    by (simp add: checkSigningTrust_prog_def Verify_prog_def IssuerOf_prog_def split: option.split)
  then show ?thesis
    by (auto simp: PrepareSigning_prog_def tryP_Done guardP_Done intro!: within_intros)
qed

lemma endpoint_within: "within (endpoint_prog P J h E rq ep ctx) 3"
proof (cases ep)
  case EpLogin
  then show ?thesis
    by (auto simp: login_prog_def intro!: within_intros Validate_within split: sum.split)
next
  case EpValidate
  then show ?thesis
    by (auto simp: validate_prog_def intro!: within_intros within_mono [OF Validate_within]
        split: sum.split option.split)
next
  case EpSigningCertificate
  then show ?thesis
    by (auto simp: signingCertificate_prog_def intro!: within_intros within_mono [OF PrepareSigning_within])
qed (auto simp: challenge_prog_def local_reply_def Let_def split: sum.split option.split prod.split)

lemma serve_within: "within (serve_prog P J h r) 3"
  using endpoint_within
  by (auto simp: serve_prog_def EnsureSession_prog_def Let_def split: prod.split option.split sum.split)

section \<open>What a request stores\<close>

text \<open>All nonces a program may still put satisfy \<open>Q\<close> together with the context they are put in.\<close>

primrec puts_all :: "(http_ctx \<Rightarrow> ChallengeNonce \<Rightarrow> bool) \<Rightarrow> 'a prog \<Rightarrow> bool" where
  "puts_all Q (Done x) = True"
| "puts_all Q (TakeNonce t c f) = (\<forall>r. puts_all Q (f r))"
| "puts_all Q (PutNonce t c n f) = (Q c n \<and> (\<forall>e. puts_all Q (f e)))"
| "puts_all Q (LoadTrust f) = (\<forall>sn. puts_all Q (f sn))"

lemma no_access_puts: "no_access p \<Longrightarrow> puts_all Q p"
  by (induction p) auto

lemma endpoint_puts: "ep \<noteq> EpChallenge \<Longrightarrow> puts_all Q (endpoint_prog P J h E rq ep ctx)"
proof (cases ep)
  case EpLogin
  then show ?thesis
    by (auto simp: login_prog_def intro!: no_access_puts no_access_bindP Validate_no_access split: sum.split)
next
  case EpValidate
  then show ?thesis
    by (auto simp: validate_prog_def intro!: no_access_puts no_access_bindP Validate_no_access
        split: sum.split option.split)
next
  case EpSigningCertificate
  then show ?thesis
    by (auto simp: signingCertificate_prog_def intro!: no_access_puts no_access_intros PrepareSigning_no_access)
qed (auto simp: local_reply_def split: prod.split)

lemma challenge_puts:
  assumes "\<And>buf. gen_random (h_generator h) (re_read E) (nat (gen_nonceSize (h_generator h))) = Inr buf \<Longrightarrow>
      Q ctx \<lparr>Base64EncodedNonce = StdEncoding_EncodeToString buf, IssuedAt = re_now E\<rparr>"
  shows "puts_all Q (challenge_prog h E ctx)"
  using assms by (simp add: challenge_prog_def Let_def split: sum.split)

text \<open>A valid session identifier and the base64 text of at least 32 bytes.\<close>

definition typed_entry :: "string \<Rightarrow> ChallengeNonce \<Rightarrow> bool" where
  "typed_entry k n \<longleftrightarrow> validSessionID k \<and>
     (\<exists>buf. StdEncoding_DecodeString (Base64EncodedNonce n) = Some buf \<and> 32 \<le> length buf)"

definition typed_put :: "http_ctx \<Rightarrow> ChallengeNonce \<Rightarrow> bool" where
  "typed_put c n \<longleftrightarrow> (\<exists>k. request_key c = Inr k \<and> typed_entry k n)"

definition full_reads :: "(nat \<Rightarrow> bytes result) \<Rightarrow> bool" where
  "full_reads rand \<longleftrightarrow> (\<forall>n buf. rand n = Inr buf \<longrightarrow> length buf = n)"

lemma challenge_typed:
  assumes "full_reads (gen_random (h_generator h) (re_read E))" and "32 \<le> gen_nonceSize (h_generator h)"
    and "validSessionID sid" and "request_key ctx = Inr sid"
  shows "puts_all typed_put (challenge_prog h E ctx)"
  by (rule challenge_puts) (use assms in \<open>auto simp: typed_put_def typed_entry_def full_reads_def std64.dec_enc\<close>)

lemma EnsureSession_typed:
  assumes "full_reads rand"
    and "\<And>ctx1 sid. validSessionID sid \<Longrightarrow> request_key ctx1 = Inr sid \<Longrightarrow> puts_all typed_put (p ctx1)"
  shows "puts_all typed_put (EnsureSession_prog P cfg rand p ctx)"
proof -
  have key: "puts_all typed_put (p (c\<lparr>ctx_UserValue := (ctx_UserValue c)(sessionContextKey \<mapsto> sid)\<rparr>))"
    if "validSessionID sid" for c sid
    using that assms(2) [OF that] request_key_session [of c sid] by (auto simp: validSessionID_def)
  have "validSessionID new" if "newSessionID rand = Inr new" for new
    using newSessionID_valid(1) [OF that] assms(1) by (auto simp: full_reads_def)
  with key [of _ "setSessionCookie ctx _ _ _"] key [of _ ctx] show ?thesis
    by (auto simp: EnsureSession_prog_def Let_def setSessionCookie_def split: sum.split)
qed

lemma route_challenge_session: "route_of h rq = Some r \<Longrightarrow> rt_Endpoint r = EpChallenge \<Longrightarrow> rt_Session r"
proof -
  assume "route_of h rq = Some r" and ep: "rt_Endpoint r = EpChallenge"
  then have "r \<in> set (Bind h)" by (auto simp: route_of_def find_Some_iff)
  then show ?thesis using ep by (auto simp: Bind_def split: if_splits)
qed

lemma serve_typed:
  assumes "full_reads (gen_random (h_generator h) (re_read E))" and "32 \<le> gen_nonceSize (h_generator h)"
    and "full_reads (re_session_rand E)"
  shows "puts_all typed_put (serve_prog P J h (E, rq, ctx))"
proof (cases "route_of h rq")
  case (Some r)
  show ?thesis
  proof (cases "rt_Endpoint r = EpChallenge")
    case True
    then show ?thesis
      using Some route_challenge_session [OF Some]
      by (auto simp: serve_prog_def intro!: EnsureSession_typed challenge_typed assms)
  next
    case False
    then show ?thesis
      using Some endpoint_puts
      by (auto simp: serve_prog_def EnsureSession_prog_def Let_def split: sum.split)
  qed
qed (simp add: serve_prog_def)

end
