(* ===== verification/Concurrent.thy ===== *)
theory Concurrent
  imports Programs
begin

text \<open>
  Requests in flight at the same time: a system of requests takes one access of one request at a
  time, and \<^verbatim>\<open>Handler.ReloadTrust\<close> may run between any two. Every execution has the outcome of
  serving the requests one after another in an order that respects which request was over before
  which began, each with trust snapshots in force while it ran; and every execution can be finished.
\<close>

section \<open>Executions\<close>

record 'x shared =
  sh_stores :: "'x backends"
  sh_trust :: TrustStore

text \<open>One access of a request.\<close>

fun access :: "'x Handler \<Rightarrow> 'a prog \<Rightarrow> 'x shared \<Rightarrow> 'a prog \<times> 'x shared" where
  "access h (Done x) s = (Done x, s)"
| "access h (TakeNonce t c f) s =
     (let (r, b) = GetAndRemove (h_store h) t c (sh_stores s) in (f r, s\<lparr>sh_stores := b\<rparr>))"
| "access h (PutNonce t c n f) s =
     (let (e, b) = Put (gen_store (h_generator h)) t c n (sh_stores s) in (f e, s\<lparr>sh_stores := b\<rparr>))"
| "access h (LoadTrust f) s = (f (snap (sh_trust s)), s)"

datatype event = Access nat | Reloaded

text \<open>
  A step of the system: an unfinished request makes its next access, or the trust material is
  reloaded from whatever the file system holds.
\<close>

inductive sys_step ::
  "'a platform_scheme \<Rightarrow> 'x Handler \<Rightarrow> 'x shared \<times> 'r prog list \<Rightarrow> event \<Rightarrow> 'x shared \<times> 'r prog list \<Rightarrow> bool"
  for P :: "'a platform_scheme" and h :: "'x Handler" where
  request: "i < length ts \<Longrightarrow> \<not> finished (ts ! i) \<Longrightarrow> access h (ts ! i) s = (p, s') \<Longrightarrow>
     sys_step P h (s, ts) (Access i) (s', ts[i := p])"
| reload: "ReloadTrust P fs (h\<lparr>h_trust := sh_trust s\<rparr>) = Some (r, h') \<Longrightarrow>
     sys_step P h (s, ts) Reloaded (s\<lparr>sh_trust := h_trust h'\<rparr>, ts)"

text \<open>An execution, with its events and the trust snapshot in force at each.\<close>

inductive sys_exec ::
  "'a platform_scheme \<Rightarrow> 'x Handler \<Rightarrow> 'x shared \<times> 'r prog list \<Rightarrow> (event \<times> trustSnapshot) list \<Rightarrow>
   'x shared \<times> 'r prog list \<Rightarrow> bool"
  for P :: "'a platform_scheme" and h :: "'x Handler" where
  stop: "sys_exec P h x [] x"
| go: "sys_step P h (s, ts) e y \<Longrightarrow> sys_exec P h y tr z \<Longrightarrow>
     sys_exec P h (s, ts) ((e, snap (sh_trust s)) # tr) z"

section \<open>Serial order\<close>

text \<open>
  The requests of \<open>ts\<close> run one after another in the given order, with the given results; request
  \<open>i\<close> loads snapshots of \<open>H i\<close>.
\<close>

inductive serial ::
  "'x Handler \<Rightarrow> (nat \<Rightarrow> trustSnapshot set) \<Rightarrow> 'r prog list \<Rightarrow> (nat \<Rightarrow> 'r) \<Rightarrow> nat list \<Rightarrow> 'x backends \<Rightarrow>
   'x backends \<Rightarrow> bool"
  for h :: "'x Handler" and H ts res where
  none: "serial h H ts res [] b b"
| step: "prog_run h (H i) (ts ! i) b (res i) b1 \<Longrightarrow> serial h H ts res order b1 b2 \<Longrightarrow>
     serial h H ts res (i # order) b b2"

inductive_simps serial_simps [simp]:
  "serial h H ts res [] b b'"
  "serial h H ts res (i # order) b b'"

lemma serial_other:
  "serial h H ts res order b b' \<Longrightarrow> i \<notin> set order \<Longrightarrow> serial h H (ts[i := p]) res order b b'"
  by (induction rule: serial.induct) auto

lemma serial_swap:
  assumes "\<And>b x b'. prog_run h (H i) p b x b' \<Longrightarrow> prog_run h (H i) q b x b'"
  shows "serial h H (ts[i := p]) res order b b' \<Longrightarrow> i < length ts \<Longrightarrow> serial h H (ts[i := q]) res order b b'"
  by (induction order arbitrary: b) (use assms in \<open>fastforce simp: nth_list_update split: if_splits\<close>)+

lemma serial_remove:
  assumes "no_access p" and "i < length ts"
  shows "serial h H (ts[i := p]) res order b b' \<Longrightarrow> i \<in> set order \<Longrightarrow> distinct order \<Longrightarrow>
     serial h H (ts[i := q]) res (remove1 i order) b b' \<and> prog_run h (H i) p b2 (res i) b2"
proof (induction order arbitrary: b)
  case (Cons j order)
  then obtain b1 where run: "prog_run h (H j) (ts[i := p] ! j) b (res j) b1"
    and rest: "serial h H (ts[i := p]) res order b1 b'" by auto
  show ?case
  proof (cases "j = i")
    case True
    then have p: "prog_run h (H i) p b (res i) b1" using run assms(2) by simp
    from no_access_run [OF this assms(1)] have "b1 = b" "prog_run h (H i) p b2 (res i) b2" by auto
    moreover have "serial h H (ts[i := p, i := q]) res order b1 b'"
      by (rule serial_other [OF rest]) (use Cons.prems True in auto)
    ultimately show ?thesis using True by simp
  next
    case False
    then show ?thesis using Cons.IH [OF rest] Cons.prems run by auto
  qed
qed simp

text \<open>An access either leaves the store access to come, or is the point where the request takes effect.\<close>

lemma access_one:
  assumes "one_access p" and "\<not> finished p" and "access h p s = (p', s')" and "snap (sh_trust s) \<in> K"
  shows "sh_trust s' = sh_trust s \<and> one_access p' \<and>
     (\<forall>x b. prog_run h K p' (sh_stores s') x b \<longrightarrow> prog_run h K p (sh_stores s) x b) \<and>
     (\<not> no_access p' \<longrightarrow> s' = s \<and> (\<forall>b x b'. prog_run h K p' b x b' \<longrightarrow> prog_run h K p b x b'))"
  using assms by (cases p) (auto split: prod.splits intro: no_access_one)

lemma list_all_update: "list_all Q xs \<Longrightarrow> Q x \<Longrightarrow> list_all Q (xs[i := x])"
  by (auto simp: list_all_iff dest: set_update_subset_insert [THEN subsetD])

text \<open>Request \<open>i\<close> is over before request \<open>j\<close> begins, in an execution and in an order.\<close>

definition over_before :: "(event \<times> trustSnapshot) list \<Rightarrow> nat \<Rightarrow> nat \<Rightarrow> bool" where
  "over_before tr i j \<longleftrightarrow> (\<exists>tr1 tr2. tr = tr1 @ tr2 \<and> Access i \<in> fst ` set tr1 \<and> Access i \<notin> fst ` set tr2 \<and>
     Access j \<notin> fst ` set tr1 \<and> Access j \<in> fst ` set tr2)"

definition precedes :: "nat list \<Rightarrow> nat \<Rightarrow> nat \<Rightarrow> bool" where
  "precedes order i j \<longleftrightarrow> (\<exists>o1 o2. order = o1 @ i # o2 \<and> j \<in> set o2)"

lemma precedes_Nil [simp]: "\<not> precedes [] i j"
  by (simp add: precedes_def)

lemma precedes_Cons [simp]:
  "precedes (k # order) i j \<longleftrightarrow> k = i \<and> j \<in> set order \<or> precedes order i j"
  unfolding precedes_def by (auto simp: Cons_eq_append_conv)

lemma precedes_remove1: "precedes order i j \<Longrightarrow> k \<noteq> i \<Longrightarrow> k \<noteq> j \<Longrightarrow> precedes (remove1 k order) i j"
  by (induction order) auto

lemma over_before_Cons:
  "over_before ((e, sn) # tr) i j \<Longrightarrow> e \<noteq> Access j \<and> Access j \<in> fst ` set tr \<and>
     (over_before tr i j \<or> e = Access i \<and> Access i \<notin> fst ` set tr)"
proof -
  assume "over_before ((e, sn) # tr) i j"
  then obtain tr1 tr2 where split: "(e, sn) # tr = tr1 @ tr2" "Access i \<in> fst ` set tr1"
    "Access i \<notin> fst ` set tr2" "Access j \<notin> fst ` set tr1" "Access j \<in> fst ` set tr2"
    unfolding over_before_def by blast
  then obtain tr3 where tr: "tr1 = (e, sn) # tr3" "tr = tr3 @ tr2" by (cases tr1) auto
  then have "over_before tr i j" if "Access i \<in> fst ` set tr3"
    unfolding over_before_def using split that by (intro exI [of _ tr3] exI [of _ tr2]) simp
  then show ?thesis using split tr by auto
qed

lemma no_events: "sys_exec P h x tr z \<Longrightarrow> Access i \<notin> fst ` set tr \<Longrightarrow> snd z ! i = snd x ! i"
proof (induction rule: sys_exec.induct)
  case (go s ts e y tr z)
  from go.hyps(1) go.IH go.prems show ?case by (cases rule: sys_step.cases) auto
qed simp

lemma exec_length: "sys_exec P h x tr z \<Longrightarrow> length (snd z) = length (snd x)"
proof (induction rule: sys_exec.induct)
  case (go s ts e y tr z)
  from go.hyps(1) go.IH show ?case by (cases rule: sys_step.cases) auto
qed simp

lemma exec_events: "sys_exec P h x tr z \<Longrightarrow> Access i \<in> fst ` set tr \<Longrightarrow> i < length (snd x)"
proof (induction rule: sys_exec.induct)
  case (go s ts e y tr z)
  from go.hyps(1) go.IH go.prems show ?case by (cases rule: sys_step.cases) auto
qed simp

definition linearizes ::
  "(event \<times> trustSnapshot) list \<Rightarrow> nat \<Rightarrow> nat list \<Rightarrow> bool" where
  "linearizes tr n order \<longleftrightarrow> distinct order \<and> set order = {..<n} \<and>
     (\<forall>i j. over_before tr i j \<longrightarrow> precedes order i j)"

lemma linearizes_front:
  assumes "linearizes tr n order" and "i < n"
    and "\<And>j. Access j \<in> fst ` set tr \<Longrightarrow> j < n"
  shows "linearizes ((Access i, sn) # tr) n (i # remove1 i order)"
proof -
  have "precedes (i # remove1 i order) i' j" if "over_before ((Access i, sn) # tr) i' j" for i' j
  proof -
    from over_before_Cons [OF that] have j: "i \<noteq> j" "j < n" and c: "over_before tr i' j \<or> i' = i"
      using assms(3) by auto
    show ?thesis
    proof (cases "i' = i")
      case True
      then show ?thesis using j assms(1) by (auto simp: linearizes_def)
    next
      case False
      then show ?thesis using c j assms(1) precedes_remove1 [of order i' j i] by (auto simp: linearizes_def)
    qed
  qed
  then show ?thesis using assms(1, 2) by (auto simp: linearizes_def)
qed

lemma linearizable:
  assumes "sys_exec P h x tr z" and "list_all one_access (snd x)" and "list_all finished (snd z)"
    and "\<And>i sn. (Access i, sn) \<in> set tr \<Longrightarrow> sn \<in> H i"
  shows "\<exists>order. linearizes tr (length (snd x)) order \<and>
     serial h H (snd x) (\<lambda>i. result_of (snd z ! i)) order (sh_stores (fst x)) (sh_stores (fst z))"
  using assms
proof (induction rule: sys_exec.induct)
  case (stop x)
  have run: "prog_run h (H i) (snd x ! i) b (result_of (snd x ! i)) b" if "i < length (snd x)" for i b
    using stop.prems(2) that by (cases "snd x ! i") (auto simp: list_all_length)
  have "serial h H (snd x) (\<lambda>i. result_of (snd x ! i)) order b b" if "set order \<subseteq> {..<length (snd x)}" for order b
    using that by (induction order) (use run in \<open>auto intro: serial.step\<close>)
  from this [of "[0..<length (snd x)]"] show ?case
    by (intro exI [of _ "[0..<length (snd x)]"]) (auto simp: atLeast0LessThan linearizes_def over_before_def)
next
  case (go s ts e y tr z)
  note hyps = go.prems(2) go.prems(3) [OF list.set_intros(2)]
  let ?res = "\<lambda>i. result_of (snd z ! i)"
  from go.hyps(1) show ?case
  proof (cases rule: sys_step.cases)
    case (request i p s')
    have one: "one_access (ts ! i)" using go.prems(1) request by (simp add: list_all_length)
    have H: "snap (sh_trust s) \<in> H i" using go.prems(3) request(1) by auto
    note acc = access_one [OF one request(4, 5) H]
    have one': "list_all one_access (snd y)"
      using acc go.prems(1) request list_all_update [of one_access ts p i] by simp
    from go.IH [OF one' hyps] request obtain order where
      lin: "linearizes tr (length ts) order" and run: "serial h H (ts[i := p]) ?res order (sh_stores s') (sh_stores (fst z))"
      by auto
    have ids: "j < length ts" if "Access j \<in> fst ` set tr" for j
      using exec_events [OF go.hyps(2) that] request by simp
    show ?thesis
    proof (cases "no_access p")
      case True
      have "serial h H (ts[i := ts ! i]) ?res (remove1 i order) (sh_stores s') (sh_stores (fst z)) \<and>
          prog_run h (H i) p (sh_stores s') (?res i) (sh_stores s')"
        by (rule serial_remove [OF True request(3) run]) (use lin request(3) in \<open>auto simp: linearizes_def\<close>)
      then have "serial h H ts ?res (i # remove1 i order) (sh_stores s) (sh_stores (fst z))"
        using acc by auto
      then show ?thesis
        using linearizes_front [OF lin request(3) ids] request(1)
        by (intro exI [of _ "i # remove1 i order"]) (simp del: serial_simps)
    next
      case False
      then have "serial h H (ts[i := ts ! i]) ?res order (sh_stores s) (sh_stores (fst z))"
        using acc serial_swap [OF _ run request(3), of "ts ! i"] by blast
      moreover have "Access i \<in> fst ` set tr"
      proof (rule ccontr)
        assume "Access i \<notin> fst ` set tr"
        then have "snd z ! i = p" "i < length (snd z)"
          using no_events [OF go.hyps(2)] exec_length [OF go.hyps(2)] request by auto
        then show False using go.prems(2) False by (cases p) (auto simp: list_all_length)
      qed
      then have "linearizes ((e, snap (sh_trust s)) # tr) (length ts) order"
        using lin request(1) by (auto simp: linearizes_def dest: over_before_Cons)
      ultimately show ?thesis by (auto simp del: serial_simps)
    qed
  next
    case reload
    have "linearizes tr n order \<Longrightarrow> linearizes ((Reloaded, sn) # tr) n order" for n order sn
      by (auto simp: linearizes_def dest: over_before_Cons)
    then show ?thesis using go.IH go.prems reload by auto
  qed
qed

section \<open>Progress\<close>

definition accesses :: "(event \<times> trustSnapshot) list \<Rightarrow> nat" where
  "accesses tr = length (filter (\<lambda>(e, sn). e \<noteq> Reloaded) tr)"

lemma access_within:
  "\<not> finished p \<Longrightarrow> within p n \<Longrightarrow> access h p s = (p', s') \<Longrightarrow> 0 < n \<and> within p' (n - 1)"
  by (cases p) (auto split: prod.splits)

lemma list_all2_progress:
  assumes "list_all2 within ts ns" and "i < length ts" and "\<not> finished (ts ! i)" and "access h (ts ! i) s = (p, s')"
  shows "list_all2 within (ts[i := p]) (ns[i := ns ! i - 1]) \<and> sum_list (ns[i := ns ! i - 1]) + 1 = sum_list ns"
proof -
  have len: "length ns = length ts" and i: "within (ts ! i) (ns ! i)"
    using assms(1, 2) by (auto simp: list_all2_conv_all_nth)
  from access_within [OF assms(3) i assms(4)] have "0 < ns ! i" "within p (ns ! i - 1)" by auto
  moreover from this have "sum_list (ns[i := ns ! i - 1]) + 1 = sum_list ns"
    using len assms(2) member_le_sum_list [of "ns ! i" ns] by (auto simp: sum_list_update)
  ultimately show ?thesis using assms(1) by (simp add: list_all2_update_cong)
qed

lemma exec_bound:
  "sys_exec P h x tr z \<Longrightarrow> list_all2 within (snd x) ns \<Longrightarrow>
     \<exists>ms. list_all2 within (snd z) ms \<and> sum_list ms + accesses tr = sum_list ns"
proof (induction arbitrary: ns rule: sys_exec.induct)
  case (stop x)
  then show ?case by (auto simp: accesses_def)
next
  case (go s ts e y tr z)
  from go.hyps(1) show ?case
  proof (cases rule: sys_step.cases)
    case (request i p s')
    from list_all2_progress [OF _ request(3-5)] go.prems
    have "list_all2 within (snd y) (ns[i := ns ! i - 1])" and sum: "sum_list (ns[i := ns ! i - 1]) + 1 = sum_list ns"
      using request by auto
    from go.IH [OF this(1)] show ?thesis using sum request(1) by (auto simp: accesses_def)
  next
    case reload
    then show ?thesis using go.IH [of ns] go.prems by (auto simp: accesses_def)
  qed
qed

lemma exec_finish:
  "list_all2 within ts ns \<Longrightarrow> \<exists>tr z. sys_exec P h (s, ts) tr z \<and> list_all finished (snd z)"
proof (induction "sum_list ns" arbitrary: s ts ns rule: less_induct)
  case less
  show ?case
  proof (cases "list_all finished ts")
    case True
    then show ?thesis using sys_exec.stop by fastforce
  next
    case False
    then obtain i where i: "i < length ts" "\<not> finished (ts ! i)" by (auto simp: list_all_length)
    obtain p s' where a: "access h (ts ! i) s = (p, s')" by fastforce
    note prog = list_all2_progress [OF less.prems i a]
    then have "sum_list (ns[i := ns ! i - 1]) < sum_list ns" by linarith
    from less.hyps [OF this] prog obtain tr z where "sys_exec P h (s', ts[i := p]) tr z" "list_all finished (snd z)"
      by blast
    then show ?thesis using sys_exec.go [OF sys_step.request [OF i a]] by blast
  qed
qed

lemma exec_append: "sys_exec P h x tr y \<Longrightarrow> sys_exec P h y tr' z \<Longrightarrow> sys_exec P h x (tr @ tr') z"
  by (induction rule: sys_exec.induct) (auto intro: sys_exec.go)

lemma done_no_access: "sys_exec P h x tr z \<Longrightarrow> finished (snd x ! i) \<Longrightarrow> Access i \<notin> fst ` set tr"
proof (induction rule: sys_exec.induct)
  case (go s ts e y tr z)
  from go.hyps(1) show ?case
  proof (cases rule: sys_step.cases)
    case (request j p s')
    moreover then have "j \<noteq> i" using go.prems by auto
    ultimately show ?thesis using go.IH go.prems by auto
  next
    case reload
    then show ?thesis using go.IH go.prems by auto
  qed
qed simp

lemma requests_can_finish:
  assumes "sys_exec P h (s, map (serve_prog P J h) reqs) tr (s', ts)"
  shows "accesses tr \<le> 3 * length reqs \<and>
     (\<exists>tr' s'' ts'. sys_exec P h (s', ts) tr' (s'', ts') \<and> list_all finished ts' \<and>
        accesses tr + accesses tr' \<le> 3 * length reqs)"
proof -
  let ?ns = "replicate (length reqs) 3"
  have "list_all2 within (map (serve_prog P J h) reqs) ?ns"
    by (simp add: list_all2_conv_all_nth serve_within)
  from exec_bound [OF assms, of ?ns] this obtain ms where
    ms: "list_all2 within ts ms" "sum_list ms + accesses tr = 3 * length reqs"
    by (auto simp: sum_list_replicate)
  obtain tr' s'' ts' where fin: "sys_exec P h (s', ts) tr' (s'', ts')" "list_all finished ts'"
    using exec_finish [OF ms(1), of P h s'] by fastforce
  from exec_bound [OF fin(1), of ms] ms have "accesses tr + accesses tr' \<le> 3 * length reqs" by auto
  then show ?thesis using fin by auto
qed

section \<open>From serial order to the service\<close>

text \<open>The snapshots in force at the accesses of request \<open>i\<close>; a request without any read none.\<close>

definition seen :: "(event \<times> trustSnapshot) list \<Rightarrow> nat \<Rightarrow> trustSnapshot set" where
  "seen tr i = (if Access i \<in> fst ` set tr then {sn. (Access i, sn) \<in> set tr} else UNIV)"

lemma seen_nonempty: "\<exists>sn. sn \<in> seen tr i"
  by (auto simp: seen_def)

text \<open>The request \<open>i\<close> of \<open>reqs\<close>, as it is served alone with the snapshots it read.\<close>

definition as_served ::
  "(nat \<Rightarrow> trustSnapshot set) \<Rightarrow> (request_env \<times> http_request_in \<times> http_ctx) list \<Rightarrow> nat \<Rightarrow>
   request_env \<times> http_request_in \<times> http_ctx \<Rightarrow> bool" where
  "as_served H reqs i = (\<lambda>(E', rq, ctx). \<exists>E. reqs ! i = (E, rq, ctx) \<and> reads (H i) E E')"

lemma serial_service:
  assumes "\<And>i. \<exists>sn. sn \<in> H i"
  shows "serial h H (map (serve_prog P J h) reqs) res order b b' \<Longrightarrow> set order \<subseteq> {..<length reqs} \<Longrightarrow>
     \<exists>sq log. list_all2 (as_served H reqs) order sq \<and> run_service P J h sq b = (log, b') \<and>
       map (\<lambda>(rq, c, resp). (rq, resp, c)) log = map (\<lambda>i. (fst (snd (reqs ! i)), res i)) order"
proof (induction order arbitrary: b)
  case (Cons i order)
  obtain E rq ctx where r: "reqs ! i = (E, rq, ctx)" by (cases "reqs ! i")
  obtain resp c where res: "res i = (resp, c)" by fastforce
  from Cons.prems r res obtain b1 where run: "prog_run h (H i) (serve_prog P J h (E, rq, ctx)) b (resp, c) b1"
    and rest: "serial h H (map (serve_prog P J h) reqs) res order b1 b'" by auto
  obtain sn where "sn \<in> H i" using assms by blast
  from serve_prog_run [OF run this] obtain E' where E': "reads (H i) E E'" "serve P J h E' rq ctx b = (resp, c, b1)"
    by blast
  from Cons.IH [OF rest] Cons.prems(2) obtain sq log where
    "list_all2 (as_served H reqs) order sq" "run_service P J h sq b1 = (log, b')"
    "map (\<lambda>(rq, c, resp). (rq, resp, c)) log = map (\<lambda>i. (fst (snd (reqs ! i)), res i)) order" by auto
  then show ?case
    using E' r res
    by (intro exI [of _ "(E', rq, ctx) # sq"] exI [of _ "(rq, c, resp) # log"]) (auto, simp add: as_served_def)
qed simp

lemma concurrent_serial_in:
  assumes "sys_exec P h (s, map (serve_prog P J h) reqs) tr (s', ts)" and "list_all finished ts"
    and "\<And>i sn. (Access i, sn) \<in> set tr \<Longrightarrow> sn \<in> H i" and "\<And>i. \<exists>sn. sn \<in> H i"
  shows "\<exists>order sq log. linearizes tr (length reqs) order \<and> list_all2 (as_served H reqs) order sq \<and>
     run_service P J h sq (sh_stores s) = (log, sh_stores s') \<and>
     map (\<lambda>(rq, c, resp). (rq, resp, c)) log = map (\<lambda>i. (fst (snd (reqs ! i)), result_of (ts ! i))) order"
proof -
  have "list_all one_access (map (serve_prog P J h) reqs)"
    using serve_one_access by (auto simp: list_all_iff)
  with assms(3) obtain order where lin: "linearizes tr (length reqs) order"
    and ser: "serial h H (map (serve_prog P J h) reqs) (\<lambda>i. result_of (ts ! i)) order (sh_stores s) (sh_stores s')"
    using linearizable [OF assms(1), of H] assms(2) by auto
  from lin have "set order \<subseteq> {..<length reqs}" by (simp add: linearizes_def)
  from serial_service [OF assms(4) ser this] lin show ?thesis by blast
qed

lemma concurrent_serial:
  assumes "sys_exec P h (s, map (serve_prog P J h) reqs) tr (s', ts)" and "list_all finished ts"
  shows "\<exists>order sq log. linearizes tr (length reqs) order \<and> list_all2 (as_served (seen tr) reqs) order sq \<and>
     run_service P J h sq (sh_stores s) = (log, sh_stores s') \<and>
     map (\<lambda>(rq, c, resp). (rq, resp, c)) log = map (\<lambda>i. (fst (snd (reqs ! i)), result_of (ts ! i))) order"
  by (rule concurrent_serial_in [OF assms _ seen_nonempty]) (force simp: seen_def)

section \<open>Sequential runs as executions\<close>

lemma prog_run_total: "sn \<in> H \<Longrightarrow> \<exists>x b'. prog_run h H p b x b'"
proof (induction p arbitrary: b)
  case (TakeNonce t c f)
  obtain r b1 where "GetAndRemove (h_store h) t c b = (r, b1)" by fastforce
  moreover obtain x b' where "prog_run h H (f r) b1 x b'" using TakeNonce by blast
  ultimately show ?case by auto
next
  case (PutNonce t c n f)
  obtain e b1 where "Put (gen_store (h_generator h)) t c n b = (e, b1)" by fastforce
  moreover obtain x b' where "prog_run h H (f e) b1 x b'" using PutNonce by blast
  ultimately show ?case by auto
next
  case (Done x)
  show ?case by (intro exI, rule prog_run.ret)
next
  case (LoadTrust f)
  have "\<exists>x b'. prog_run h H (f sn) b x b'" by (rule LoadTrust.IH) (simp_all add: LoadTrust.prems)
  then obtain x b' where "prog_run h H (f sn) b x b'" by (elim exE)
  from prog_run.load [of sn H h f, OF LoadTrust.prems this] show ?case by (intro exI)
qed

lemma exec_run:
  "prog_run h {snap T} p b x b' \<Longrightarrow> i < length ts \<Longrightarrow> ts ! i = p \<Longrightarrow>
     \<exists>tr. sys_exec P h (\<lparr>sh_stores = b, sh_trust = T\<rparr>, ts) tr (\<lparr>sh_stores = b', sh_trust = T\<rparr>, ts[i := Done x]) \<and>
       snd ` set tr \<subseteq> {snap T}"
proof (induction arbitrary: ts rule: prog_run.induct)
  case (ret x b)
  then show ?case by (metis sys_exec.stop list_update_id empty_subsetI image_empty list.set(1))
next
  case (take t c b r b1 f x b2)
  from take.IH [of "ts[i := f r]"] take.prems obtain tr where
    "sys_exec P h (\<lparr>sh_stores = b1, sh_trust = T\<rparr>, ts[i := f r]) tr (\<lparr>sh_stores = b2, sh_trust = T\<rparr>, ts[i := Done x])"
    "snd ` set tr \<subseteq> {snap T}" by auto
  then show ?case
    using sys_exec.go [OF sys_step.request [of i ts h "\<lparr>sh_stores = b, sh_trust = T\<rparr>"]] take by fastforce
next
  case (put t c n b e b1 f x b2)
  from put.IH [of "ts[i := f e]"] put.prems obtain tr where
    "sys_exec P h (\<lparr>sh_stores = b1, sh_trust = T\<rparr>, ts[i := f e]) tr (\<lparr>sh_stores = b2, sh_trust = T\<rparr>, ts[i := Done x])"
    "snd ` set tr \<subseteq> {snap T}" by auto
  then show ?case
    using sys_exec.go [OF sys_step.request [of i ts h "\<lparr>sh_stores = b, sh_trust = T\<rparr>"]] put by fastforce
next
  case (load sn f b x b1)
  from load.IH [of "ts[i := f sn]"] load.prems obtain tr where
    "sys_exec P h (\<lparr>sh_stores = b, sh_trust = T\<rparr>, ts[i := f sn]) tr (\<lparr>sh_stores = b1, sh_trust = T\<rparr>, ts[i := Done x])"
    "snd ` set tr \<subseteq> {snap T}" by auto
  then show ?case
    using sys_exec.go [OF sys_step.request [of i ts h "\<lparr>sh_stores = b, sh_trust = T\<rparr>"]] load by fastforce
qed

text \<open>Serving requests one after another, all with one snapshot, is one of the executions.\<close>

lemma exec_service:
  "run_service P J h reqs b = (log, b') \<Longrightarrow> list_all (\<lambda>(E, rq, ctx). reads {snap T} E E) reqs \<Longrightarrow>
     \<exists>tr. sys_exec P h (\<lparr>sh_stores = b, sh_trust = T\<rparr>, over @ map (serve_prog P J h) reqs) tr
       (\<lparr>sh_stores = b', sh_trust = T\<rparr>, over @ map (\<lambda>(rq, c, resp). Done (resp, c)) log) \<and> snd ` set tr \<subseteq> {snap T}"
proof (induction reqs arbitrary: b log over)
  case Nil
  then show ?case by (metis (mono_tags) Pair_inject empty_subsetI image_empty list.set(1) list.simps(8) run_service.simps(1) sys_exec.stop)
next
  case (Cons r reqs)
  obtain E rq ctx resp c b1 log1 where r: "r = (E, rq, ctx)" and sv: "serve P J h E rq ctx b = (resp, c, b1)"
    and run: "run_service P J h reqs b1 = (log1, b')" and log: "log = (rq, c, resp) # log1"
    using Cons.prems(1) by (rule run_service_ConsE)
  have "\<exists>x b2. prog_run h {snap T} (serve_prog P J h (E, rq, ctx)) b x b2" by (rule prog_run_total) simp
  then obtain x b2 where x: "prog_run h {snap T} (serve_prog P J h (E, rq, ctx)) b x b2" by (elim exE)
  obtain resp1 c1 where rc: "x = (resp1, c1)" by fastforce
  obtain E' where "reads {snap T} E E'" "serve P J h E' rq ctx b = (resp1, c1, b2)"
    using serve_prog_run [OF x [unfolded rc]] by blast
  moreover from this(1) have "E' = E" using Cons.prems(2) r by (auto simp: reads_def)
  ultimately have "prog_run h {snap T} (serve_prog P J h (E, rq, ctx)) b (resp, c) b1" using sv x rc by simp
  from exec_run [OF this, of "length over" "over @ map (serve_prog P J h) (r # reqs)" P] obtain tr where
    tr: "sys_exec P h (\<lparr>sh_stores = b, sh_trust = T\<rparr>, over @ map (serve_prog P J h) (r # reqs)) tr
       (\<lparr>sh_stores = b1, sh_trust = T\<rparr>, (over @ [Done (resp, c)]) @ map (serve_prog P J h) reqs)" "snd ` set tr \<subseteq> {snap T}"
    by (auto simp: r)
  from Cons.IH [OF run, of "over @ [Done (resp, c)]"] Cons.prems(2) obtain tr' where
    tr': "sys_exec P h (\<lparr>sh_stores = b1, sh_trust = T\<rparr>, (over @ [Done (resp, c)]) @ map (serve_prog P J h) reqs) tr'
       (\<lparr>sh_stores = b', sh_trust = T\<rparr>, (over @ [Done (resp, c)]) @ map (\<lambda>(rq, c, resp). Done (resp, c)) log1)"
    "snd ` set tr' \<subseteq> {snap T}" by auto
  from exec_append [OF tr(1) tr'(1)] tr(2) tr'(2) show ?case
    by (intro exI [of _ "tr @ tr'"]) (simp add: log image_Un)
qed

section \<open>Logins against challenges\<close>

text \<open>A login answered with an identity, and a challenge request, in session \<open>k\<close>.\<close>

definition logged_in :: "string \<Rightarrow> http_request_in \<Rightarrow> reply \<Rightarrow> bool" where
  "logged_in k rq = (\<lambda>(resp, c). is_login rq \<and> request_key c = Inr k \<and> (\<exists>p. resp = JSONResponse p))"

definition challenged :: "string \<Rightarrow> http_request_in \<Rightarrow> reply \<Rightarrow> bool" where
  "challenged k rq = (\<lambda>(resp, c). is_challenge rq \<and> request_key c = Inr k)"

definition count_log :: "(http_request_in \<Rightarrow> reply \<Rightarrow> bool) \<Rightarrow> (http_request_in \<times> http_ctx \<times> payload response) list \<Rightarrow> nat" where
  "count_log Q log = length (filter (\<lambda>(rq, c, resp). Q rq (resp, c)) log)"

lemma count_log_simps [simp]:
  "count_log Q [] = 0"
  "count_log Q ((rq, c, resp) # log) = (if Q rq (resp, c) then 1 else 0) + count_log Q log"
  by (simp_all add: count_log_def)

lemma is_login_challenge: "is_login rq \<Longrightarrow> \<not> is_challenge rq"
  by (simp add: is_login_def is_challenge_def)

context login_service
begin

lemma serve_counts:
  assumes "invar s" and "serve P J h E rq ctx s = (resp, c, s')" and "fresh_ctx ctx"
  shows "(if logged_in k rq (resp, c) then 1 else 0) + (if holds s' k = None then 0 else 1)
     \<le> (if challenged k rq (resp, c) then 1 else (0 :: nat)) + (if holds s k = None then 0 else 1)"
proof (cases "logged_in k rq (resp, c)")
  case True
  then obtain p where p: "is_login rq" "request_key c = Inr k" "resp = JSONResponse p"
    by (auto simp: logged_in_def)
  then have "holds s' k = None" using login_takes [OF assms(1) _ _ assms(3)] assms(2) by blast
  moreover have "holds s k \<noteq> None" using login_needs_nonce [OF assms(1, 2) p(1) assms(3) p(2)] p(3) by blast
  ultimately show ?thesis using True by simp
next
  case False
  then show ?thesis using serve_keeps_none [OF assms(1, 2), of k] by (auto simp: challenged_def)
qed

lemma service_counts:
  "invar s \<Longrightarrow> run_service P J h rs s = (log, s') \<Longrightarrow> list_all (\<lambda>(E, rq, ctx). fresh_ctx ctx) rs \<Longrightarrow>
     count_log (logged_in k) log + (if holds s' k = None then 0 else 1)
       \<le> count_log (challenged k) log + (if holds s k = None then 0 else 1)"
proof (induction rs arbitrary: s log)
  case (Cons r rs)
  obtain E rq ctx resp c s1 log1 where r: "r = (E, rq, ctx)" and sv: "serve P J h E rq ctx s = (resp, c, s1)"
    and run: "run_service P J h rs s1 = (log1, s')" and log: "log = (rq, c, resp) # log1"
    using Cons.prems(2) by (rule run_service_ConsE)
  have "fresh_ctx ctx" "list_all (\<lambda>(E, rq, ctx). fresh_ctx ctx) rs" using Cons.prems(3) r by auto
  then show ?case
    using serve_counts [OF Cons.prems(1) sv, of k] Cons.IH [OF serve_invar [OF Cons.prems(1) sv] run]
    by (simp add: log)
qed simp

end

text \<open>The same count over the requests of an execution, by their results.\<close>

definition count_requests ::
  "(http_request_in \<Rightarrow> reply \<Rightarrow> bool) \<Rightarrow> (request_env \<times> http_request_in \<times> http_ctx) list \<Rightarrow> reply prog list \<Rightarrow> nat" where
  "count_requests Q reqs ts = card {i. i < length reqs \<and> Q (fst (snd (reqs ! i))) (result_of (ts ! i))}"

lemma count_order:
  assumes "distinct order" and "set order = {..<length reqs}"
    and "map (\<lambda>(rq, c, resp). (rq, resp, c)) log = map (\<lambda>i. (fst (snd (reqs ! i)), result_of (ts ! i))) order"
  shows "count_log Q log = count_requests Q reqs ts"
proof -
  have "count_log Q log = length (filter (\<lambda>(rq, r). Q rq r) (map (\<lambda>(rq, c, resp). (rq, resp, c)) log))"
    unfolding count_log_def filter_map length_map by (rule arg_cong [of _ _ length], rule filter_cong) auto
  also have "\<dots> = length (filter (\<lambda>i. Q (fst (snd (reqs ! i))) (result_of (ts ! i))) order)"
    unfolding assms(3) by (simp add: filter_map o_def)
  also have "\<dots> = card (set (filter (\<lambda>i. Q (fst (snd (reqs ! i))) (result_of (ts ! i))) order))"
    using assms(1) by (simp only: distinct_card distinct_filter)
  finally show ?thesis using assms(2) by (simp add: count_requests_def)
qed

lemma as_served_fresh:
  assumes "list_all2 (as_served H reqs) order sq" and "set order = {..<length reqs}"
    and "list_all (\<lambda>(E, rq, ctx). fresh_ctx ctx) reqs"
  shows "list_all (\<lambda>(E, rq, ctx). fresh_ctx ctx) sq"
proof -
  have "fresh_ctx ctx" if "k < length sq" "sq ! k = (E', rq, ctx)" for k E' rq ctx
  proof -
    have "as_served H reqs (order ! k) (sq ! k)" "k < length order"
      using list_all2_nthD2 [OF assms(1) that(1)] list_all2_lengthD [OF assms(1)] that(1) by auto
    moreover then have "order ! k < length reqs" using assms(2) nth_mem by blast
    ultimately show ?thesis using that(2) assms(3) by (fastforce simp: as_served_def list_all_length)
  qed
  then show ?thesis by (auto simp: list_all_length split: prod.split)
qed

context login_service
begin

lemma concurrent_counts:
  assumes "invar (sh_stores s)"
    and "sys_exec P h (s, map (serve_prog P J h) reqs) tr (s', ts)" and "list_all finished ts"
    and "list_all (\<lambda>(E, rq, ctx). fresh_ctx ctx) reqs"
  shows "count_requests (logged_in k) reqs ts + (if holds (sh_stores s') k = None then 0 else 1)
     \<le> count_requests (challenged k) reqs ts + (if holds (sh_stores s) k = None then 0 else 1)"
proof -
  obtain order sq log where lin: "linearizes tr (length reqs) order"
    and sq: "list_all2 (as_served (seen tr) reqs) order sq"
    and run: "run_service P J h sq (sh_stores s) = (log, sh_stores s')"
    and log: "map (\<lambda>(rq, c, resp). (rq, resp, c)) log = map (\<lambda>i. (fst (snd (reqs ! i)), result_of (ts ! i))) order"
    using concurrent_serial [OF assms(2, 3)] by blast
  have order: "distinct order" "set order = {..<length reqs}" using lin by (auto simp: linearizes_def)
  from service_counts [OF assms(1) run as_served_fresh [OF sq order(2) assms(4)], of k]
  show ?thesis by (simp add: count_order [OF order log])
qed

end

context redis_login_service
begin

lemma redis_concurrent_counts:
  assumes "sys_exec P h (s, map (serve_prog P Q h) reqs) tr (s', ts)" and "list_all finished ts"
    and "list_all (\<lambda>(E, rq, ctx). fresh_ctx ctx) reqs"
  shows "count_requests (logged_in k) reqs ts + (if redis_holds S content (be_external (sh_stores s')) k = None then 0 else 1)
     \<le> count_requests (challenged k) reqs ts + (if redis_holds S content (be_external (sh_stores s)) k = None then 0 else 1)"
  using logins.concurrent_counts [OF TrueI assms] .

end

section \<open>The contents of the in-process store\<close>

definition typed_state :: "'x backends \<Rightarrow> bool" where
  "typed_state s \<longleftrightarrow> sessionKey (be_memory s) = request_key \<and>
     (\<forall>k n. entries (be_memory s) k = Some n \<longrightarrow> typed_entry k n)"

lemma typed_put:
  assumes "typed_state s" and "typed_put c n" and "Put session_store t c n s = (e, s')"
  shows "typed_state s'"
proof -
  obtain k where k: "request_key c = Inr k" "typed_entry k n" using assms(2) by (auto simp: typed_put_def)
  show ?thesis
    using assms(1, 3) k
    by (auto simp: typed_state_def session_store_def lift_store_def memory_store_def InMemoryStore_Put_def
        sweepLocked_def Let_def split: option.splits if_splits)
qed

lemma typed_take:
  assumes "typed_state s" and "GetAndRemove session_store t c s = (r, s')"
  shows "typed_state s'"
  using assms
  by (auto simp: typed_state_def session_store_def lift_store_def memory_store_def InMemoryStore_GetAndRemove_def
      split: sum.splits option.splits if_splits)

lemma access_typed:
  assumes "h_store h = session_store" and "gen_store (h_generator h) = session_store"
    and "typed_state (sh_stores s)" and "puts_all typed_put p" and "access h p s = (p', s')"
  shows "typed_state (sh_stores s') \<and> puts_all typed_put p'"
  using assms typed_take typed_put by (cases p) (auto split: prod.splits, blast+)

lemma exec_typed:
  assumes "h_store h = session_store" and "gen_store (h_generator h) = session_store"
  shows "sys_exec P h x tr z \<Longrightarrow> typed_state (sh_stores (fst x)) \<Longrightarrow> list_all (puts_all typed_put) (snd x) \<Longrightarrow>
     typed_state (sh_stores (fst z))"
proof (induction rule: sys_exec.induct)
  case (go s ts e y tr z)
  from go.hyps(1) show ?case
  proof (cases rule: sys_step.cases)
    case (request i p s')
    have "typed_state (sh_stores s') \<and> puts_all typed_put p"
      by (rule access_typed [OF assms _ _ request(5)]) (use go.prems request in \<open>auto simp: list_all_length\<close>)
    then show ?thesis
      using go.IH go.prems request list_all_update [of "puts_all typed_put" ts p i] by simp
  next
    case reload
    then show ?thesis using go.IH go.prems by simp
  qed
qed

section \<open>Properties\<close>

text \<open>C6: Concurrent serving refines sequential serving: whatever way the accesses of concurrent requests
  and trust reloads interleave, all answers and the final store contents are those of serving the
  requests one after another. The order respects real time: a request that was over before another
  began comes first. Each request is served with trust snapshots that were in force at its own
  accesses.\<close>

theorem concurrent_linearizable:
  assumes "sys_exec P h (s, map (serve_prog P J h) reqs) tr (s', ts)" and "list_all finished ts"
  shows "\<exists>order sq log. distinct order \<and> set order = {..<length reqs} \<and>
     (\<forall>i j. over_before tr i j \<longrightarrow> precedes order i j) \<and>
     list_all2 (as_served (seen tr) reqs) order sq \<and>
     run_service P J h sq (sh_stores s) = (log, sh_stores s') \<and>
     map (\<lambda>(rq, c, resp). (rq, resp, c)) log = map (\<lambda>i. (fst (snd (reqs ! i)), result_of (ts ! i))) order"
  using concurrent_serial [OF assms] unfolding linearizes_def by blast

text \<open>Two logins of one session at the same time, over a store that holds one nonce for it.\<close>

definition sample_race :: "(request_env \<times> http_request_in \<times> http_ctx) list" where
  "sample_race = [(sample_env, sample_login, sample_ctx), (sample_env, sample_login, sample_ctx)]"

lemma sample_race_login: "i < length sample_race \<Longrightarrow> fst (snd (sample_race ! i)) = sample_login"
  by (auto simp: sample_race_def less_Suc_eq)

abbreviation sample_service :: "unit Handler" where
  "sample_service \<equiv> sample_handler session_store"

definition sample_shared :: "unit shared" where
  "sample_shared = \<lparr>sh_stores = sample_state (), sh_trust = \<lparr>snap = newTrustSnapshot [sample_cert [2]]\<rparr>\<rparr>"

abbreviation sample_requests :: "reply prog list" where
  "sample_requests \<equiv> map (serve_prog sample_ocsp sample_jose sample_service) sample_race"

lemma sample_finishes:
  "\<exists>tr s' ts. sys_exec sample_ocsp sample_service (sample_shared, sample_requests) tr (s', ts) \<and> list_all finished ts"
proof -
  have "list_all2 within sample_requests (replicate 2 3)"
    using serve_within by (auto simp: sample_race_def numeral_2_eq_2)
  from exec_finish [OF this] show ?thesis by fastforce
qed

theorem concurrent_linearizable_witness:
  "\<exists>tr s' ts order sq log.
     sys_exec sample_ocsp sample_service (sample_shared, sample_requests) tr (s', ts) \<and> list_all finished ts \<and>
     set order = {..<2} \<and>
     run_service sample_ocsp sample_jose sample_service sq (sample_state ()) = (log, sh_stores s') \<and>
     map (\<lambda>(rq, c, resp). (rq, resp, c)) log = map (\<lambda>i. (sample_login, result_of (ts ! i))) order"
proof -
  obtain tr s' ts where ex: "sys_exec sample_ocsp sample_service (sample_shared, sample_requests) tr (s', ts)"
    "list_all finished ts" using sample_finishes by blast
  from concurrent_linearizable [OF ex] obtain order sq log where
    set: "set order = {..<length sample_race}"
    and run: "run_service sample_ocsp sample_jose sample_service sq (sh_stores sample_shared) = (log, sh_stores s')"
    and log: "map (\<lambda>(rq, c, resp). (rq, resp, c)) log =
      map (\<lambda>i. (fst (snd (sample_race ! i)), result_of (ts ! i))) order" by blast
  have "map (\<lambda>i. (fst (snd (sample_race ! i)), result_of (ts ! i))) order = map (\<lambda>i. (sample_login, result_of (ts ! i))) order"
    by (rule map_cong) (use set sample_race_login in auto)
  moreover have "set order = {..<2}" using set by (simp add: sample_race_def)
  moreover have "sh_stores sample_shared = sample_state ()" by (simp add: sample_shared_def)
  ultimately show ?thesis
    using ex run log by (intro exI [of _ tr] exI [of _ s'] exI [of _ ts] exI [of _ order] exI [of _ sq] exI [of _ log]) simp
qed

text \<open>C7: However requests interleave, the in-process store allows no login without a challenge of its own:
  of all requests of an execution, at most as many log in to a session as challenges were requested
  for it, and one more if the store already held a nonce for it at the beginning.\<close>

theorem concurrent_logins_bounded:
  assumes "h_store h = session_store" and "gen_store (h_generator h) = session_store"
    and "sessionKey (be_memory (sh_stores s)) = request_key"
    and "sys_exec P h (s, map (serve_prog P J h) reqs) tr (s', ts)" and "list_all finished ts"
    and "list_all (\<lambda>(E, rq, ctx). fresh_ctx ctx) reqs"
  shows "count_requests (logged_in k) reqs ts
     \<le> count_requests (challenged k) reqs ts + (if entries (be_memory (sh_stores s)) k = None then 0 else 1)"
  using svc.concurrent_counts [of s P h J, unfolded in_process_id [OF assms(1, 2)], OF assms(3-6), of k]
  by linarith

theorem concurrent_logins_bounded_witness:
  "\<exists>tr s' ts. sys_exec sample_ocsp sample_service (sample_shared, sample_requests) tr (s', ts) \<and>
     list_all finished ts \<and> count_requests (logged_in ''AAAA'') sample_race ts \<le> 1"
proof -
  obtain tr s' ts where ex: "sys_exec sample_ocsp sample_service (sample_shared, sample_requests) tr (s', ts)"
    "list_all finished ts" using sample_finishes by blast
  have key: "sessionKey (be_memory (sh_stores sample_shared)) = request_key"
    by (simp add: sample_shared_def sample_state_def NewSessionStore_def NewInMemoryStore_def)
  have fresh: "list_all (\<lambda>(E, rq, ctx). fresh_ctx ctx) sample_race"
    using sample_key(2) by (simp add: sample_race_def)
  have "{i. i < length sample_race \<and> challenged ''AAAA'' (fst (snd (sample_race ! i))) (result_of (ts ! i))} = {}"
    using sample_race_login by (auto simp: challenged_def is_challenge_def sample_login_def split: prod.splits)
  then have none: "count_requests (challenged ''AAAA'') sample_race ts = 0" by (simp add: count_requests_def)
  from concurrent_logins_bounded [OF _ _ key ex fresh, of "''AAAA''"] none
  have "count_requests (logged_in ''AAAA'') sample_race ts \<le> 1" by (simp split: if_splits)
  then show ?thesis using ex by blast
qed

text \<open>The same for the Redis store, whatever the server does within its contract.\<close>

theorem concurrent_logins_bounded_redis:
  assumes "redis_contract (client S) content" and "whole_minutes Z" and "rs_sessionKey S = request_key"
    and "h_store h = external_store (redis_store Z S)" and "gen_store (h_generator h) = h_store h"
    and "sys_exec P h (s, map (serve_prog P J h) reqs) tr (s', ts)" and "list_all finished ts"
    and "list_all (\<lambda>(E, rq, ctx). fresh_ctx ctx) reqs"
  shows "count_requests (logged_in k) reqs ts
     \<le> count_requests (challenged k) reqs ts +
       (if redis_holds S content (be_external (sh_stores s)) k = None then 0 else 1)"
proof -
  have "redis_login_service S Z content h" using assms(1-5) by unfold_locales
  from redis_login_service.redis_concurrent_counts [OF this assms(6-8), of k] show ?thesis by linarith
qed



text \<open>C24: What the service keeps is well-formed at every moment: starting from the store \<^verbatim>\<open>NewSessionStore\<close>
  makes, whatever requests are in flight and however their accesses and reloads interleave, every
  key of the in-process store is a valid session identifier and every nonce in it is the base64 text
  of at least 32 bytes from the random source. The handler is one that \<^verbatim>\<open>New\<close> builds without another
  store.\<close>

theorem service_state_typed:
  assumes "New Q fs http reader (Some cfg) options = Some (Inr h)" and "h_config (with_options cfg options) = cfg"
    and "h_store (with_options cfg options) = session_store"
    and "\<forall>rd. full_reads (reader rd)" and "list_all (\<lambda>(E, rq, ctx). full_reads (re_session_rand E)) reqs"
    and "be_memory (sh_stores s) = NewSessionStore cfg"
    and "sys_exec P h (s, map (serve_prog P J h) reqs) tr (s', ts)"
    and "entries (be_memory (sh_stores s')) k = Some n"
  shows "validSessionID k \<and>
     (\<exists>buf. StdEncoding_DecodeString (Base64EncodedNonce n) = Some buf \<and> 32 \<le> length buf)"
proof -
  obtain trust where w: "wire Q http reader (with_options cfg options) trust = Inr h"
    using assms(1) by (auto simp: New_Inr)
  note wi = wire_Inr [OF w]
  have store: "h_store h = session_store" "gen_store (h_generator h) = session_store"
    using wi(1, 9) assms(3) by auto
  have "puts_all typed_put (serve_prog P J h r)" if "r \<in> set reqs" for r
    using that assms(4, 5) wi(9) by (cases r) (auto intro!: serve_typed simp: list_all_iff)
  then have "list_all (puts_all typed_put) (map (serve_prog P J h) reqs)" by (simp add: list_all_iff)
  moreover have "typed_state (sh_stores s)"
    by (simp add: typed_state_def assms(6) NewSessionStore_def NewInMemoryStore_def)
  ultimately have "typed_state (sh_stores s')"
    using exec_typed [OF store assms(7)] by simp
  then show ?thesis using assms(8) by (auto simp: typed_state_def typed_entry_def)
qed

lemma exec_single:
  assumes "\<not> finished p" and "access h p s = (p', s')"
  shows "sys_exec P h (s, [p]) [(Access 0, snap (sh_trust s))] (s', [p'])"
  using sys_exec.go [OF sys_step.request [of 0 "[p]"] sys_exec.stop] assms by fastforce

definition sample_challenge :: http_request_in where
  "sample_challenge = sample_login\<lparr>rq_Method := ''GET'', rq_Path := ''/auth/challenge''\<rparr>"

lemma sample_challenge_prog:
  assumes "h_config h = sample_config"
    and "h_generator h = \<lparr>gen_store = session_store, gen_nonceSize = 32, gen_random = (\<lambda>_. sample_rand)\<rparr>"
  shows "\<exists>f. serve_prog P J h (sample_env, sample_challenge, sample_ctx) =
     PutNonce (unix_time 60) sample_session
       \<lparr>Base64EncodedNonce = StdEncoding_EncodeToString (replicate 32 5), IssuedAt = unix_time 60\<rparr> f"
proof -
  have "serve_prog P J h (sample_env, sample_challenge, sample_ctx) = challenge_prog h sample_env sample_session"
    using sample_sid
    by (simp add: serve_prog_def route_of_def Bind_def sample_challenge_def sample_login_def EnsureSession_prog_def
        assms(1) sample_config_def sample_ctx_def sample_session_def Let_def)
  then show ?thesis by (simp add: challenge_prog_def assms(2) sample_env_def sample_rand_def Let_def)
qed

theorem service_state_typed_witness:
  "\<exists>(h :: unit Handler) tr s' ts k n.
     sys_exec sample_ocsp h (\<lparr>sh_stores = \<lparr>be_memory = NewSessionStore sample_config, be_external = ()\<rparr>,
         sh_trust = h_trust h\<rparr>, [serve_prog sample_ocsp sample_jose h (sample_env, sample_challenge, sample_ctx)])
       tr (s', ts) \<and>
     entries (be_memory (sh_stores s')) k = Some n \<and> validSessionID k"
proof -
  obtain h where h: "New sample_platform sample_fs sample_client (\<lambda>_. sample_rand) (Some sample_config)
      ([] :: unit Option list) = Some (Inr h)" using sample_New by blast
  have opts: "h_config (with_options sample_config ([] :: unit Option list)) = sample_config"
    "h_store (with_options sample_config ([] :: unit Option list)) = session_store"
    by (simp_all add: with_options_def)
  obtain trust where w: "wire sample_platform sample_client (\<lambda>_. sample_rand)
      (with_options sample_config ([] :: unit Option list)) trust = Inr h" using h by (auto simp: New_Inr)
  have fields: "h_config h = sample_config"
    "h_generator h = \<lparr>gen_store = session_store, gen_nonceSize = 32, gen_random = (\<lambda>_. sample_rand)\<rparr>"
    using wire_Inr(1, 9) [OF w] opts by auto
  let ?b = "\<lparr>be_memory = NewSessionStore sample_config, be_external = ()\<rparr>"
  let ?s = "\<lparr>sh_stores = ?b, sh_trust = h_trust h\<rparr>"
  let ?n = "\<lparr>Base64EncodedNonce = StdEncoding_EncodeToString (replicate 32 5), IssuedAt = unix_time 60\<rparr>"
  obtain f where f: "serve_prog sample_ocsp sample_jose h (sample_env, sample_challenge, sample_ctx) =
      PutNonce (unix_time 60) sample_session ?n f"
    using sample_challenge_prog [OF fields] by blast
  obtain p s' where a: "access h (PutNonce (unix_time 60) sample_session ?n f) ?s = (p, s')" by fastforce
  have put: "entries (be_memory (sh_stores s')) ''AAAA'' = Some ?n"
    using a sample_key(1)
    by (auto simp: fields session_store_def lift_store_def memory_store_def InMemoryStore_Put_def
        NewSessionStore_def NewInMemoryStore_def Let_def)
  have ex: "sys_exec sample_ocsp h (?s, map (serve_prog sample_ocsp sample_jose h) [(sample_env, sample_challenge, sample_ctx)])
      [(Access 0, snap (sh_trust ?s))] (s', [p])"
    using exec_single [OF _ a, of sample_ocsp] by (simp add: f)
  have reads: "\<forall>rd. full_reads ((\<lambda>_. sample_rand) rd)" "full_reads (re_session_rand sample_env)"
    by (auto simp: full_reads_def sample_rand_def sample_env_def)
  then have "validSessionID ''AAAA''"
    using service_state_typed [OF h opts reads(1) _ _ ex put] by simp
  then show ?thesis
    by - (intro exI conjI, rule ex [unfolded list.map], rule put, assumption)
qed

end
