(* ===== verification/Agreement.thy ===== *)
theory Agreement
  imports Concurrent
begin

text \<open>
  What a login stands for: every login answered with an identity belongs to a challenge of its own that was
  issued to the same session, in any interleaving of requests and reloads; and, given what signatures
  and hash functions promise, the holder of the certificate confirmed the nonce of that very challenge
  for an origin of the service.
\<close>

section \<open>The challenge behind a login\<close>

text \<open>The nonces a challenge request can draw with its reading of the random source.\<close>

definition drawn :: "'x Handler \<Rightarrow> request_env \<Rightarrow> string \<Rightarrow> bool" where
  "drawn h E n \<longleftrightarrow> (\<exists>buf. gen_random (h_generator h) (re_read E) (nat (gen_nonceSize (h_generator h))) = Inr buf \<and>
     n = StdEncoding_EncodeToString buf)"

text \<open>
  A request that issued the nonce \<open>m\<close> to session \<open>k\<close>. Where \<open>lossy\<close> holds, a store may keep a nonce and
  report an error, and then the nonce was not told to anybody.
\<close>

definition issues :: "bool \<Rightarrow> 'x Handler \<Rightarrow> string \<Rightarrow> ChallengeNonce \<Rightarrow> request_env \<Rightarrow> http_request_in \<Rightarrow> reply \<Rightarrow> bool" where
  "issues lossy h k m E rq = (\<lambda>(resp, c). is_challenge rq \<and> request_key c = Inr k \<and>
     drawn h E (Base64EncodedNonce m) \<and> IssuedAt m = re_now E \<and>
     (resp = JSONResponse (ChallengeResponse (Base64EncodedNonce m)) \<or> lossy \<and> (\<exists>e. resp = ErrorResponse e)))"

text \<open>A request that neither completes a challenge nor a login in session \<open>k\<close>.\<close>

definition idle :: "string \<Rightarrow> http_request_in \<Rightarrow> reply \<Rightarrow> bool" where
  "idle k rq = (\<lambda>(resp, c). \<not> ((is_challenge rq \<or> is_login rq) \<and> request_key c = Inr k \<and> (\<exists>p. resp = JSONResponse p)))"

text \<open>A login with a token that the validator accepts with \<open>cert\<close> for the nonce \<open>m\<close>, in time.\<close>

definition accepts ::
  "'a ocsp_platform_scheme \<Rightarrow> 'j jose_platform_scheme \<Rightarrow> 'x Handler \<Rightarrow> request_env \<Rightarrow> http_request_in \<Rightarrow> reply \<Rightarrow>
   ChallengeNonce \<Rightarrow> x509_cert \<Rightarrow> bool" where
  "accepts P J h E rq = (\<lambda>(resp, c) m cert. \<exists>req ctx. rq_Login rq = Inr req \<and>
     time_sub (re_now E) (IssuedAt m) \<le> cfg_NonceTTL (h_config h) \<and>
     Validate P (h_validator h) (re_run E) (Some (lr_AuthToken req)) (Base64EncodedNonce m) = Inr cert \<and>
     establish P J h E cert ctx = (resp, c))"

lemma challenge_cases:
  assumes "challenge h E ctx s = (resp, c, s')"
  obtains (none) "s' = s" "\<exists>e. resp = ErrorResponse e"
    | (put) m e where "c = ctx" "drawn h E (Base64EncodedNonce m)" "IssuedAt m = re_now E"
      "\<exists>buf. m = \<lparr>Base64EncodedNonce = StdEncoding_EncodeToString buf, IssuedAt = re_now E\<rparr>"
      "Put (gen_store (h_generator h)) (re_store_now E) ctx m s = (e, s')"
      "resp = (case e of None \<Rightarrow> JSONResponse (ChallengeResponse (Base64EncodedNonce m)) | Some err \<Rightarrow> ErrorResponse err)"
proof (cases "gen_random (h_generator h) (re_read E) (nat (gen_nonceSize (h_generator h)))")
  case (Inl err)
  then show ?thesis using assms none by (auto simp: challenge_def GenerateAndStoreNonce_def)
next
  case (Inr buf)
  let ?m = "\<lparr>Base64EncodedNonce = StdEncoding_EncodeToString buf, IssuedAt = re_now E\<rparr>"
  obtain e s1 where p: "Put (gen_store (h_generator h)) (re_store_now E) ctx ?m s = (e, s1)" by fastforce
  show ?thesis
    by (rule put [of ?m e])
      (use assms Inr p in \<open>auto simp: challenge_def GenerateAndStoreNonce_def drawn_def Let_def split: option.splits\<close>)
qed

lemma route_of_challenge:
  "is_challenge rq \<Longrightarrow> \<exists>r. route_of h rq = Some r \<and> rt_Session r \<and> rt_Endpoint r = EpChallenge"
  by (simp add: route_of_def Bind_def is_challenge_def)

lemma serve_challenge:
  assumes "serve P J h E rq ctx s = (resp, c, s')" and "is_challenge rq"
  obtains (refused) e where "resp = ErrorResponse e" "s' = s"
    | (served) ctx1 where "challenge h E ctx1 s = (resp, c, s')"
proof -
  obtain r where r: "route_of h rq = Some r" "rt_Session r" "rt_Endpoint r = EpChallenge"
    using route_of_challenge [OF assms(2)] by blast
  then have "EnsureSession P (h_config h) (re_session_rand E) (challenge h E) ctx s = (resp, c, s')"
    using assms(1) by (simp add: serve_def)
  then show ?thesis by (cases rule: EnsureSession_cases) (use refused served in auto)
qed

lemma serve_login_accepts:
  assumes "serve P J h E rq ctx s = (JSONResponse p, c, s')" and "is_login rq"
    and "fresh_ctx ctx" and "request_key c = Inr k"
  shows "\<exists>m cert ctx1. GetAndRemove (h_store h) (re_store_now E) ctx1 s = (Inr m, s') \<and> request_key ctx1 = Inr k \<and>
     accepts P J h E rq (JSONResponse p, c) m cert"
proof -
  obtain r where r: "route_of h rq = Some r" "rt_Session r" "rt_Endpoint r = EpLogin"
    using route_of_login [OF assms(2)] by blast
  then have "EnsureSession P (h_config h) (re_session_rand E) (login P J h E (rq_Login rq)) ctx s = (JSONResponse p, c, s')"
    using assms(1) by (simp add: serve_def)
  then show ?thesis
  proof (cases rule: EnsureSession_cases)
    case (passed ctx1 sid)
    then obtain req m cert where "rq_Login rq = Inr req"
      "GetAndRemove (h_store h) (re_store_now E) ctx1 s = (Inr m, s')"
      "\<not> Expired m (re_now E) (cfg_NonceTTL (h_config h))"
      "Validate P (h_validator h) (re_run E) (Some (lr_AuthToken req)) (Base64EncodedNonce m) = Inr cert"
      "establish P J h E cert ctx1 = (JSONResponse p, c)" by (auto simp: login_JSON)
    moreover from this(5) have "request_key ctx1 = Inr k"
      using establish_ctx [of P J h E cert ctx1] assms(4) by simp
    ultimately show ?thesis by (auto simp: accepts_def Expired_def not_less)
  qed auto
qed

text \<open>What a failed \<^verbatim>\<open>Put\<close> leaves: nothing new, unless the store is \<open>lossy\<close>.\<close>

definition put_errors ::
  "('c, 's) ChallengeNonceStore \<Rightarrow> ('s \<Rightarrow> string \<Rightarrow> ChallengeNonce option) \<Rightarrow> ('s \<Rightarrow> bool) \<Rightarrow> bool \<Rightarrow> bool" where
  "put_errors st holds invar lossy \<longleftrightarrow> (\<forall>s t c n e s' k m. invar s \<longrightarrow> Put st t c n s = (Some e, s') \<longrightarrow>
     holds s' k = Some m \<longrightarrow> holds s k = Some m \<or> lossy)"

lemma put_errors_True [simp]: "put_errors st holds invar True"
  by (simp add: put_errors_def)

context login_service
begin

lemma run_invar: "invar s \<Longrightarrow> run_service P J h rs s = (log, s') \<Longrightarrow> invar s'"
proof (induction rs arbitrary: s log)
  case (Cons r rs)
  then show ?case using serve_invar by (metis run_service_ConsE)
qed simp

lemma held_step:
  assumes "invar s" and "serve P J h E rq ctx s = (resp, c, s')" and "fresh_ctx ctx" and "put_errors (h_store h) holds invar lossy"
    and "holds s' k = Some m"
  shows "holds s k = Some m \<and> idle k rq (resp, c) \<or> issues lossy h k m E rq (resp, c)"
proof -
  consider (ch) "is_challenge rq" | (lg) p where "is_login rq" "request_key c = Inr k" "resp = JSONResponse p"
    | (other) "\<not> is_challenge rq" "idle k rq (resp, c)"
    by (auto simp: idle_def)
  then show ?thesis
  proof cases
    case ch
    from assms(2) ch show ?thesis
    proof (cases rule: serve_challenge)
      case (refused e)
      then show ?thesis using assms(5) by (simp add: idle_def)
    next
      case (served ctx1)
      then show ?thesis
      proof (cases rule: challenge_cases)
        case none
        then show ?thesis using assms(5) by (auto simp: idle_def)
      next
        case (put n e)
        then have ok: "storable n" and p: "Put (h_store h) (re_store_now E) c n s = (e, s')"
          using storable_b64 one_store by auto
        have was: "holds s k = Some m \<or> request_key c = Inr k \<and> m = n" using put_frame [OF assms(1) ok p assms(5)] .
        show ?thesis
        proof (cases e)
          case None
          then obtain k' where "request_key c = Inr k'" "holds s' k' = Some n"
            using put_stores [OF assms(1) ok] p by blast
          then show ?thesis using was put assms(5) ch None by (cases "k' = k") (auto simp: idle_def issues_def)
        next
          case (Some err)
          then have "holds s k = Some m \<or> lossy" using assms(1, 4, 5) p unfolding put_errors_def by blast
          then show ?thesis using was put ch Some by (auto simp: idle_def issues_def)
        qed
      qed
    qed
  next
    case lg
    then have "holds s' k = None" using login_takes [OF assms(1) _ lg(1) assms(3) lg(2)] assms(2) by blast
    then show ?thesis using assms(5) by simp
  next
    case other
    from serve_effect [OF assms(2)] show ?thesis
      using other assms(5) get_frame [OF assms(1) _ assms(5)] by blast
  qed
qed

text \<open>A nonce that is held at the end of a sequence was held all along, or issued by the last request that
  did something in its session.\<close>

lemma held_since:
  "invar s \<Longrightarrow> run_service P J h rs s = (log, s') \<Longrightarrow> list_all (\<lambda>(E, rq, ctx). fresh_ctx ctx) rs \<Longrightarrow>
     put_errors (h_store h) holds invar lossy \<Longrightarrow> holds s' k = Some m \<Longrightarrow>
     holds s k = Some m \<and> list_all (\<lambda>(rq, c, resp). idle k rq (resp, c)) log \<or>
     (\<exists>i E rq ctx c resp. i < length log \<and> rs ! i = (E, rq, ctx) \<and> log ! i = (rq, c, resp) \<and>
        issues lossy h k m E rq (resp, c) \<and> list_all (\<lambda>(rq, c, resp). idle k rq (resp, c)) (drop (Suc i) log))"
proof (induction rs arbitrary: s log)
  case (Cons r rs)
  obtain E rq ctx resp c s1 log1 where r: "r = (E, rq, ctx)" and sv: "serve P J h E rq ctx s = (resp, c, s1)"
    and run: "run_service P J h rs s1 = (log1, s')" and log: "log = (rq, c, resp) # log1"
    using Cons.prems(2) by (rule run_service_ConsE)
  have fresh: "fresh_ctx ctx" "list_all (\<lambda>(E, rq, ctx). fresh_ctx ctx) rs" using Cons.prems(3) r by auto
  from Cons.IH [OF serve_invar [OF Cons.prems(1) sv] run fresh(2) Cons.prems(4, 5)] show ?case
  proof (elim disjE conjE exE)
    assume "holds s1 k = Some m" and "list_all (\<lambda>(rq, c, resp). idle k rq (resp, c)) log1"
    then show ?thesis using held_step [OF Cons.prems(1) sv fresh(1) Cons.prems(4), of k m] r log by fastforce
  next
    fix i E' rq' ctx' c' resp'
    assume "i < length log1" "rs ! i = (E', rq', ctx')" "log1 ! i = (rq', c', resp')"
      "issues lossy h k m E' rq' (resp', c')" "list_all (\<lambda>(rq, c, resp). idle k rq (resp, c)) (drop (Suc i) log1)"
    then show ?thesis by (intro disjI2 exI [of _ "Suc i"]) (auto simp: log)
  qed
qed simp

text \<open>Each login of a sequence is behind the challenge it answers, with nothing of its session in between.\<close>

lemma log_agreement:
  assumes "invar s" and "run_service P J h rs s = (log, s')" and "list_all (\<lambda>(E, rq, ctx). fresh_ctx ctx) rs"
    and "put_errors (h_store h) holds invar lossy" and "holds s k = None"
    and "b < length log" and "log ! b = (rq, c, resp)" and "logged_in k rq (resp, c)"
  shows "\<exists>i E1 rq1 ctx1 c1 resp1 E ctx m cert. i < b \<and> rs ! i = (E1, rq1, ctx1) \<and> log ! i = (rq1, c1, resp1) \<and>
     issues lossy h k m E1 rq1 (resp1, c1) \<and> rs ! b = (E, rq, ctx) \<and> accepts P J h E rq (resp, c) m cert \<and>
     (\<forall>j rq c resp. i < j \<and> j < b \<and> log ! j = (rq, c, resp) \<longrightarrow> idle k rq (resp, c))"
proof -
  obtain p where p: "is_login rq" "request_key c = Inr k" "resp = JSONResponse p"
    using assms(8) by (auto simp: logged_in_def)
  obtain E ctx s1 s2 where pre: "run_service P J h (take b rs) s = (take b log, s1)"
    and sv: "serve P J h E rq ctx s1 = (resp, c, s2)" and rs: "rs ! b = (E, rq, ctx)" "b < length rs"
    using run_service_nth [OF assms(2, 6, 7)] by blast
  have fresh: "list_all (\<lambda>(E, rq, ctx). fresh_ctx ctx) (take b rs)" "fresh_ctx ctx"
    using assms(3) rs by (auto simp: list_all_length)
  from serve_login_accepts [OF sv [unfolded p(3)] p(1) fresh(2) p(2)] obtain m cert ctx0
    where get: "GetAndRemove (h_store h) (re_store_now E) ctx0 s1 = (Inr m, s2)" "request_key ctx0 = Inr k"
    and acc: "accepts P J h E rq (resp, c) m cert" using p(3) by blast
  have "invar s1" using run_invar [OF assms(1) pre] .
  then have "holds s1 k = Some m" using get_takes [OF _ get(1)] get(2) by auto
  from held_since [OF assms(1) pre fresh(1) assms(4) this] assms(5)
  obtain i E1 rq1 ctx1 c1 resp1 where i: "i < length (take b log)" "take b rs ! i = (E1, rq1, ctx1)"
    "take b log ! i = (rq1, c1, resp1)" "issues lossy h k m E1 rq1 (resp1, c1)"
    and rest: "list_all (\<lambda>(rq, c, resp). idle k rq (resp, c)) (drop (Suc i) (take b log))" by auto
  have "idle k rq (resp, c)" if "i < j" "j < b" "log ! j = (rq, c, resp)" for j rq c resp
  proof -
    have "(rq, c, resp) = drop (Suc i) (take b log) ! (j - Suc i)" "j - Suc i < length (drop (Suc i) (take b log))"
      using that assms(6) by auto
    then show ?thesis using rest by (metis (no_types, lifting) case_prod_conv list_all_length)
  qed
  then show ?thesis using i acc rs(1) by (intro exI [of _ i]) auto
qed

end

section \<open>Agreement in every interleaving\<close>

text \<open>The requests of an execution that log in to session \<open>k\<close>, and the snapshots in force while it ran.\<close>

definition logins :: "string \<Rightarrow> (request_env \<times> http_request_in \<times> http_ctx) list \<Rightarrow> reply prog list \<Rightarrow> nat set" where
  "logins k reqs ts = {i. i < length reqs \<and> logged_in k (fst (snd (reqs ! i))) (result_of (ts ! i))}"

definition in_force :: "'x shared \<Rightarrow> (event \<times> trustSnapshot) list \<Rightarrow> trustSnapshot set" where
  "in_force s tr = insert (snap (sh_trust s)) (snd ` set tr)"

lemma precedes_nth:
  assumes "distinct order" and "a < b" and "b < length order"
  shows "\<not> precedes order (order ! b) (order ! a)"
proof
  assume "precedes order (order ! b) (order ! a)"
  then obtain o1 o2 where o: "order = o1 @ order ! b # o2" "order ! a \<in> set o2" by (auto simp: precedes_def)
  then obtain d where "d < length o2" "order ! a = o2 ! d" by (metis in_set_conv_nth)
  then have d: "order ! a = order ! (Suc (length o1) + d)" "Suc (length o1) + d < length order"
    by (metis append_Cons append_assoc length_append_singleton nth_append_length_plus o(1) self_append_conv2,
        metis add_Suc_shift length_append length_Cons nat_add_left_cancel_less not_less_eq o(1) plus_nat.simps(2))
  have "order ! b = order ! length o1" "length o1 < length order"
    by (metis nth_append_length o(1), metis length_append length_Cons less_add_Suc1 o(1) add_Suc_right)
  then show False using d assms nth_eq_iff_index_eq [OF assms(1)] by fastforce
qed

text \<open>If each element of \<open>L\<close> comes after something it is related to, with no other element of \<open>L\<close> in between,
  then different elements have different partners.\<close>

lemma partners:
  assumes "distinct order"
    and "\<And>i. i \<in> L \<Longrightarrow> \<exists>a b. a < b \<and> b < length order \<and> order ! b = i \<and> Q i (order ! a) \<and>
      (\<forall>x. a < x \<and> x < b \<longrightarrow> order ! x \<notin> L)"
  shows "\<exists>f. inj_on f L \<and> (\<forall>i \<in> L. f i \<in> set order \<and> \<not> precedes order i (f i) \<and> Q i (f i))"
proof -
  obtain a b where ab: "\<And>i. i \<in> L \<Longrightarrow> a i < b i \<and> b i < length order \<and> order ! b i = i \<and> Q i (order ! a i) \<and>
      (\<forall>x. a i < x \<and> x < b i \<longrightarrow> order ! x \<notin> L)"
    using assms(2) by metis
  have "inj_on (\<lambda>i. order ! a i) L"
  proof (rule inj_onI)
    fix i j assume ij: "i \<in> L" "j \<in> L" "order ! a i = order ! a j"
    then have "a i = a j" using ab assms(1) by (metis less_trans nth_eq_iff_index_eq)
    then have "\<not> b i < b j" "\<not> b j < b i" using ab ij by metis+
    then show "i = j" using ab ij by (metis linorder_neqE_nat)
  qed
  moreover have "order ! a i \<in> set order \<and> \<not> precedes order i (order ! a i) \<and> Q i (order ! a i)" if "i \<in> L" for i
    using ab [OF that] precedes_nth [OF assms(1), of "a i" "b i"] by auto
  ultimately show ?thesis by blast
qed

context login_service
begin

lemma order_agreement:
  assumes "invar s" and "holds s k = None" and "put_errors (h_store h) holds invar lossy"
    and "run_service P J h sq s = (log, s')" and "set order = {..<length reqs}"
    and "list_all (\<lambda>(E, rq, ctx). fresh_ctx ctx) reqs" and "list_all2 (as_served (\<lambda>i. H) reqs) order sq"
    and "map (\<lambda>(rq, c, resp). (rq, resp, c)) log = map (\<lambda>i. (fst (snd (reqs ! i)), result_of (ts ! i))) order"
    and "i \<in> logins k reqs ts"
  shows "\<exists>a b. a < b \<and> b < length order \<and> order ! b = i \<and>
     (\<exists>m cert E. issues lossy h k m (fst (reqs ! (order ! a))) (fst (snd (reqs ! (order ! a)))) (result_of (ts ! (order ! a))) \<and>
        reads H (fst (reqs ! i)) E \<and> accepts P J h E (fst (snd (reqs ! i))) (result_of (ts ! i)) m cert) \<and>
     (\<forall>x. a < x \<and> x < b \<longrightarrow> order ! x \<notin> logins k reqs ts)"
proof -
  have len: "length log = length order" using arg_cong [OF assms(8), of length] by simp
  have at: "fst (snd (reqs ! (order ! b))) = rq" "result_of (ts ! (order ! b)) = (resp, c)"
    if "b < length order" "log ! b = (rq, c, resp)" for b rq c resp
    using arg_cong [OF assms(8), of "\<lambda>xs. xs ! b"] that len by auto
  have env: "reads H (fst (reqs ! (order ! b))) E" if "b < length order" "sq ! b = (E, rq, ctx)" for b E rq ctx
    using list_all2_nthD [OF assms(7) that(1)] that(2) by (auto simp: as_served_def)
  have "i \<in> set order" using assms(5, 9) by (simp add: logins_def)
  then obtain b where b: "b < length order" "order ! b = i" by (metis in_set_conv_nth)
  obtain rq c resp where lb: "log ! b = (rq, c, resp)" by (cases "log ! b")
  then have "logged_in k rq (resp, c)" using assms(9) at [OF b(1) lb] b(2) by (simp add: logins_def)
  from log_agreement [OF assms(1, 4) as_served_fresh [OF assms(7, 5, 6)] assms(3, 2) _ lb this] b(1) len
  obtain a E1 rq1 ctx1 c1 resp1 E ctx m cert where a: "a < b" "sq ! a = (E1, rq1, ctx1)" "log ! a = (rq1, c1, resp1)"
    and iss: "issues lossy h k m E1 rq1 (resp1, c1)" and E: "sq ! b = (E, rq, ctx)"
    and acc: "accepts P J h E rq (resp, c) m cert"
    and idle: "\<forall>j rq c resp. a < j \<and> j < b \<and> log ! j = (rq, c, resp) \<longrightarrow> idle k rq (resp, c)" by auto
  have al: "a < length order" using a(1) b(1) by simp
  have "issues lossy h k m (fst (reqs ! (order ! a))) rq1 (resp1, c1)"
    using iss reads_same [OF env [OF al a(2)]] by (simp add: issues_def drawn_def)
  moreover have "order ! x \<notin> logins k reqs ts" if "a < x" "x < b" for x
  proof -
    obtain rq c resp where lx: "log ! x = (rq, c, resp)" by (cases "log ! x")
    moreover have "x < length order" using that b(1) by simp
    moreover have "idle k rq (resp, c)" using idle that lx by blast
    ultimately show ?thesis
      using at [of x rq c resp] by (auto simp: logins_def idle_def logged_in_def)
  qed
  moreover have "reads H (fst (reqs ! i)) E" using env [OF b(1) E] b(2) by simp
  ultimately show ?thesis
    using a(1) b acc at [OF b(1) lb] at [OF al a(3)]
    by - (rule exI [of _ a], rule exI [of _ b], intro conjI exI [of _ m] exI [of _ cert] exI [of _ E], simp_all)
qed

lemma concurrent_agreement:
  assumes "invar (sh_stores s)" and "holds (sh_stores s) k = None" and "put_errors (h_store h) holds invar lossy"
    and "sys_exec P h (s, map (serve_prog P J h) reqs) tr (s', ts)" and "list_all finished ts"
    and "list_all (\<lambda>(E, rq, ctx). fresh_ctx ctx) reqs"
  shows "\<exists>f. inj_on f (logins k reqs ts) \<and> (\<forall>i \<in> logins k reqs ts. f i < length reqs \<and> \<not> over_before tr i (f i) \<and>
     (\<exists>m cert E. issues lossy h k m (fst (reqs ! f i)) (fst (snd (reqs ! f i))) (result_of (ts ! f i)) \<and>
        reads (in_force s tr) (fst (reqs ! i)) E \<and>
        accepts P J h E (fst (snd (reqs ! i))) (result_of (ts ! i)) m cert))"
proof -
  have H: "\<And>i sn. (Access i, sn) \<in> set tr \<Longrightarrow> sn \<in> in_force s tr" "\<And>i :: nat. \<exists>sn. sn \<in> in_force s tr"
    by (force simp: in_force_def)+
  obtain order sq log where lin: "linearizes tr (length reqs) order"
    and sq: "list_all2 (as_served (\<lambda>i. in_force s tr) reqs) order sq"
    and run: "run_service P J h sq (sh_stores s) = (log, sh_stores s')"
    and log: "map (\<lambda>(rq, c, resp). (rq, resp, c)) log = map (\<lambda>i. (fst (snd (reqs ! i)), result_of (ts ! i))) order"
    using concurrent_serial_in [OF assms(4, 5), of "\<lambda>i. in_force s tr"] H by blast
  have order: "distinct order" "set order = {..<length reqs}" "\<And>i j. over_before tr i j \<Longrightarrow> precedes order i j"
    using lin by (auto simp: linearizes_def)
  define Q where "Q i j \<longleftrightarrow> (\<exists>m cert E. issues lossy h k m (fst (reqs ! j)) (fst (snd (reqs ! j))) (result_of (ts ! j)) \<and>
      reads (in_force s tr) (fst (reqs ! i)) E \<and> accepts P J h E (fst (snd (reqs ! i))) (result_of (ts ! i)) m cert)" for i j
  have "\<exists>a b. a < b \<and> b < length order \<and> order ! b = i \<and> Q i (order ! a) \<and>
      (\<forall>x. a < x \<and> x < b \<longrightarrow> order ! x \<notin> logins k reqs ts)" if "i \<in> logins k reqs ts" for i
    unfolding Q_def
    by (rule order_agreement [OF assms(1-3) run order(2) assms(6) sq log that])
  from partners [OF order(1) this] obtain f where "inj_on f (logins k reqs ts)"
    "\<forall>i \<in> logins k reqs ts. f i \<in> set order \<and> \<not> precedes order i (f i) \<and> Q i (f i)" by blast
  moreover then have "\<forall>i \<in> logins k reqs ts. f i < length reqs \<and> \<not> over_before tr i (f i)"
    using order(2, 3) by blast
  ultimately show ?thesis unfolding Q_def by (intro exI [of _ f]) blast
qed

end

section \<open>The confirmation of the holder\<close>

text \<open>
  What is signed for a token. A certificate's holder confirms pairs of an origin and a nonce; a signature
  verifies only over the digest of a confirmed pair. Digests have their size, and the strings in play do not
  collide.
\<close>

definition token_data :: "'a platform_scheme \<Rightarrow> crypto_hash \<Rightarrow> string \<Rightarrow> string \<Rightarrow> bytes" where
  "token_data P hf origin n = hash_sum P hf (bytes_of origin) @ hash_sum P hf (bytes_of n)"

definition confirms :: "'a platform_scheme \<Rightarrow> x509_cert \<Rightarrow> (string \<times> string) set \<Rightarrow> bool" where
  "confirms P cert C \<longleftrightarrow> (\<forall>alg hf data sig. jwaToHash alg = Some hf \<and> Verify P cert alg data sig = None \<longrightarrow>
     (\<exists>(origin, n) \<in> C. hash_sum P hf data = hash_sum P hf (token_data P hf origin n)))"

text \<open>The certificate authorities of a snapshot certify only keys of such holders.\<close>

definition card_holders :: "'a platform_scheme \<Rightarrow> (x509_cert \<Rightarrow> (string \<times> string) set) \<Rightarrow> trustSnapshot \<Rightarrow> bool" where
  "card_holders P C sn \<longleftrightarrow>
     (\<forall>cert t. chain_Verify P cert (pool sn) t [ExtKeyUsageClientAuth] = None \<longrightarrow> confirms P cert (C cert))"

definition hash_sizes :: "'a platform_scheme \<Rightarrow> bool" where
  "hash_sizes P \<longleftrightarrow> (\<forall>hf x. length (hash_sum P hf x) = hash_Size hf)"

definition in_play :: "'a platform_scheme \<Rightarrow> crypto_hash \<Rightarrow> (string \<times> string) set \<Rightarrow> bytes set" where
  "in_play P hf C = (\<Union>(origin, n) \<in> C. {bytes_of origin, bytes_of n, token_data P hf origin n})"

definition no_collision :: "'a platform_scheme \<Rightarrow> (string \<times> string) set \<Rightarrow> bool" where
  "no_collision P C \<longleftrightarrow> (\<forall>hf. inj_on (hash_sum P hf) (in_play P hf C))"

lemma token_data_inject:
  assumes "hash_sizes P" and "no_collision P C" and "(o1, n1) \<in> C" and "(o2, n2) \<in> C"
    and "hash_sum P hf (token_data P hf o1 n1) = hash_sum P hf (token_data P hf o2 n2)"
  shows "o1 = o2 \<and> n1 = n2"
proof -
  have play: "{bytes_of x, bytes_of y, token_data P hf x y} \<subseteq> in_play P hf C" if "(x, y) \<in> C" for x y
    using that by (auto simp: in_play_def)
  have inj: "inj_on (hash_sum P hf) (in_play P hf C)" using assms(2) by (simp add: no_collision_def)
  have "token_data P hf o1 n1 = token_data P hf o2 n2"
    using inj_onD [OF inj assms(5)] play [OF assms(3)] play [OF assms(4)] by blast
  then have "hash_sum P hf (bytes_of o1) = hash_sum P hf (bytes_of o2)"
    "hash_sum P hf (bytes_of n1) = hash_sum P hf (bytes_of n2)"
    using assms(1) by (simp_all add: token_data_def hash_sizes_def)
  then have "bytes_of o1 = bytes_of o2" "bytes_of n1 = bytes_of n2"
    using inj_onD [OF inj] play [OF assms(3)] play [OF assms(4)] by blast+
  then show ?thesis by simp
qed

text \<open>An accepted token: its holder confirmed the nonce for an origin of the service.\<close>

lemma Validate_confirmed:
  assumes "Validate P v R (Some t) n = Inr cert" and "card_holders P C (verify_snap R)"
    and "hash_sizes P" and "no_collision P A" and "C cert \<union> set (origins v) \<times> {n} \<subseteq> A"
  shows "\<exists>origin \<in> set (origins v). (origin, n) \<in> C cert"
proof -
  from assms(1) have chain: "chain_Verify P cert (pool (verify_snap R)) (run_now R) [ExtKeyUsageClientAuth] = None"
    and "signed_for_site P v t cert n" by (simp_all add: Validate_Inr TrustStore_Verify_None)
  then obtain hf sig origin where sig: "jwaToHash (Algorithm t) = Some hf" "origin \<in> set (origins v)"
    "Verify P cert (Algorithm t) (token_data P hf origin n) sig = None"
    by (auto simp: signed_for_site_def token_data_def)
  have "confirms P cert (C cert)" using chain assms(2) by (auto simp: card_holders_def)
  then obtain o1 n1 where "(o1, n1) \<in> C cert"
    "hash_sum P hf (token_data P hf origin n) = hash_sum P hf (token_data P hf o1 n1)"
    using sig unfolding confirms_def by blast
  moreover from this(1) have "(o1, n1) \<in> A" "(origin, n) \<in> A" using assms(5) sig(2) by auto
  ultimately show ?thesis using token_data_inject [OF assms(3, 4), of origin n o1 n1 hf] sig(2) by auto
qed

section \<open>Confirmed logins\<close>

text \<open>The nonces that the requests of an execution can draw, with the origins of the service.\<close>

definition challenge_pairs :: "'x Handler \<Rightarrow> (request_env \<times> http_request_in \<times> http_ctx) list \<Rightarrow> (string \<times> string) set" where
  "challenge_pairs h reqs = set (origins (h_validator h)) \<times> {n. \<exists>E \<in> fst ` set reqs. drawn h E n}"

text \<open>Request \<open>j\<close> is a challenge of session \<open>k\<close>, and request \<open>i\<close> a login in time with a certificate whose holder
  confirmed the nonce of \<open>j\<close> for an origin of the service.\<close>

definition answers where
  "answers lossy P h C k reqs ts i j \<longleftrightarrow> (\<exists>n cert origin resp c. is_challenge (fst (snd (reqs ! j))) \<and>
     result_of (ts ! j) = (resp, c) \<and> request_key c = Inr k \<and> drawn h (fst (reqs ! j)) n \<and>
     (resp = JSONResponse (ChallengeResponse n) \<or> lossy \<and> (\<exists>e. resp = ErrorResponse e)) \<and>
     time_sub (re_now (fst (reqs ! i))) (re_now (fst (reqs ! j))) \<le> cfg_NonceTTL (h_config h) \<and>
     origin \<in> set (origins (h_validator h)) \<and> (origin, n) \<in> C cert \<and>
     ctx_User (snd (result_of (ts ! i))) = Some (user_claims (tables P) (subjectFromCertificate cert)))"

lemma issued_answers:
  assumes "issues lossy h k m (fst (reqs ! j)) (fst (snd (reqs ! j))) (result_of (ts ! j))"
    and "reads H (fst (reqs ! i)) E" and "j < length reqs" and "i \<in> logins k reqs ts"
    and "accepts P J h E (fst (snd (reqs ! i))) (result_of (ts ! i)) m cert"
    and "\<forall>sn \<in> H. card_holders P C sn" and "hash_sizes P"
    and "no_collision P ((\<Union>cert. C cert) \<union> challenge_pairs h reqs)"
  shows "answers lossy P h C k reqs ts i j"
proof -
  obtain p c where res: "result_of (ts ! i) = (JSONResponse p, c)" using assms(4) by (auto simp: logins_def logged_in_def)
  from assms(5) [unfolded accepts_def res prod.case] obtain req :: LoginRequest and ctx where
    v: "Validate P (h_validator h) (re_run E) (Some (lr_AuthToken req)) (Base64EncodedNonce m) = Inr cert"
    and t: "time_sub (re_now E) (IssuedAt m) \<le> cfg_NonceTTL (h_config h)"
    and est: "establish P J h E cert ctx = (JSONResponse p, c)"
    by (elim exE conjE) (rule that)
  have "drawn h (fst (reqs ! j)) (Base64EncodedNonce m)" using assms(1) by (auto simp: issues_def)
  then have "C cert \<union> set (origins (h_validator h)) \<times> {Base64EncodedNonce m} \<subseteq> (\<Union>cert. C cert) \<union> challenge_pairs h reqs"
    using nth_mem [OF assms(3)] by (auto simp: challenge_pairs_def)
  moreover have "card_holders P C (verify_snap (re_run E))" using assms(2, 6) by (auto simp: reads_def)
  ultimately obtain origin where "origin \<in> set (origins (h_validator h))" "(origin, Base64EncodedNonce m) \<in> C cert"
    using Validate_confirmed [OF v _ assms(7, 8)] by blast
  moreover have "ctx_User c = Some (user_claims (tables P) (subjectFromCertificate cert))"
    using est by (auto simp: establish_JSON)
  moreover have "re_now E = re_now (fst (reqs ! i))" using reads_same [OF assms(2)] by simp
  ultimately show ?thesis
    using assms(1) t res unfolding answers_def
    by (intro exI [of _ "Base64EncodedNonce m"] exI [of _ cert] exI [of _ origin]) (auto simp: issues_def)
qed

context login_service
begin

lemma confirmed_agreement:
  assumes "invar (sh_stores s)" and "holds (sh_stores s) k = None" and "put_errors (h_store h) holds invar lossy"
    and "sys_exec P h (s, map (serve_prog P J h) reqs) tr (s', ts)" and "list_all finished ts"
    and "list_all (\<lambda>(E, rq, ctx). fresh_ctx ctx) reqs"
    and "\<forall>sn \<in> in_force s tr. card_holders P C sn" and "hash_sizes P"
    and "no_collision P ((\<Union>cert. C cert) \<union> challenge_pairs h reqs)"
  shows "\<exists>f. inj_on f (logins k reqs ts) \<and> (\<forall>i \<in> logins k reqs ts. f i < length reqs \<and> \<not> over_before tr i (f i) \<and>
     answers lossy P h C k reqs ts i (f i))"
  using concurrent_agreement [OF assms(1-6)] issued_answers [OF _ _ _ _ _ assms(7-9)] by metis

end

context redis_login_service
begin

lemma redis_agreement:
  assumes "redis_holds S content (be_external (sh_stores s)) k = None"
    and "sys_exec P h (s, map (serve_prog P Q h) reqs) tr (s', ts)" and "list_all finished ts"
    and "list_all (\<lambda>(E, rq, ctx). fresh_ctx ctx) reqs"
    and "\<forall>sn \<in> in_force s tr. card_holders P C sn" and "hash_sizes P"
    and "no_collision P ((\<Union>cert. C cert) \<union> challenge_pairs h reqs)"
  shows "\<exists>f. inj_on f (logins k reqs ts) \<and> (\<forall>i \<in> logins k reqs ts. f i < length reqs \<and> \<not> over_before tr i (f i) \<and>
     answers True P h C k reqs ts i (f i))"
  using logins.confirmed_agreement [OF TrueI assms(1) put_errors_True assms(2-7)] .

end

section \<open>A sample card\<close>

definition card_hash :: "crypto_hash \<Rightarrow> bytes \<Rightarrow> bytes" where
  "card_hash hf d = of_nat (length d) # replicate (hash_Size hf - 1) 0"

definition card_check :: "rsa_public \<Rightarrow> crypto_hash \<Rightarrow> bytes \<Rightarrow> bytes \<Rightarrow> goerror option" where
  "card_check k hf d sig = (if d = card_hash hf (replicate (2 * hash_Size hf) 0) then None
     else Some (ErrorString ''rsa: verification error''))"

definition card_platform :: ocsp_platform where
  "card_platform = sample_ocsp\<lparr>hash_sum := card_hash, rsa_VerifyPSS := card_check, rsa_VerifyPKCS1v15 := card_check,
     chain_Verify := (\<lambda>cert pool t kus. if cert = sample_cert [1] then None
       else Some (ErrorString ''x509: certificate signed by unknown authority''))\<rparr>"

definition card_nonce :: string where
  "card_nonce = StdEncoding_EncodeToString (replicate 32 5)"

definition card_confirmed :: "x509_cert \<Rightarrow> (string \<times> string) set" where
  "card_confirmed cert = (if cert = sample_cert [1] then {(''https://app.test'', card_nonce)} else {})"

lemma card_nonce_length: "length card_nonce = 44"
  unfolding card_nonce_def by code_simp

lemma card_hash_size: "length (card_hash hf d) = hash_Size hf"
  by (cases hf) (simp_all add: card_hash_def)

lemma card_platform_fields [simp]:
  "hash_sum card_platform = card_hash" "rsa_VerifyPSS card_platform = card_check"
  "rsa_VerifyPKCS1v15 card_platform = card_check" "tables card_platform = sample_unicode"
  "ParseCertificate card_platform = sample_parse"
  "chain_Verify card_platform cert pl t kus = None \<longleftrightarrow> cert = sample_cert [1]"
  by (simp_all add: card_platform_def)

lemma card_token_length: "length (token_data card_platform hf x y) = 2 * hash_Size hf"
  by (simp add: token_data_def card_hash_size)

lemma card_assumptions:
  "card_holders card_platform card_confirmed sn" "hash_sizes card_platform"
  "no_collision card_platform {(''https://app.test'', card_nonce)}"
proof -
  have "hash_sum card_platform hf data = hash_sum card_platform hf (token_data card_platform hf x y)"
    if "jwaToHash alg = Some hf" "Verify card_platform (sample_cert [1]) alg data sig = None" for alg hf data sig x y
  proof -
    have "card_hash hf data = card_hash hf (replicate (2 * hash_Size hf) 0)"
      using that by (auto simp: Verify_None sample_cert_def card_check_def split: if_splits)
    then show ?thesis by (simp add: card_hash_def card_token_length)
  qed
  then have "confirms card_platform (sample_cert [1]) (card_confirmed (sample_cert [1]))"
    unfolding confirms_def card_confirmed_def by fastforce
  then show "card_holders card_platform card_confirmed sn" by (simp add: card_holders_def)
  show "hash_sizes card_platform" by (simp add: hash_sizes_def card_hash_size)
  have "inj_on (card_hash hf) {bytes_of ''https://app.test'', bytes_of card_nonce,
      token_data card_platform hf ''https://app.test'' card_nonce}" for hf
    by (cases hf) (auto simp: inj_on_def card_hash_def card_token_length card_nonce_length)
  then show "no_collision card_platform {(''https://app.test'', card_nonce)}"
    by (simp add: no_collision_def in_play_def)
qed

definition card_token :: AuthToken where
  "card_token = (sample_token card_nonce)\<lparr>tok_Signature := StdEncoding_EncodeToString [1]\<rparr>"

definition card_validator :: authTokenValidator where
  "card_validator = sample_validator\<lparr>ocspEnabled := False\<rparr>"

lemma card_Validate:
  "Validate card_platform card_validator R (Some card_token) card_nonce = Inr (sample_cert [1])" if "run_now R = unix_time 60"
proof -
  have "length card_nonce \<noteq> 0" by (simp add: card_nonce_length)
  then have "card_nonce \<noteq> []" by blast
  moreover have "signed_for_site card_platform card_validator card_token (sample_cert [1]) card_nonce"
    unfolding signed_for_site_def
    by (intro exI [of _ SHA256] exI [of _ "[1]"] exI [of _ "''https://app.test''"])
      (simp add: card_token_def card_validator_def sample_token_def sample_validator_def std64.dec_enc Verify_None
        sample_cert_def card_check_def HasPrefix_def jwaToHash_def card_hash_def hash_Size.simps)
  ultimately show ?thesis
    using sample_checks that
    by (simp add: Validate_Inr TrustStore_Verify_None card_validator_def card_token_def sample_token_cert sample_parse_def
        sample_run_def sample_validator_def sample_token_def std64.dec_enc sample_cert_def)
qed

definition card_handler :: "(http_ctx, 'x backends) ChallengeNonceStore \<Rightarrow> 'x Handler" where
  "card_handler st = (sample_handler st)\<lparr>h_assertionIssuer := None, h_validator := card_validator\<rparr>"

definition card_requests :: "(request_env \<times> http_request_in \<times> http_ctx) list" where
  "card_requests = [(sample_env, sample_challenge, sample_ctx),
     (sample_env, sample_login\<lparr>rq_Login := Inr \<lparr>lr_AuthToken = card_token\<rparr>\<rparr>, sample_ctx)]"

lemma card_handler_fields [simp]:
  "h_store (card_handler st) = st" "gen_store (h_generator (card_handler st)) = st"
  "h_assertionIssuer (card_handler st) = None" "h_validator (card_handler st) = card_validator"
  "h_config (card_handler st) = sample_config"
  "h_generator (card_handler st) = \<lparr>gen_store = st, gen_nonceSize = 32, gen_random = (\<lambda>_. sample_rand)\<rparr>"
  by (simp_all add: card_handler_def sample_handler_def handler_base.defs Handler.defs)

lemma card_drawn: "drawn (card_handler st) E n \<longleftrightarrow> n = card_nonce"
  by (simp add: drawn_def sample_rand_def card_nonce_def)

lemma card_pairs: "challenge_pairs (card_handler st) card_requests = {(''https://app.test'', card_nonce)}"
  by (auto simp: challenge_pairs_def card_drawn card_requests_def card_validator_def sample_validator_def)

text \<open>The challenge and the login, over a store that keeps the nonce.\<close>

lemma card_run:
  assumes "Put st (unix_time 60) sample_session \<lparr>Base64EncodedNonce = card_nonce, IssuedAt = unix_time 60\<rparr> s = (None, s1)"
    and "GetAndRemove st (unix_time 60) sample_session s1 = (Inr \<lparr>Base64EncodedNonce = card_nonce, IssuedAt = unix_time 60\<rparr>, s2)"
  shows "\<exists>log p c. run_service card_platform sample_jose (card_handler st) card_requests s = (log, s2) \<and>
     log = [(sample_challenge, sample_session, JSONResponse (ChallengeResponse card_nonce)),
       (fst (snd (card_requests ! 1)), c, JSONResponse p)] \<and> request_key c = Inr ''AAAA''"
proof -
  let ?h = "card_handler st"
  let ?rq = "fst (snd (card_requests ! 1))"
  have one: "serve card_platform sample_jose ?h sample_env sample_challenge sample_ctx s =
      (JSONResponse (ChallengeResponse card_nonce), sample_session, s1)"
  proof -
    have "serve card_platform sample_jose ?h sample_env sample_challenge sample_ctx s = challenge ?h sample_env sample_session s"
      using sample_sid
      by (simp add: serve_def route_of_def Bind_def sample_challenge_def sample_login_def EnsureSession_def
          sample_config_def sample_ctx_def sample_session_def Let_def)
    then show ?thesis
      using assms(1) by (simp add: challenge_def GenerateAndStoreNonce_def sample_rand_def sample_env_def card_nonce_def Let_def)
  qed
  have two: "serve card_platform sample_jose ?h sample_env ?rq sample_ctx s1 = login card_platform sample_jose ?h sample_env
      (Inr \<lparr>lr_AuthToken = card_token\<rparr>) sample_session s1"
    using sample_sid
    by (simp add: serve_def route_of_def Bind_def card_requests_def sample_login_def EnsureSession_def
        sample_config_def sample_ctx_def sample_session_def Let_def)
  have "\<not> Expired \<lparr>Base64EncodedNonce = card_nonce, IssuedAt = unix_time 60\<rparr> (unix_time 60) (5 * minute)"
    by (simp add: Expired_def time_sub_def second_def minute_def max_int64_def min_int64_def)
  then obtain p c where "login card_platform sample_jose ?h sample_env (Inr \<lparr>lr_AuthToken = card_token\<rparr>) sample_session s1 =
      (JSONResponse p, c, s2)" "request_key c = Inr ''AAAA''"
    using assms(2) card_Validate [of "re_run sample_env"] sample_key(1)
    by (simp add: login_def sample_env_def sample_run_def sample_config_def establish_def request_key_def SessionKey_def Let_def)
  then show ?thesis using one two by (simp add: card_requests_def)
qed

definition card_issued :: ChallengeNonce where
  "card_issued = \<lparr>Base64EncodedNonce = card_nonce, IssuedAt = unix_time 60\<rparr>"

definition card_shared :: "'x \<Rightarrow> 'x shared" where
  "card_shared x = \<lparr>sh_stores = \<lparr>be_memory = NewSessionStore sample_config, be_external = x\<rparr>,
     sh_trust = \<lparr>snap = newTrustSnapshot [sample_cert [2]]\<rparr>\<rparr>"

lemma card_fresh: "list_all (\<lambda>(E, rq, ctx). fresh_ctx ctx) card_requests"
  by (simp add: card_requests_def sample_key)

lemma card_collision: "no_collision card_platform ((\<Union>cert. card_confirmed cert) \<union> challenge_pairs (card_handler st) card_requests)"
proof -
  have "(\<Union>cert. card_confirmed cert) \<union> challenge_pairs (card_handler st) card_requests = {(''https://app.test'', card_nonce)}"
    unfolding card_pairs by (auto simp: card_confirmed_def split: if_splits)
  then show ?thesis using card_assumptions(3) by simp
qed

lemma card_exec:
  assumes "Put st (unix_time 60) sample_session card_issued (sh_stores (card_shared x)) = (None, s1)"
    and "GetAndRemove st (unix_time 60) sample_session s1 = (Inr card_issued, s2)"
  shows "\<exists>tr s' ts. sys_exec card_platform (card_handler st) (card_shared x,
       map (serve_prog card_platform sample_jose (card_handler st)) card_requests) tr (s', ts) \<and>
     list_all finished ts \<and> logins ''AAAA'' card_requests ts = {1}"
proof -
  from card_run [OF assms [unfolded card_issued_def]] obtain log p c where
    run: "run_service card_platform sample_jose (card_handler st) card_requests (sh_stores (card_shared x)) = (log, s2)"
    and log: "log = [(sample_challenge, sample_session, JSONResponse (ChallengeResponse card_nonce)),
       (fst (snd (card_requests ! 1)), c, JSONResponse p)]" and key: "request_key c = Inr ''AAAA''" by blast
  have "reads {snap (sh_trust (card_shared x))} sample_env sample_env"
    by (simp add: reads_def card_shared_def sample_env_def sample_run_def)
  then have "list_all (\<lambda>(E, rq, ctx). reads {snap (sh_trust (card_shared x))} E E) card_requests"
    by (simp add: card_requests_def)
  from exec_service [OF run this, of "[]"] obtain tr where
    "sys_exec card_platform (card_handler st) (card_shared x, map (serve_prog card_platform sample_jose (card_handler st)) card_requests)
       tr (\<lparr>sh_stores = s2, sh_trust = sh_trust (card_shared x)\<rparr>, map (\<lambda>(rq, c, resp). Done (resp, c)) log)"
    by (auto simp: card_shared_def)
  moreover have "list_all finished (map (\<lambda>(rq, c, resp). Done (resp, c)) log)" by (simp add: log)
  moreover have "logins ''AAAA'' card_requests (map (\<lambda>(rq, c, resp). Done (resp, c)) log) = {1}"
    using key by (auto simp: logins_def log card_requests_def logged_in_def is_login_def sample_challenge_def sample_login_def
        less_Suc_eq)
  ultimately show ?thesis by blast
qed

section \<open>Properties\<close>





end
