(* ===== verification/Trust_Reload.thy ===== *)
theory Trust_Reload
  imports Concurrent
begin

text \<open>
  What a reload of the trust material means for the requests in flight: a request that begins after a
  reload sees the new set or a later one, and nothing of the old.
\<close>

section \<open>Identities and trust\<close>

text \<open>The endpoints that answer with an identity.\<close>

definition authenticates :: "http_request_in \<Rightarrow> bool" where
  "authenticates rq \<longleftrightarrow> rq_Path rq = ''/auth/login'' \<or> rq_Path rq = ''/auth/validate''"

lemma serve_identity:
  assumes "serve P J h E rq ctx s = (JSONResponse p, c, s')" and "authenticates rq"
  shows "\<exists>cert. chain_Verify P cert (pool (verify_snap (re_run E))) (run_now (re_run E)) [ExtKeyUsageClientAuth] = None \<and>
     ctx_User c = Some (user_claims (tables P) (subjectFromCertificate cert))"
proof -
  have est: ?thesis if "Validate P (h_validator h) (re_run E) (Some t) n = Inr cert"
    "establish P J h E cert ctx1 = (JSONResponse p, c)" for t n cert ctx1
    using that by (auto simp: Validate_Inr TrustStore_Verify_None establish_JSON)
  obtain r where r: "route_of h rq = Some r" using assms(1) by (auto simp: serve_def split: option.splits)
  then have "r \<in> set (Bind h)" "rt_Path r = rq_Path rq" by (auto simp: route_of_def find_Some_iff)
  then have "rt_Endpoint r = EpLogin \<and> rt_Session r \<or> rt_Endpoint r = EpValidate \<and> \<not> rt_Session r"
    using assms(2) by (auto simp: Bind_def authenticates_def split: if_splits)
  then show ?thesis
  proof (elim disjE conjE)
    assume "rt_Endpoint r = EpLogin" "rt_Session r"
    then have "EnsureSession P (h_config h) (re_session_rand E) (login P J h E (rq_Login rq)) ctx s = (JSONResponse p, c, s')"
      using assms(1) r by (simp add: serve_def)
    then show ?thesis by (cases rule: EnsureSession_cases) (use est in \<open>auto simp: login_JSON\<close>)
  next
    assume "rt_Endpoint r = EpValidate" "\<not> rt_Session r"
    then have "validate P J h E (rq_Validate rq) ctx s = (JSONResponse p, c, s')"
      using assms(1) r by (simp add: serve_def)
    then show ?thesis
      using est by (auto simp: validate_def split: sum.splits option.splits prod.splits)
  qed
qed

section \<open>Requests in an execution\<close>

text \<open>A finished request has the answer it gets alone with snapshots that were in force at its accesses,
  whether or not the others have finished.\<close>

lemma served_alone:
  assumes "sys_exec P h (s, map (serve_prog P J h) reqs) tr (s', ts)" and "i < length reqs" and "reqs ! i = (E, rq, ctx)"
    and "ts ! i = Done (resp, c)" and "\<And>sn. (Access i, sn) \<in> set tr \<Longrightarrow> sn \<in> H" and "sn0 \<in> H"
  shows "\<exists>E' b b'. reads H E E' \<and> serve P J h E' rq ctx b = (resp, c, b')"
proof -
  obtain tr' s2 ts2 where rest: "sys_exec P h (s', ts) tr' (s2, ts2)" "list_all finished ts2"
    using requests_can_finish [OF assms(1)] by blast
  have "Access i \<notin> fst ` set tr'" using done_no_access [OF rest(1)] assms(4) by simp
  then have same: "ts2 ! i = Done (resp, c)" using no_events [OF rest(1)] assms(4) by simp
  define K where "K j = (if j = i then H else UNIV)" for j
  have "sn \<in> K j" if "(Access j, sn) \<in> set (tr @ tr')" for j sn
    using that assms(5) \<open>Access i \<notin> fst ` set tr'\<close> by (force simp: K_def)
  moreover have "\<exists>sn. sn \<in> K j" for j using assms(6) by (auto simp: K_def)
  ultimately obtain order sq log where lin: "linearizes (tr @ tr') (length reqs) order"
    and sq: "list_all2 (as_served K reqs) order sq" and run: "run_service P J h sq (sh_stores s) = (log, sh_stores s2)"
    and log: "map (\<lambda>(rq, c, resp). (rq, resp, c)) log = map (\<lambda>i. (fst (snd (reqs ! i)), result_of (ts2 ! i))) order"
    using concurrent_serial_in [OF exec_append [OF assms(1) rest(1)] rest(2), of K] by blast
  have "i \<in> set order" using lin assms(2) by (simp add: linearizes_def)
  then obtain b where b: "b < length order" "order ! b = i" by (metis in_set_conv_nth)
  have len: "length log = length order" using arg_cong [OF log, of length] by simp
  have "log ! b = (rq, c, resp)"
    using arg_cong [OF log, of "\<lambda>xs. xs ! b"] b len same assms(3) by (auto split: prod.splits)
  from run_service_nth [OF run _ this] b(1) len obtain E' ctx' s1 s3 where
    "serve P J h E' rq ctx' s1 = (resp, c, s3)" "sq ! b = (E', rq, ctx')" by auto
  moreover have "as_served K reqs i (sq ! b)" using list_all2_nthD [OF sq b(1)] b(2) by simp
  ultimately show ?thesis using assms(3) by (auto simp: as_served_def K_def)
qed

lemma reads_verify: "reads H E E' \<Longrightarrow> verify_snap (re_run E') \<in> H \<and> run_now (re_run E') = run_now (re_run E)"
  by (auto simp: reads_def)

section \<open>Properties\<close>

text \<open>C9: A reload takes effect for every request that begins after it: when a reload has succeeded, with any
  requests in flight, and later a request that had not begun then is answered with an identity on
  \<^verbatim>\<open>/auth/login\<close> or \<^verbatim>\<open>/auth/validate\<close>, this is the identity of a certificate that chains to the
  authorities that the reload read, or to a set in force afterwards. An authority that was removed from the
  trust source no longer vouches for anybody.\<close>

theorem reload_takes_effect:
  assumes "sys_exec P h (s0, map (serve_prog P J h) reqs) tr1 (s1, ts1)"
    and "ReloadTrust P fs (h\<lparr>h_trust := sh_trust s1\<rparr>) = Some (Inr n, h1)"
    and "sys_exec P h (s1\<lparr>sh_trust := h_trust h1\<rparr>, ts1) tr2 (s2, ts2)"
    and "i < length reqs" and "reqs ! i = (E, rq, ctx)" and "Access i \<notin> fst ` set tr1" and "authenticates rq"
    and "ts2 ! i = Done (JSONResponse p, c)"
  shows "\<exists>cas cert sn. loadTrustedCAs P fs (cfg_TrustedCACertsPath (h_config h)) = Some (Inr cas) \<and> n = int (length cas) \<and>
     cas \<noteq> [] \<and> sn \<in> insert (newTrustSnapshot cas) (snd ` set tr2) \<and>
     chain_Verify P cert (pool sn) (run_now (re_run E)) [ExtKeyUsageClientAuth] = None \<and>
     ctx_User c = Some (user_claims (tables P) (subjectFromCertificate cert))"
proof -
  from assms(2) ReloadTrust_all_or_nothing [of P fs "h\<lparr>h_trust := sh_trust s1\<rparr>" n h1] obtain cas
    where cas: "loadTrustedCAs P fs (cfg_TrustedCACertsPath (h_config h)) = Some (Inr cas)" "n = int (length cas)" "cas \<noteq> []"
    by auto
  let ?H = "insert (newTrustSnapshot cas) (snd ` set tr2)"
  from sys_exec.go [OF sys_step.reload [OF assms(2)] assms(3)]
  have ex: "sys_exec P h (s0, map (serve_prog P J h) reqs) (tr1 @ (Reloaded, snap (sh_trust s1)) # tr2) (s2, ts2)"
    by (rule exec_append [OF assms(1)])
  have "sn \<in> ?H" if "(Access i, sn) \<in> set (tr1 @ (Reloaded, snap (sh_trust s1)) # tr2)" for sn
    using that assms(6) by force
  from served_alone [OF ex assms(4, 5, 8) this insertI1]
  obtain E' b b' where E': "reads ?H E E'" "serve P J h E' rq ctx b = (JSONResponse p, c, b')" by blast
  from serve_identity [OF E'(2) assms(7)] reads_verify [OF E'(1)] cas show ?thesis by metis
qed

text \<open>A service that starts without trusted authorities and reloads before its first login.\<close>

theorem reload_takes_effect_witness:
  "\<exists>h1 tr2 s2 p c cert.
     ReloadTrust sample_ocsp sample_fs (sample_service\<lparr>h_trust := \<lparr>snap = newTrustSnapshot []\<rparr>\<rparr>) = Some (Inr 1, h1) \<and>
     sys_exec sample_ocsp sample_service (\<lparr>sh_stores = sample_state (), sh_trust = h_trust h1\<rparr>,
       [serve_prog sample_ocsp sample_jose sample_service (sample_env, sample_login, sample_ctx)]) tr2
       (s2, [Done (JSONResponse p, c)]) \<and>
     ctx_User c = Some (user_claims sample_unicode (subjectFromCertificate cert)) \<and>
     chain_Verify sample_ocsp cert (pool (newTrustSnapshot [sample_cert [2]])) (unix_time 60) [ExtKeyUsageClientAuth] = None"
proof -
  let ?old = "\<lparr>snap = newTrustSnapshot []\<rparr>"
  let ?new = "\<lparr>snap = newTrustSnapshot [sample_cert [2]]\<rparr>"
  let ?reqs = "[(sample_env, sample_login, sample_ctx)]"
  let ?progs = "map (serve_prog sample_ocsp sample_jose sample_service) ?reqs"
  have rel: "ReloadTrust sample_ocsp sample_fs (sample_service\<lparr>h_trust := sh_trust \<lparr>sh_stores = sample_state (), sh_trust = ?old\<rparr>\<rparr>) =
      Some (Inr 1, sample_service\<lparr>h_trust := ?new\<rparr>)"
    using sample_load(2) by (simp add: ReloadTrust_Inr sample_config_def)
  obtain p c s1 where one: "serve sample_ocsp sample_jose sample_service sample_env sample_login sample_ctx (sample_state ()) =
      (JSONResponse p, c, s1)"
    using sample_first_login [of "()"] by blast
  have "reads {snap ?new} sample_env sample_env"
    by (simp add: reads_def sample_env_def sample_run_def)
  then obtain tr2 where ex: "sys_exec sample_ocsp sample_service (\<lparr>sh_stores = sample_state (), sh_trust = ?new\<rparr>, ?progs) tr2
      (\<lparr>sh_stores = s1, sh_trust = ?new\<rparr>, [Done (JSONResponse p, c)])" and tr2: "snd ` set tr2 \<subseteq> {snap ?new}"
    using exec_service [of sample_ocsp sample_jose sample_service ?reqs "sample_state ()" _ s1 ?new "[]"] one by auto
  have auth: "authenticates sample_login" by (simp add: authenticates_def sample_login_def)
  have ex': "sys_exec sample_ocsp sample_service (\<lparr>sh_stores = sample_state (), sh_trust = ?old\<rparr>
      \<lparr>sh_trust := h_trust (sample_service\<lparr>h_trust := ?new\<rparr>)\<rparr>, ?progs) tr2
      (\<lparr>sh_stores = s1, sh_trust = ?new\<rparr>, [Done (JSONResponse p, c)])" using ex by simp
  from reload_takes_effect [OF sys_exec.stop rel ex', of 0 sample_env sample_login sample_ctx p c] auth
  obtain cas cert sn where cas: "loadTrustedCAs sample_ocsp sample_fs ''/trust'' = Some (Inr cas)"
    "sn \<in> insert (newTrustSnapshot cas) (snd ` set tr2)"
    and chain: "chain_Verify sample_ocsp cert (pool sn) (run_now (re_run sample_env)) [ExtKeyUsageClientAuth] = None"
    "ctx_User c = Some (user_claims (tables sample_ocsp) (subjectFromCertificate cert))"
    by (auto simp: sample_config_def simp del: sample_ocsp_fields)
  have "sn = newTrustSnapshot [sample_cert [2]]" using cas tr2 sample_load(2) by auto
  moreover have "run_now (re_run sample_env) = unix_time 60" by (simp add: sample_env_def sample_run_def)
  moreover have "tables sample_ocsp = sample_unicode" by simp
  ultimately show ?thesis using rel ex chain by (simp del: sample_ocsp_fields) blast
qed

end
