(* ===== verification/Flows.thy ===== *)
theory Flows
  imports Concurrent
begin

text \<open>
  A login and a signature as a browser goes through them. The login: a first request without a session, the
  cookie that the answer sets, and the request that brings the cookie back. The signature: the negotiation on
  \<^verbatim>\<open>/sign/certificate\<close> and the request to \<^verbatim>\<open>/sign/finalize\<close> that uses its outcome.
\<close>

section \<open>Cookies\<close>

text \<open>What a browser sends as cookie \<open>name\<close> after the request \<open>ctx\<close> was answered in the context \<open>c\<close>.\<close>

definition jar :: "string \<Rightarrow> http_ctx \<Rightarrow> http_ctx \<Rightarrow> string" where
  "jar name ctx c = foldl (\<lambda>v ck. if ck_Key ck = name then ck_Value ck else v) (ctx_Cookie ctx name) (ctx_SetCookies c)"

definition host_ok :: "'a platform_scheme \<Rightarrow> Configuration \<Rightarrow> string \<Rightarrow> bool" where
  "host_ok P cfg host \<longleftrightarrow> \<not> (cfg_EnforceHostHeader cfg \<and> originHostnames P (cfg_Origins cfg) \<noteq> [] \<and>
     \<not> hostMatchesAny (tables P) host (originHostnames P (cfg_Origins cfg)))"

lemma EnsureSession_pass:
  "host_ok P cfg (ctx_Host ctx) \<Longrightarrow> ctx_Cookie ctx (cfg_SessionCookieName cfg) = k \<Longrightarrow> validSessionID k \<Longrightarrow>
     EnsureSession P cfg rand g ctx s = g (ctx\<lparr>ctx_UserValue := (ctx_UserValue ctx)(sessionContextKey \<mapsto> k)\<rparr>) s"
  by (auto simp: EnsureSession_def host_ok_def Let_def)

lemma EnsureSession_follow:
  assumes "EnsureSession P cfg rand f ctx s = (JSONResponse p, c, s1)" and "full_reads rand" and "ctx_SetCookies ctx = []"
  shows "host_ok P cfg (ctx_Host ctx) \<and> (\<exists>ctx1 k. f ctx1 s = (JSONResponse p, c, s1) \<and> request_key ctx1 = Inr k \<and>
     validSessionID k \<and> jar (cfg_SessionCookieName cfg) ctx ctx1 = k)"
proof
  let ?name = "cfg_SessionCookieName cfg"
  let ?key = "\<lambda>sid. (ctx_UserValue ctx)(sessionContextKey \<mapsto> sid)"
  let ?sid = "ctx_Cookie ctx ?name"
  let ?new = "\<lambda>new. (setSessionCookie ctx ?name new (cfg_NonceTTL cfg))\<lparr>ctx_UserValue := ?key new\<rparr>"
  show host: "host_ok P cfg (ctx_Host ctx)"
    using assms(1) by (auto simp: EnsureSession_def host_ok_def Let_def split: if_splits)
  consider "validSessionID ?sid" "f (ctx\<lparr>ctx_UserValue := ?key ?sid\<rparr>) s = (JSONResponse p, c, s1)"
    | new where "newSessionID rand = Inr new" "f (?new new) s = (JSONResponse p, c, s1)"
    using assms(1) host by (auto simp: EnsureSession_def host_ok_def Let_def split: if_splits sum.splits)
  then show "\<exists>ctx1 k. f ctx1 s = (JSONResponse p, c, s1) \<and> request_key ctx1 = Inr k \<and> validSessionID k \<and> jar ?name ctx ctx1 = k"
  proof cases
    case 1
    then show ?thesis
      using request_key_session [of ctx ?sid] assms(3)
      by (intro exI [of _ "ctx\<lparr>ctx_UserValue := ?key ?sid\<rparr>"] exI [of _ ?sid]) (auto simp: jar_def validSessionID_def)
  next
    case (2 new)
    have "validSessionID new" using newSessionID_valid(1) [OF 2(1)] assms(2) by (auto simp: full_reads_def)
    then show ?thesis
      using 2 request_key_session [of "setSessionCookie ctx ?name new (cfg_NonceTTL cfg)" new] assms(3)
      by (intro exI [of _ "?new new"] exI [of _ new]) (auto simp: jar_def setSessionCookie_def validSessionID_def)
  qed
qed

text \<open>The context of a request in session \<open>k\<close>, behind the middleware.\<close>

abbreviation in_session :: "string \<Rightarrow> http_ctx \<Rightarrow> http_ctx" where
  "in_session k ctx \<equiv> ctx\<lparr>ctx_UserValue := (ctx_UserValue ctx)(sessionContextKey \<mapsto> k)\<rparr>"

text \<open>A challenge served to a browser, and what its next login runs into.\<close>

lemma served_challenge:
  assumes "serve P J h E rq ctx s = (JSONResponse p, c, s1)" and "is_challenge rq" and "full_reads (re_session_rand E)"
    and "ctx_SetCookies ctx = []" and "request_key c = Inr k"
    and "is_login rq'" and "ctx_Host ctx' = ctx_Host ctx"
    and "ctx_Cookie ctx' (cfg_SessionCookieName (h_config h)) = jar (cfg_SessionCookieName (h_config h)) ctx c"
  shows "challenge h E c s = (JSONResponse p, c, s1) \<and> request_key (in_session k ctx') = Inr k \<and>
     serve P J h E' rq' ctx' s' = login P J h E' (rq_Login rq') (in_session k ctx') s'"
proof -
  have "EnsureSession P (h_config h) (re_session_rand E) (challenge h E) ctx s = (JSONResponse p, c, s1)"
    using assms(1, 2) by (simp add: serve_def is_challenge_def route_of_def Bind_def)
  from EnsureSession_follow [OF this assms(3, 4)] obtain ctx1 k1 where host: "host_ok P (h_config h) (ctx_Host ctx)"
    and ch: "challenge h E ctx1 s = (JSONResponse p, c, s1)" and k1: "request_key ctx1 = Inr k1" "validSessionID k1"
    "jar (cfg_SessionCookieName (h_config h)) ctx ctx1 = k1" by blast
  have c: "c = ctx1" using challenge_state [OF ch] by simp
  then have "k1 = k" using k1 assms(5) by simp
  then have "serve P J h E' rq' ctx' s' = login P J h E' (rq_Login rq') (in_session k ctx') s'"
    using assms(6-8) EnsureSession_pass [OF host [folded assms(7)] _ k1(2), of "re_session_rand E'" "login P J h E' (rq_Login rq')" s'] k1(3) c
    by (simp add: serve_def is_login_def route_of_def Bind_def)
  moreover have "request_key (in_session k ctx') = Inr k"
    using request_key_session [of ctx' k] k1(2) \<open>k1 = k\<close> by (simp add: validSessionID_def)
  ultimately show ?thesis using ch c by simp
qed

section \<open>A challenge answered in time\<close>

lemma login_in_process:
  assumes "h_store h = session_store" and "gen_store (h_generator h) = session_store"
    and "sessionKey (be_memory s) = request_key" and "mem_ttl (be_memory s) = cfg_NonceTTL (h_config h)"
    and "h_assertionIssuer h = None"
    and "challenge h E ctx s = (JSONResponse (ChallengeResponse n), c, s1)" and "request_key ctx = Inr k"
    and "run_service P J h between s1 = (log, s2)"
    and "\<forall>(rq, c, r) \<in> set log. is_challenge rq \<or> is_login rq \<longrightarrow> request_key c \<noteq> Inr k"
    and "\<forall>(Eb, rq, c) \<in> set between. time_sub (re_store_now Eb) (re_now E) \<le> cfg_NonceTTL (h_config h)"
    and "request_key ctx' = Inr k"
    and "time_sub (re_now E') (re_now E) \<le> cfg_NonceTTL (h_config h)"
    and "Validate P (h_validator h) (re_run E') (Some (lr_AuthToken req)) n = Inr cert"
  shows "\<exists>s3. login P J h E' (Inr req) ctx' s2 =
     (JSONResponse (SubjectPayload (subjectFromCertificate cert)),
      ctx'\<lparr>ctx_User := Some (user_claims (tables P) (subjectFromCertificate cert))\<rparr>, s3)"
proof -
  have h: "in_process h = h" using in_process_id [OF assms(1, 2)] .
  have est: "establish P J h E' cert ctx' = (JSONResponse (SubjectPayload (subjectFromCertificate cert)),
      ctx'\<lparr>ctx_User := Some (user_claims (tables P) (subjectFromCertificate cert))\<rparr>)"
    using assms(5) by (simp add: establish_JSON)
  show ?thesis
  proof (rule svc_lasting.challenge_login [of s h, unfolded h, OF assms(3, 6, 7, 8, 9) _ assms(11, 12, 13) est])
    fix m
    assume m: "IssuedAt m = re_now E" "Put (h_store h) (re_store_now E) ctx m s = (None, s1)" "entries (be_memory s1) k = Some m"
    then have "mem_ttl (be_memory s1) = mem_ttl (be_memory s)"
      by (auto simp: assms(1) session_store_def lift_store_def memory_store_def InMemoryStore_Put_def sweepLocked_def
          Let_def split: sum.splits prod.splits)
    then show "(\<forall>(Eb, rq, c) \<in> set between. mem_lasts (be_memory s1) k (re_store_now Eb)) \<and> True"
      using assms(4, 10) m by (auto simp: mem_lasts_def Expired_def)
  qed
qed

lemma login_in_cluster:
  assumes "h_store h = external_store (redis_store Z S)" and "gen_store (h_generator h) = h_store h"
    and "rs_sessionKey S = request_key" and "redis_contract (client S) content"
    and "redis_keeps (client S) content expiry" and "whole_minutes Z"
    and "h_assertionIssuer h = None"
    and "challenge h E ctx s = (JSONResponse (ChallengeResponse n), c, s1)" and "request_key ctx = Inr k"
    and "run_service P J h between s1 = (log, s2)"
    and "\<forall>(rq, c, r) \<in> set log. is_challenge rq \<or> is_login rq \<longrightarrow> request_key c \<noteq> Inr k"
    and "\<forall>(Eb, rq, c) \<in> set between. re_store_now Eb < re_store_now E + rs_ttl S"
    and "re_store_now E' < re_store_now E + rs_ttl S" and "request_key ctx' = Inr k"
    and "time_sub (re_now E') (re_now E) \<le> cfg_NonceTTL (h_config h)"
    and "Validate P (h_validator h) (re_run E') (Some (lr_AuthToken req)) n = Inr cert"
  shows "\<exists>s3. login P J h E' (Inr req) ctx' s2 =
     (JSONResponse (SubjectPayload (subjectFromCertificate cert)),
      ctx'\<lparr>ctx_User := Some (user_claims (tables P) (subjectFromCertificate cert))\<rparr>, s3)"
proof -
  have svc: "lasting_redis_service S Z content h expiry" using assms(1-6) by unfold_locales
  have est: "establish P J h E' cert ctx' = (JSONResponse (SubjectPayload (subjectFromCertificate cert)),
      ctx'\<lparr>ctx_User := Some (user_claims (tables P) (subjectFromCertificate cert))\<rparr>)"
    using assms(7) by (simp add: establish_JSON)
  show ?thesis
  proof (rule lasting_login_service.challenge_login [OF lasting_redis_service.axioms_lasting [OF svc] TrueI assms(8-11) _ assms(14-16) est])
    fix m
    assume "Put (h_store h) (re_store_now E) ctx m s = (None, s1)"
    then have "Store_Put Z S (re_store_now E) ctx m (be_external s) = (None, be_external s1)"
      by (auto simp: assms(1) external_store_def lift_store_def redis_store_def Let_def split: prod.splits)
    then have "expiry (be_external s1) (rs_prefix S @ k) = re_store_now E + rs_ttl S"
      using lasting_redis_store.Put_expiry [OF lasting_redis_service.axioms(2) [OF svc]] assms(3, 9) by metis
    then show "(\<forall>(Eb, rq, c) \<in> set between. redis_lasts S expiry (be_external s1) k (re_store_now Eb)) \<and>
        redis_lasts S expiry (be_external s1) k (re_store_now E')"
      using assms(12, 13) by (auto simp: redis_lasts_def)
  qed
qed

section \<open>A signature\<close>

lemma ascii_fold_upper:
  "ascii_char c \<Longrightarrow> ascii_char d \<Longrightarrow> rune_fold U (of_char c) (of_char d) \<Longrightarrow>
     ascii_upper (of_char c) = ascii_upper (of_char d)"
  by (auto simp: rune_fold_def ascii_char_def ascii_lower_def ascii_upper_def in_range_def split: if_splits)

lemma EqualFold_ToUpper:
  assumes "is_ascii s" and "is_ascii t" and "EqualFold U s t"
  shows "ToUpper U s = ToUpper U t"
proof -
  have "list_all2 (rune_fold U) (map of_char s) (map of_char t)" using assms by (simp add: EqualFold_def runes_ascii)
  then have len: "length s = length t" and fold: "\<And>i. i < length s \<Longrightarrow> rune_fold U (of_char (s ! i)) (of_char (t ! i))"
    by (auto simp: list_all2_conv_all_nth)
  have "ascii_upper (of_char (s ! i)) = ascii_upper (of_char (t ! i))" if "i < length s" for i
    using ascii_fold_upper [OF _ _ fold [OF that]] assms(1, 2) that len by (simp add: is_ascii_def list_all_length)
  then show ?thesis using assms(1, 2) len by (intro nth_equalityI) (simp_all add: ToUpper_ascii)
qed

lemma supported_hash_upper: "IsSupportedHashFunction h \<Longrightarrow> ToUpper U h = h"
proof -
  assume h: "IsSupportedHashFunction h"
  have "list_all (\<lambda>h. map (\<lambda>c. char_of (ascii_upper (of_char c))) h = h) SupportedHashFunctions"
    by (simp add: SupportedHashFunctions_def ascii_upper_def in_range_def char_of_eq)
  then show ?thesis
    using h supported_hash_ascii [OF h] by (simp add: ToUpper_ascii IsSupportedHashFunction_def list_ex_iff list_all_iff)
qed

text \<open>The card made the signature value over the digest with the key of the certificate, the negotiated hash
  function and the padding of the negotiated algorithm.\<close>

definition card_signed ::
  "'a platform_scheme \<Rightarrow> x509_cert \<Rightarrow> SignatureAlgorithm \<Rightarrow> string \<Rightarrow> bytes \<Rightarrow> bytes \<Rightarrow> bool" where
  "card_signed P cert algo hashFn digest sig \<longleftrightarrow>
     (\<exists>pub r s. PublicKey cert = ECDSAPublicKey pub \<and> splitP1363 sig pub = Inr (r, s) \<and> ecdsa_Verify P pub digest r s) \<or>
     (\<exists>pub hf. PublicKey cert = RSAPublicKey pub \<and> hashNameToCryptoHash hashFn = Some hf \<and> length digest = hash_Size hf \<and>
        (if EqualFold (tables P) (PaddingScheme algo) ''PSS'' then rsa_VerifyPSS P pub hf digest sig = None
         else rsa_VerifyPKCS1v15 P pub hf digest sig = None))"

lemma negotiated:
  assumes "NewSigner o1 = Inr sg" and "list_all (\<lambda>a. is_ascii (HashFunction a)) supported"
    and "PrepareSigning P sg R der supported = Inr (cert, algo, hashFn)"
  shows "algo \<in> set supported" and "hashFn \<in> set (hashPreference sg)" and "ToUpper (tables P) (HashFunction algo) = hashFn"
proof -
  from assms(3) have sel: "SelectHashFunction (tables P) (hashPreference sg) supported = Inr hashFn"
    and algo: "algo = pickAlgorithmForHash (tables P) hashFn supported" by (simp_all add: PrepareSigning_Inr)
  from sel obtain a where a: "a \<in> set supported" "ToUpper (tables P) (HashFunction a) = ToUpper (tables P) hashFn"
    and pref: "hashFn \<in> set (hashPreference sg)" by (auto simp: SelectHashFunction_Inr offers_def)
  have h: "IsSupportedHashFunction hashFn" using assms(1) pref by (auto simp: NewSigner_Inr list_all_iff)
  note ascii = supported_hash_ascii [OF h]
  have "EqualFold (tables P) (HashFunction a) hashFn"
    using ToUpper_EqualFold [OF _ ascii a(2)] a(1) assms(2) by (auto simp: list_all_iff)
  from pick_in [OF a(1) this] algo
  have pick: "algo \<in> set supported" "EqualFold (tables P) (HashFunction algo) hashFn" by auto
  then show "algo \<in> set supported" "hashFn \<in> set (hashPreference sg)" using pref by auto
  have "is_ascii (HashFunction algo)" using pick(1) assms(2) by (auto simp: list_all_iff)
  from EqualFold_ToUpper [OF this ascii pick(2)] show "ToUpper (tables P) (HashFunction algo) = hashFn"
    using supported_hash_upper [OF h] by simp
qed

lemma VerifySignatureValue_signed:
  assumes "ToUpper (tables P) (HashFunction algo) = hashFn"
  shows "VerifySignatureValue P (Some cert) algo digest sig = None \<longleftrightarrow>
     digest \<noteq> [] \<and> sig \<noteq> [] \<and> card_signed P cert algo hashFn digest sig"
  by (simp only: VerifySignatureValue_None card_signed_def assms)

lemma verified_result:
  assumes "fq_Signature fq = StdEncoding_EncodeToString sig" and "fq_Digest fq \<noteq> []" and "fq_SigningCertificate fq \<noteq> []"
    and "fq_Digest fq = StdEncoding_EncodeToString digest" and "StdEncoding_DecodeString (fq_SigningCertificate fq) = Some der"
    and "fq_AuthCertificate fq = StdEncoding_EncodeToString authDER" and "ParseCertificate P authDER = Inr authCert"
    and "sig \<noteq> []" and "ParseCertificate P der = Inr cert"
  shows "(\<exists>resp. finalize_result P fq = Inr resp \<and> fr_SignatureVerified resp \<and> fr_Signature resp = StdEncoding_EncodeToString sig) \<longleftrightarrow>
     VerifySignatureValue P (Some cert) (fq_SignatureAlgorithm fq) digest sig = None \<and>
     snd (CheckSameNaturalPerson (Some authCert) (Some cert)) = None" (is "?L \<longleftrightarrow> ?R")
proof
  note dec = assms(1, 4, 6) std64.dec_enc
  assume ?L
  then show ?R using assms by (auto simp: finalize_result_Inr dec)
next
  note dec = assms(1, 4, 6) std64.dec_enc
  assume R: ?R
  obtain b where b: "CheckSameNaturalPerson (Some authCert) (Some cert) = (b, None)" using R by (metis prod.collapse)
  let ?r = "\<lparr>fr_Status = ''ok'', fr_Signature = StdEncoding_EncodeToString sig,
     fr_AuthCertificate = StdEncoding_EncodeToString (Raw authCert), fr_SignatureVerified = True, fr_IdentityBound = b\<rparr>"
  have "finalize_result P fq = Inr ?r" using R b assms by (simp add: finalize_result_Inr dec)
  then show ?L by (intro exI [of _ ?r]) simp
qed

section \<open>Sample browsers\<close>

definition sample_plain :: "(http_ctx, 'x backends) ChallengeNonceStore \<Rightarrow> 'x Handler" where
  "sample_plain st = (sample_handler st)\<lparr>h_assertionIssuer := None\<rparr>"

lemma sample_plain_fields:
  "h_store (sample_plain st) = st" "gen_store (h_generator (sample_plain st)) = st"
  "h_assertionIssuer (sample_plain st) = None" "h_validator (sample_plain st) = sample_validator"
  "h_config (sample_plain st) = sample_config"
  "h_generator (sample_plain st) = \<lparr>gen_store = st, gen_nonceSize = 32, gen_random = (\<lambda>_. sample_rand)\<rparr>"
  by (simp_all add: sample_plain_def sample_handler_def handler_base.defs Handler.defs)

text \<open>Another session that asks for a challenge in between.\<close>

definition other_ctx :: http_ctx where
  "other_ctx = sample_ctx\<lparr>ctx_Cookie := (\<lambda>_. ''BBBB'')\<rparr>"

lemma other_challenge:
  "\<exists>c resp s'. run_service P J (sample_plain st) [(sample_env, sample_challenge, other_ctx)] s = ([(sample_challenge, c, resp)], s') \<and>
     request_key c = Inr ''BBBB''"
proof -
  have "RawURLEncoding_EncodeToString [4, 16, 65] = ''BBBB''"
    by (simp add: RawURLEncoding_EncodeToString_def url_alphabet_def)
  then have sid: "validSessionID ''BBBB''"
    using url64.dec_enc [of "[4, 16, 65]"] by (simp add: validSessionID_def)
  let ?ctx = "other_ctx\<lparr>ctx_UserValue := [sessionContextKey \<mapsto> ''BBBB'']\<rparr>"
  have "serve P J (sample_plain st) sample_env sample_challenge other_ctx s = challenge (sample_plain st) sample_env ?ctx s"
    using sid
    by (simp add: serve_def route_of_def Bind_def sample_challenge_def sample_login_def EnsureSession_def sample_plain_def
        sample_config_def other_ctx_def sample_ctx_def Let_def)
  moreover obtain resp c s' where ch: "challenge (sample_plain st) sample_env ?ctx s = (resp, c, s')" by (metis prod_cases3)
  moreover have "c = ?ctx" using challenge_state [OF ch] by blast
  ultimately show ?thesis by (simp add: request_key_def SessionKey_def)
qed

definition expiring_cluster :: "(http_ctx, expiring) Store" where
  "expiring_cluster = \<lparr>client = expiring_server, rs_sessionKey = request_key, rs_ttl = 5 * minute,
     rs_prefix = defaultKeyPrefix\<rparr>"

interpretation lasting_cluster: lasting_redis_service expiring_cluster sample_zone expiring_content
  "sample_plain (external_store (redis_store sample_zone expiring_cluster))" expiring_at
  by unfold_locales
    (simp_all add: expiring_cluster_def expiring_contract expiring_keeps sample_whole_minutes sample_plain_fields)

text \<open>A browser that comes without a cookie and comes back with the one it was given.\<close>

definition new_sid :: string where
  "new_sid = RawURLEncoding_EncodeToString (replicate 32 5)"

definition new_ctx :: http_ctx where
  "new_ctx = sample_ctx\<lparr>ctx_Cookie := (\<lambda>_. [])\<rparr>"

definition first_ctx :: http_ctx where
  "first_ctx = (setSessionCookie new_ctx ''WEBEID_SESSION'' new_sid (5 * minute))
     \<lparr>ctx_UserValue := [sessionContextKey \<mapsto> new_sid]\<rparr>"

definition back_ctx :: http_ctx where
  "back_ctx = sample_ctx\<lparr>ctx_Cookie := (\<lambda>_. new_sid)\<rparr>"

definition back_login :: "string \<Rightarrow> http_request_in" where
  "back_login n = sample_login\<lparr>rq_Login := Inr \<lparr>lr_AuthToken = sample_token n\<rparr>\<rparr>"

lemma new_sid_length: "length new_sid = 43"
  by (simp add: new_sid_def RawURLEncoding_EncodeToString_def length_b64_encode_raw)

lemma browser_facts:
  "request_key first_ctx = Inr new_sid" "new_sid \<noteq> ''BBBB''" "is_challenge sample_challenge" "is_login (back_login n)"
  "rq_Login (back_login n) = Inr \<lparr>lr_AuthToken = sample_token n\<rparr>" "full_reads (re_session_rand sample_env)"
  "ctx_SetCookies new_ctx = []" "ctx_Host back_ctx = ctx_Host new_ctx"
  "ctx_Cookie back_ctx (cfg_SessionCookieName sample_config) = jar (cfg_SessionCookieName sample_config) new_ctx first_ctx"
proof -
  have "length new_sid \<noteq> length ''BBBB''" unfolding new_sid_length by simp
  then show "new_sid \<noteq> ''BBBB''" by metis
qed (use new_sid_length in \<open>auto simp: request_key_def SessionKey_def first_ctx_def is_challenge_def sample_challenge_def is_login_def back_login_def
      sample_login_def full_reads_def sample_env_def sample_rand_def new_ctx_def back_ctx_def sample_ctx_def jar_def
      sample_config_def setSessionCookie_def\<close>)

lemma first_challenge:
  "serve P J (sample_plain st) sample_env sample_challenge new_ctx s = challenge (sample_plain st) sample_env first_ctx s"
  by (simp add: serve_def route_of_def Bind_def sample_challenge_def sample_login_def EnsureSession_def sample_plain_fields
      sample_config_def new_ctx_def sample_ctx_def Let_def first_ctx_def validSessionID_def newSessionID_def sessionIDBytes_def
      sample_env_def sample_rand_def new_sid_def setSessionCookie_def)

text \<open>A card that offers RSA with PSS and SHA-256.\<close>

definition signing_algorithm :: SignatureAlgorithm where
  "signing_algorithm = \<lparr>CryptoAlgorithm = ''RSA'', HashFunction = ''SHA-256'', PaddingScheme = ''PSS''\<rparr>"

definition signing_request :: SigningCertificateRequest where
  "signing_request = \<lparr>sc_Certificate = StdEncoding_EncodeToString [1], sc_SupportedSignatureAlgorithms = [signing_algorithm]\<rparr>"

definition finalize_request :: FinalizeRequest where
  "finalize_request = \<lparr>fq_Signature = StdEncoding_EncodeToString (replicate 32 7),
     fq_SignatureAlgorithm = signing_algorithm, fq_AuthCertificate = StdEncoding_EncodeToString [1],
     fq_Digest = StdEncoding_EncodeToString (replicate 32 7), fq_SigningCertificate = StdEncoding_EncodeToString [1]\<rparr>"

definition signing_options :: signing_Options where
  "signing_options = \<lparr>HashPreference = [''SHA-256''], Trust = True, OCSPChecker = None, AcceptedPolicies = []\<rparr>"

lemma signing_signer: "NewSigner signing_options = Inr (h_signer (sample_handler st))"
  by (simp add: NewSigner_def signing_options_def IsSupportedHashFunction_def SupportedHashFunctions_def sample_handler_def
      handler_base.defs Handler.defs)

lemma signing_prepared:
  "signingCertificate sample_ocsp (sample_handler st) sample_env (Inr signing_request) ctx s =
     (JSONResponse (SigningCertificateResponse (signing_algorithm) ''SHA-256''), ctx, s)"
proof -
  have sel: "SelectHashFunction sample_unicode [''SHA-256''] [signing_algorithm] = Inr ''SHA-256''"
    by (simp add: SelectHashFunction_def signing_algorithm_def)
  have pick: "pickAlgorithmForHash sample_unicode ''SHA-256'' [signing_algorithm] = signing_algorithm"
    by (simp add: pickAlgorithmForHash_def equalFoldHash_def signing_algorithm_def EqualFold_refl)
  have checks: "CheckValidity (sample_cert [1]) (unix_time 60) = None" "CheckKeyUsageForSigning (sample_cert [1]) = None"
    by (simp_all add: check_None) (simp_all add: sample_cert_def unix_time_small second_def KeyUsageContentCommitment_def)
  have "PrepareSigning sample_ocsp (h_signer (sample_handler st)) (re_sign sample_env) [1] [signing_algorithm] =
      Inr (sample_cert [1], signing_algorithm, ''SHA-256'')"
    unfolding PrepareSigning_Inr
    by (simp add: checks sel pick validateSigningCertificate_None sample_handler_def handler_base.defs Handler.defs
        sample_parse_def check_None checkSigningTrust_None TrustStore_Verify_None sample_env_def newTrustSnapshot_def AddCert_def)
      (simp add: sample_cert_def)
  then show ?thesis by (simp add: signingCertificate_def signing_request_def std_decode_def std64.dec_enc)
qed

lemma signing_card_signed:
  "card_signed sample_ocsp (sample_cert [1]) signing_algorithm ''SHA-256'' (replicate 32 7) (replicate 32 7)"
proof -
  have "EqualFold (tables sample_ocsp) (PaddingScheme signing_algorithm) ''PSS''"
    by (simp add: signing_algorithm_def EqualFold_refl)
  moreover have "rsa_VerifyPSS sample_ocsp k hf (replicate 32 7) (replicate 32 7) = None" for k hf
    by (simp add: sample_ocsp_def sample_platform_def platform.defs ocsp_platform.defs rev_replicate)
  moreover have "PublicKey (sample_cert [1]) = RSAPublicKey \<lparr>rsaN = 3233, rsaE = 17\<rparr>" by (simp add: sample_cert_def)
  moreover have "hashNameToCryptoHash ''SHA-256'' = Some SHA256" by (simp add: hashNameToCryptoHash_def)
  ultimately show ?thesis
    unfolding card_signed_def
    by (intro disjI2 exI [of _ "\<lparr>rsaN = 3233, rsaE = 17\<rparr>"] exI [of _ SHA256]) simp
qed

section \<open>Properties\<close>





text \<open>C17: A signature from negotiation to the verified result: after \<^verbatim>\<open>/sign/certificate\<close> has answered with an
  algorithm and a hash function, which the card offered and the configuration prefers, a request to
  \<^verbatim>\<open>/sign/finalize\<close> with the same signing certificate and that algorithm, with digest, signature and
  authentication certificate, is answered as verified exactly when the key of the certificate verifies the
  signature over the digest under the negotiated hash function and padding, and the two certificates are not of
  different natural persons. Under an RSA key and a SHA-3 function no signature is ever reported verified,
  although the negotiation offers these functions.\<close>

theorem signing_flow:
  assumes "NewSigner o1 = Inr (h_signer h)"
    and "list_all (\<lambda>a. is_ascii (HashFunction a)) (sc_SupportedSignatureAlgorithms sreq)"
    and "signingCertificate P h E (Inr sreq) ctx s = (JSONResponse (SigningCertificateResponse algo hashFn), c, s')"
    and "fq_SigningCertificate fq = sc_Certificate sreq" and "fq_SignatureAlgorithm fq = algo"
    and "fq_Signature fq = StdEncoding_EncodeToString sig" and "fq_Digest fq = StdEncoding_EncodeToString digest"
    and "fq_AuthCertificate fq = StdEncoding_EncodeToString authDER" and "ParseCertificate P authDER = Inr authCert"
    and "sig \<noteq> []" and "digest \<noteq> []" and "sc_Certificate sreq \<noteq> []"
  shows "\<exists>der cert. StdEncoding_DecodeString (sc_Certificate sreq) = Some der \<and> ParseCertificate P der = Inr cert \<and>
     algo \<in> set (sc_SupportedSignatureAlgorithms sreq) \<and> hashFn \<in> set (hashPreference (h_signer h)) \<and>
     ((\<exists>resp. finalize P h (Inr fq) ctx2 s2 = (JSONResponse (FinalizePayload resp), ctx2, s2) \<and>
        fr_SignatureVerified resp \<and> fr_Signature resp = StdEncoding_EncodeToString sig) \<longleftrightarrow>
      card_signed P cert algo hashFn digest sig \<and> snd (CheckSameNaturalPerson (Some authCert) (Some cert)) = None) \<and>
     (hashFn \<in> {''SHA3-224'', ''SHA3-256'', ''SHA3-384'', ''SHA3-512''} \<and> (\<exists>pub. PublicKey cert = RSAPublicKey pub) \<longrightarrow>
      \<not> card_signed P cert algo hashFn digest sig)"
proof -
  obtain der cert where der: "StdEncoding_DecodeString (sc_Certificate sreq) = Some der"
    and prep: "PrepareSigning P (h_signer h) (re_sign E) der (sc_SupportedSignatureAlgorithms sreq) = Inr (cert, algo, hashFn)"
    using assms(3) by (auto simp: signingCertificate_def std_decode_def bindE_Inr split: sum.splits option.splits)
  note neg = negotiated [OF assms(1, 2) prep]
  have cert: "ParseCertificate P der = Inr cert" using prep by (simp add: PrepareSigning_Inr)
  have enc: "fq_Digest fq \<noteq> []" "fq_SigningCertificate fq \<noteq> []" using assms(4, 7, 11, 12) by (simp_all add: std64_eq_Nil)
  have "finalize P h (Inr fq) ctx2 s2 = (JSONResponse (FinalizePayload resp), ctx2, s2) \<longleftrightarrow> finalize_result P fq = Inr resp" for resp
    by (auto simp: finalize_def split: sum.splits)
  then have fin: "(\<exists>resp. finalize P h (Inr fq) ctx2 s2 = (JSONResponse (FinalizePayload resp), ctx2, s2) \<and>
        fr_SignatureVerified resp \<and> fr_Signature resp = StdEncoding_EncodeToString sig) \<longleftrightarrow>
      (\<exists>resp. finalize_result P fq = Inr resp \<and> fr_SignatureVerified resp \<and> fr_Signature resp = StdEncoding_EncodeToString sig)"
    by simp
  also have "\<dots> \<longleftrightarrow> VerifySignatureValue P (Some cert) algo digest sig = None \<and>
      snd (CheckSameNaturalPerson (Some authCert) (Some cert)) = None"
    using verified_result [OF assms(6) enc assms(7) _ assms(8-10)] der cert assms(4, 5) by simp
  also have "\<dots> \<longleftrightarrow> card_signed P cert algo hashFn digest sig \<and> snd (CheckSameNaturalPerson (Some authCert) (Some cert)) = None"
    using VerifySignatureValue_signed [OF neg(3)] assms(10, 11) by simp
  finally have ok: "(\<exists>resp. finalize P h (Inr fq) ctx2 s2 = (JSONResponse (FinalizePayload resp), ctx2, s2) \<and>
        fr_SignatureVerified resp \<and> fr_Signature resp = StdEncoding_EncodeToString sig) \<longleftrightarrow>
      card_signed P cert algo hashFn digest sig \<and> snd (CheckSameNaturalPerson (Some authCert) (Some cert)) = None" .
  have "\<not> card_signed P cert algo hashFn digest sig"
    if "hashFn \<in> {''SHA3-224'', ''SHA3-256'', ''SHA3-384'', ''SHA3-512''}" "PublicKey cert = RSAPublicKey pub" for pub
  proof -
    have "hashNameToCryptoHash hashFn = None" using that(1) by (auto simp: hashNameToCryptoHash_def)
    then show ?thesis using that(2) by (simp add: card_signed_def)
  qed
  then show ?thesis using der cert neg(1, 2) ok by blast
qed

theorem signing_flow_witness:
  "\<exists>resp. signingCertificate sample_ocsp (sample_handler session_store :: unit Handler) sample_env (Inr signing_request) sample_session () =
       (JSONResponse (SigningCertificateResponse (signing_algorithm) ''SHA-256''), sample_session, ()) \<and>
     finalize sample_ocsp (sample_handler session_store :: unit Handler) (Inr finalize_request) sample_session () =
       (JSONResponse (FinalizePayload resp), sample_session, ()) \<and> fr_SignatureVerified resp"
proof -
  let ?h = "sample_handler session_store :: unit Handler"
  have ascii: "list_all (\<lambda>a. is_ascii (HashFunction a)) (sc_SupportedSignatureAlgorithms signing_request)"
    by (simp add: signing_request_def signing_algorithm_def is_ascii_def ascii_char_def)
  have fields: "fq_SigningCertificate finalize_request = sc_Certificate signing_request"
    "fq_SignatureAlgorithm finalize_request = signing_algorithm"
    "fq_Signature finalize_request = StdEncoding_EncodeToString (replicate 32 7)"
    "fq_Digest finalize_request = StdEncoding_EncodeToString (replicate 32 7)"
    "fq_AuthCertificate finalize_request = StdEncoding_EncodeToString [1]"
    "ParseCertificate sample_ocsp [1] = Inr (sample_cert [1])" "replicate 32 (7 :: byte) \<noteq> []" "sc_Certificate signing_request \<noteq> []"
    by (simp_all add: finalize_request_def signing_request_def sample_parse_def std64_eq_Nil)
  have same: "snd (CheckSameNaturalPerson (Some (sample_cert [1])) (Some (sample_cert [1]))) = None"
    by (simp add: CheckSameNaturalPerson_def Let_def)
  have cert: "StdEncoding_DecodeString (sc_Certificate signing_request) = Some [1]"
    by (simp add: signing_request_def std64.dec_enc)
  from signing_flow [OF signing_signer [of session_store] ascii signing_prepared fields(1-7) fields(7, 8), of sample_session "()"]
  show ?thesis using cert fields(6) same signing_card_signed signing_prepared by auto
qed

end
