(* ===== verification/Spec2Isabelle.thy ===== *)
theory Spec2Isabelle
  imports Agreement Trust_Reload Flows
begin

text \<open>
  \<^bold>\<open>A verification of go-web-eid.\<close> The program is a Go library for the server side of Web eID: it
  issues challenge nonces, validates the authentication token a smart card signed over origin and
  nonce, prepares and finishes card signatures, and hands the authenticated identity on as a signed
  assertion. Everything below models Go code under \<^verbatim>\<open>src/\<close>, one theory per package or group of files.

  \<^bold>\<open>How the parts interact.\<close> A browser session is created by the middleware \<^verbatim>\<open>EnsureSession\<close>
  (\<^verbatim>\<open>azugo/session.go\<close>). \<^verbatim>\<open>GET /auth/challenge\<close> asks the generator (\<^verbatim>\<open>nonce.go\<close>) for a nonce, which
  is put into a \<^verbatim>\<open>ChallengeNonceStore\<close> (\<^verbatim>\<open>store_memory.go\<close> or \<^verbatim>\<open>redisstore\<close>) under the session id.
  \<^verbatim>\<open>POST /auth/login\<close> takes the nonce out again, checks its age and calls the validator
  (\<^verbatim>\<open>validator.go\<close>), which uses the certificate checks and the trust store (\<^verbatim>\<open>certificate\<close>), the
  revocation checker (\<^verbatim>\<open>ocsp\<close>) and the signature check (\<^verbatim>\<open>signature\<close>). With an issuer configured, the
  answer carries an assertion (\<^verbatim>\<open>assertion\<close>) that another service checks against the published JWK
  set. \<^verbatim>\<open>/auth/validate\<close> is the stateless variant. \<^verbatim>\<open>/sign/certificate\<close> and \<^verbatim>\<open>/sign/finalize\<close> drive
  the signer (\<^verbatim>\<open>signing\<close>). \<^verbatim>\<open>azugo/handler.go\<close> wires all of it from a configuration and reloads trust.

  \<^bold>\<open>Theories, in import order.\<close>
  \<^item> \<open>Prelude\<close>: the two error-return conventions of Go (a sum for \<^verbatim>\<open>(T, error)\<close>, an option for
    \<^verbatim>\<open>error\<close>) with their inversion rules in the collection \<open>result_simps\<close>; \<^verbatim>\<open>time.Time\<close> and
    \<^verbatim>\<open>time.Duration\<close> as nanoseconds with the saturation of \<^verbatim>\<open>Sub\<close> and the 64-bit wrap-around of
    duration sums written out.
  \<^item> \<open>Go_Strings\<close>, \<open>Go_UTF8\<close>, \<open>Go_Base64\<close>: the functions of \<^verbatim>\<open>strings\<close>, \<^verbatim>\<open>strconv\<close>,
    \<^verbatim>\<open>unicode/utf8\<close> and \<^verbatim>\<open>encoding/base64\<close> that the sources call. Strings are byte strings; case mapping
    beyond ASCII is a parameter. The locale \<open>text_codec\<close> is the contract of an encoding, interpreted on
    both encodings (\<open>std64\<close>, \<open>url64\<close>).
  \<^item> \<open>Go_JSON\<close>: \<^verbatim>\<open>encoding/json\<close> as the sources use it, a scanner with a stack and the nesting limit,
    string and number literals, the matching of members to struct fields, and the encoder. \<open>Go_Time\<close>:
    the calendar and the RFC 3339 text of an instant. The locale \<open>json_message\<close> is the contract of a
    type that is written and read as JSON.
  \<^item> \<open>Exceptions\<close>: \<^verbatim>\<open>exceptions/errors.go\<close> and the type of all error values.
  \<^item> \<open>Platform\<close>: the X.509, key and URL data the sources read, and the record of operations that stay
    parameters.
  \<^item> \<open>Go_ASN1\<close>: \<^verbatim>\<open>encoding/asn1\<close> as the sources use it, reading and writing DER values, object
    identifiers, integers and bit strings with the limits of that package.
  \<^item> \<open>Signature\<close>: \<^verbatim>\<open>signature/\<close>. \<open>Certificate\<close>: \<^verbatim>\<open>certificate/data.go\<close>, \<^verbatim>\<open>checks.go\<close>, \<^verbatim>\<open>policy.go\<close>.
    \<open>Trust_Store\<close>: \<^verbatim>\<open>certificate/trust.go\<close>. \<open>Ocsp_Request\<close>: the requests of \<^verbatim>\<open>ocsp/client.go\<close>, \<open>Ocsp\<close>: the rest of \<^verbatim>\<open>ocsp/\<close>. \<open>Token\<close>: \<^verbatim>\<open>token.go\<close> and
    \<^verbatim>\<open>token_errors.go\<close>.
  \<^item> \<open>Nonce\<close>: \<^verbatim>\<open>store.go\<close>, \<^verbatim>\<open>store_memory.go\<close>, \<^verbatim>\<open>nonce.go\<close>. \<open>Redis_Store\<close>: \<^verbatim>\<open>redisstore/store.go\<close>.
  \<^item> \<open>Validator\<close>: \<^verbatim>\<open>validator.go\<close>, \<^verbatim>\<open>validator_options.go\<close>. \<open>Signing\<close>: \<^verbatim>\<open>signing/\<close>. \<open>Assertion\<close>:
    \<^verbatim>\<open>assertion/assertion.go\<close>.
  \<^item> \<open>Validation\<close>: struct tags and the documented meaning of those the sources use.
  \<^item> \<open>Session\<close>: \<^verbatim>\<open>azugo/session.go\<close>, \<^verbatim>\<open>config.go\<close>. \<open>Handler\<close>: \<^verbatim>\<open>azugo/handler.go\<close>. \<open>Messages\<close>:
    \<^verbatim>\<open>azugo/dto.go\<close>, with the JSON documents of the messages. \<open>Routes\<close>: \<^verbatim>\<open>azugo/routes.go\<close>, \<^verbatim>\<open>subject.go\<close>.
  \<^item> \<open>Programs\<close>: the endpoints, the middleware, \<^verbatim>\<open>Validate\<close> and \<^verbatim>\<open>PrepareSigning\<close> split at their accesses
    to the nonce store and the trust snapshot; \<open>serve_prog_run\<close> ties them to \<open>Routes\<close>.
  \<^item> \<open>Concurrent\<close>: systems of such requests and of \<^verbatim>\<open>ReloadTrust\<close>, as step relations. \<open>Agreement\<close>: which
    challenge a login belongs to, and who confirmed it. \<open>Trust_Reload\<close>: what a reload means for requests that
    begin after it. \<open>Flows\<close>: a login and a signature from the first to the last request of a browser.

  \<^bold>\<open>Correspondence.\<close> Definitions carry the Go names; where two packages use one name, or a method name
  alone would be ambiguous, the type is prefixed (\<open>InMemoryStore_Put\<close>, \<open>Store_Put\<close>,
  \<open>TrustStore_Verify\<close>, \<open>Verifier_Verify\<close>). A struct is a record, a method a function of the receiver
  that returns the changed receiver. Each reading of a clock or of a random source is an input of the
  operation that makes it, so a request that reads the clock several times may see several values; the
  validator's and the signer's two reads of the trust snapshot are two inputs, since a reload may come
  between them. A store is a record of two functions on a store state; the service state \<open>backends\<close>
  has an in-process part and an external part, and \<open>serve\<close> routes one request through middleware and
  endpoint. Store operations are atomic, as the mutex and \<^verbatim>\<open>GETDEL\<close> make them, and so is the load of a
  trust snapshot. \<open>run_service\<close> serves requests one after another; \<open>sys_exec\<close> lets any number of
  requests make their accesses in any order, with reloads in between, and C6 carries statements about
  sequences over to it.

  \<^bold>\<open>Parameters and what is assumed of them.\<close> Cryptographic verification, hashing, X.509 parsing and
  chain building, the parser of OCSP responses, PEM and URL decoding, the HTTP transport, the file system, the Redis server,
  the local time zone, clocks and random sources are parameters. Statements that need something of them name it:
  \<open>pem_consumes\<close> (decoding a PEM block leaves a shorter rest), \<open>redis_contract\<close> and \<open>universal_contract\<close> (SET and
  GETDEL, where keys may vanish and commands may fail), \<open>redis_keeps\<close> (a server that is reached keeps a key
  for its lifetime), \<open>whole_minutes\<close> (the offset of the time zone, as
  every offset that RFC 3339 can express), \<open>signs_for\<close> (ECDSA signatures made with a key verify under it
  and fit the curve), \<open>tag_contract\<close> (what the struct-tag validator accepts), \<open>card_holders\<close> (a trusted
  certificate's key verifies only digests of what its holder confirmed), \<open>hash_sizes\<close> and \<open>no_collision\<close> (digests have
  their size and the strings in play do not collide), and full reads from random sources. A random source is a sequence of reads and an OCSP client is told
  the time, so that requests of one handler see different nonces and answers. Each has a concrete
  instance that the witnesses use. The P-256 curve equation is computed, not assumed.

  \<^bold>\<open>Interfaces.\<close> The locale \<open>nonce_store\<close> is the contract of a challenge store: what each operation
  does to the nonce a session holds. Single use over all sequences of operations is proved in it once.
  \<open>reliable_nonce_store\<close> adds that nonces do not vanish and failed operations store nothing; the in-process store
  is an instance (\<open>mem\<close>). \<open>store_part\<close> and \<open>reliable_store_part\<close> lift a store to a larger state
  (\<open>ses\<close>). \<open>redis_nonce_store\<close> derives the contract for the Redis store from the contract of the
  server (instance \<open>fake\<close>, the client of the repository's own tests); \<open>go_redis_store\<close> derives it for a
  store made by \<^verbatim>\<open>New\<close> over a wrapped go-redis client (instance \<open>wrapped_fake\<close>). \<open>login_service\<close> and
  \<open>reliable_login_service\<close> prove the absence of replays, and that each login answers a challenge of its own, for any
  handler over such a store; \<open>svc\<close>
  instantiates them with the in-process store, \<open>redis_login_service\<close> (instance \<open>cluster\<close>) with Redis.
  \<open>lasting_nonce_store\<close> says until when a store keeps a nonce while other sessions use it (instances
  \<open>mem_lasting\<close>, \<open>ses_lasting\<close>, and \<open>lasting_redis_store\<close> from \<open>redis_keeps\<close>); \<open>lasting_login_service\<close>
  proves for any such store that a challenge answered in time logs in (\<open>svc_lasting\<close>, \<open>lasting_cluster\<close>).
  Every message type of the service is an instance of \<open>json_message\<close>, so what is written is read back.

  \<^bold>\<open>What is shown.\<close>
  \<^item> What a login stands for: in every interleaving each login has a challenge of its own in its session, and
    the holder of the certificate confirmed that challenge for this service (C1, C8); no second login on a
    challenge (C4, C5, C7), single use (C20, C21); a browser that answers its challenge in time is logged in,
    whatever other sessions do (C18, C19).
  \<^item> Acceptance: exact conditions for token validation (C2), login (C3), assertion verification (C12),
    finalize (C15), signing preparation (C16), token signatures (C30)
    and token parsing (C36), which is open to new members and to what follows the token (C37);
    the policy checks decide on the policies in the DER bytes of the certificate extension (C38).
  \<^item> Concurrency: every interleaving of requests and reloads has the outcome of a sequential run in an
    order that respects real time (C6), and every sequential run is an execution (\<open>exec_service\<close>); a reload takes
    effect for every request that begins after it (C9); the in-process store is well-formed at every moment (C24);
    requests finish after at most three accesses (C26).
  \<^item> Signatures: from the negotiation to the verified result (C17).
  \<^item> Revocation: a passed check rests on a fresh good answer of an allowed responder (C13), no
    other responder is contacted (C14), and the bytes of a request name the certificate (C39).
  \<^item> Identity across services: an assertion is accepted with exactly the login's identity, also when it
    and the keys are read from the bytes of the responses (C10, C11); encodings of keys and signatures
    round-trip (C31, C32).
  \<^item> Construction and trust: the wired handler and the built validator (C23, C29), a validated
    configuration is used as it is (C25), fail-closed runtime trust (C27), the snapshot invariant
    (C34), the PEM loader (C35).
  \<^item> Sessions, nonces, errors: C22, C33, C28.
  \<^item> Behaviour that differs from its documentation: C40 (OCSP serial number), C17 (RSA signatures under SHA-3),
    \<open>Validate_ignores_format\<close>,
    \<open>OCSP_transport_signer_only\<close>, \<open>runtime_trust_empty_PEM_fails\<close> (empty PEM file).
  Further theorems, such as \<open>ReloadTrust_all_or_nothing\<close>, \<open>validate_iff\<close>, \<open>negotiation_sound\<close>, \<open>ParseOID_round_trip\<close>, \<open>same_natural_person_cases\<close>,
  \<open>p256_stripped_coordinates\<close>, \<open>host_check_ignores_port\<close>, \<open>format_major_version\<close>, \<open>memory_store_put_get_get\<close>,
  \<open>request_Validate\<close> and \<open>concurrent_logins_bounded_redis\<close>, stand beside the operations they describe.

  \<^bold>\<open>Loops.\<close> The PEM loop may run forever for a decoder that does not consume its input, so it is a
  \<open>partial_function (option)\<close>, with \<open>None\<close> for not returning; C35 shows that it returns. All other
  loops are structural or have a termination proof, and no fuel is used.

  \<^bold>\<open>Not modelled.\<close> Body decoding, including whether the framework calls the \<^verbatim>\<open>Validate\<close> methods of the
  request types by itself, is an input of an endpoint. Routing details, header handling and the
  JSON library belong to the framework; \<open>Messages\<close> gives the documents that the field tags stand for. Context cancellation is part of what a parameter may answer. In
  a concurrent execution the clock readings of a request are inputs that need not follow the order of
  its accesses, so statements that depend on time name the readings they need.
\<close>

section \<open>Properties across components\<close>

lemma assertion_subject_id:
  "s_NationalID (assertion_subject (subjectFromCertificate cert)) = SubjectSerialNumber (Subject cert)"
  by (simp add: assertion_subject_def subjectFromCertificate_def SubjectIDCode_def)

lemma subject_id: "sr_IDCode (subjectFromCertificate cert) = SubjectSerialNumber (Subject cert)"
  by (simp add: subjectFromCertificate_def SubjectIDCode_def)

lemma utf8_assertion_subject: "utf8_response_subject r \<Longrightarrow> utf8_subject (assertion_subject r)"
  by (simp add: utf8_response_subject_def utf8_subject_def assertion_subject_def json_simps)

text \<open>The document that the JWKS endpoint serves is the published document of the issuer.\<close>

lemma jwks_document:
  assumes "h_publishedKeys h = Some (Issuer_KeySet i)" and "jwks h E ctx s = (JSONResponse d, c, s')"
  shows "Issuer_JWKS i (re_order E) = Inr (json_Marshal (body_json d))"
  using assms
  by (auto simp: jwks_def Issuer_JWKS_def MarshalJWKS_def marshal_jwks_def value_member_def bindE_Inr split: sum.splits)

text \<open>C10: From the card to the consuming service, over the bytes of the responses: when a login is answered with
  an assertion, a service that has only the body of that answer and the body of an answer of the JWKS
  endpoint reads an assertion from the first and a key set from the second, accepts the assertion from 30
  seconds before to 29 seconds after its lifetime, and the subject it reads, in the claims and beside the
  assertion, is the national identifier in the certificate with which the validator accepted the login's
  token for the nonce taken from the session.\<close>

theorem login_assertion_verifiable:
  assumes "Key key = Some k" and "signs_for J k"
    and "valid_utf8 (KID key)" and "valid_utf8 iss" and "valid_utf8 aud" and "utf8_response_subject subj"
    and "NewIssuer key iss aud ttl [] = Inr i" and "h_assertionIssuer h = Some i"
    and "h_publishedKeys h = Some (Issuer_KeySet i)" and "iterates (Issuer_KeySet i) (re_order E2)"
    and "go_time (w_now (re_world E))" and "go_time (w_now (re_world E) + i_ttl i)"
    and "login P J h E body ctx s = (JSONResponse (AssertionResponse tok subj), c, s')"
    and "jwks h E2 ctx2 s2 = (JSONResponse d, c2, s2')"
    and "w_now (re_world E) \<le> w_now W' + 30 * second"
    and "w_now W' \<le> w_now (re_world E) + i_ttl i + 29 * second"
  shows "\<exists>ks v assertion subject claims req stored cert.
     KeySetFromJWKS (json_Marshal (body_json d)) = Inr ks \<and> NewVerifier (Some ks) iss aud [] = Inr v \<and>
     json_Unmarshal (decode_struct AssertionResponse_fields ([], SubjectResponse_zero))
       (json_Marshal (body_json (AssertionResponse tok subj))) = Inr (assertion, subject) \<and>
     Verifier_Verify J W' v assertion = Inr claims \<and>
     body = Inr req \<and> GetAndRemove (h_store h) (re_store_now E) ctx s = (Inr stored, s') \<and>
     Validate P (h_validator h) (re_run E) (Some (lr_AuthToken req)) (Base64EncodedNonce stored) = Inr cert \<and>
     c_Subject claims = SubjectSerialNumber (Subject cert) \<and> c_LoA claims = ''high'' \<and>
     sr_IDCode subject = SubjectSerialNumber (Subject cert)"
proof -
  obtain req stored cert where login: "body = Inr req"
    "GetAndRemove (h_store h) (re_store_now E) ctx s = (Inr stored, s')"
    "Validate P (h_validator h) (re_run E) (Some (lr_AuthToken req)) (Base64EncodedNonce stored) = Inr cert"
    and est: "establish P J h E cert ctx = (JSONResponse (AssertionResponse tok subj), c)"
    using assms(13) by (auto simp: login_JSON)
  from est assms(8) have subj: "subj = subjectFromCertificate cert"
    and iss: "Issue J (re_world E) i (assertion_subject subj) = Inr tok"
    by (auto simp: establish_JSON)
  have read: "json_Unmarshal (decode_struct AssertionResponse_fields ([], SubjectResponse_zero))
      (json_Marshal (body_json (AssertionResponse tok subj))) = Inr (tok, subj)"
    using assertion_response_json.read_text [of "(tok, subj)"] Issue_utf8 [OF iss] assms(6) by simp
  have "s_LoA (assertion_subject subj) = ''high''" by (simp add: assertion_subject_def)
  with issue_verify [OF assms(1-5) utf8_assertion_subject [OF assms(6)] assms(7, 10)
      jwks_document [OF assms(9, 14)] assms(11, 12) iss assms(15, 16)] login read
  show ?thesis by (auto simp: subj assertion_subject_id subject_id)
qed

lemma sample_process:
  "\<exists>tok subj c s1. login sample_ocsp sample_jose (sample_handler session_store) sample_env
       (rq_Login sample_login) sample_session (sample_state ()) = (JSONResponse (AssertionResponse tok subj), c, s1) \<and>
     subj = subjectFromCertificate (sample_cert [1])"
proof -
  obtain s1 where "GetAndRemove (session_store :: (http_ctx, unit backends) ChallengeNonceStore) (unix_time 60)
      sample_session (sample_state ()) = (Inr sample_nonce, s1)" using sample_take [of "()"] by blast
  from sample_login_ok [OF this] obtain p c where one:
    "login sample_ocsp sample_jose (sample_handler session_store) sample_env (rq_Login sample_login) sample_session
       (sample_state ()) = (JSONResponse p, c, s1)"
    by (auto simp: sample_serve)
  then obtain cert where "establish sample_ocsp sample_jose (sample_handler session_store :: unit Handler) sample_env cert
      sample_session = (JSONResponse p, c)"
    and "Validate sample_ocsp sample_validator sample_run (Some (sample_token ''AAAA'')) ''AAAA'' = Inr cert"
    using \<open>GetAndRemove _ _ _ _ = _\<close>
    by (auto simp: login_JSON sample_login_def sample_env_def sample_nonce_def)
  then show ?thesis using one sample_Validate [of "''AAAA''"] by (auto simp: establish_JSON)
qed

definition sample_jwks_env :: request_env where
  "sample_jwks_env = sample_env\<lparr>re_order := [''k1'']\<rparr>"

theorem login_assertion_verifiable_witness:
  "\<exists>tok subj c s1 d s2 ks v assertion subject claims.
     login sample_ocsp sample_jose (sample_handler session_store) sample_env (rq_Login sample_login) sample_session
       (sample_state ()) = (JSONResponse (AssertionResponse tok subj), c, s1) \<and>
     jwks (sample_handler session_store :: unit Handler) sample_jwks_env sample_session s1 = (JSONResponse d, sample_session, s2) \<and>
     KeySetFromJWKS (json_Marshal (body_json d)) = Inr ks \<and>
     json_Unmarshal (decode_struct AssertionResponse_fields ([], SubjectResponse_zero))
       (json_Marshal (body_json (AssertionResponse tok subj))) = Inr (assertion, subject) \<and>
     NewVerifier (Some ks) ''https://i'' ''svc:auth'' [] = Inr v \<and>
     Verifier_Verify sample_jose (sample_world (unix_time 90)) v assertion = Inr claims \<and> c_LoA claims = ''high''"
proof -
  obtain tok subj c s1 where login: "login sample_ocsp sample_jose (sample_handler session_store) sample_env
      (rq_Login sample_login) sample_session (sample_state ()) = (JSONResponse (AssertionResponse tok subj), c, s1)"
    and subj: "subj = subjectFromCertificate (sample_cert [1])"
    using sample_process by (elim exE conjE) (rule that)
  obtain doc where "Issuer_JWKS sample_issuer [''k1''] = Inr doc" using sample_jwks by blast
  then obtain d where d: "jwks (sample_handler session_store :: unit Handler) sample_jwks_env sample_session s1 =
      (JSONResponse d, sample_session, s1)"
    by (auto simp: jwks_def sample_jwks_env_def Issuer_JWKS_def MarshalJWKS_def bindE_Inr)
  have key: "Key sample_signing_key = Some Assertion.sample_key" "valid_utf8 (KID sample_signing_key)"
    by (simp_all add: sample_signing_key_def sample_ascii)
  have it: "iterates (Issuer_KeySet sample_issuer) (re_order sample_jwks_env)"
    by (simp add: iterates_def sample_issuer_def sample_signing_key_def Issuer_KeySet_def KeySet_Add_def
        NewKeySet_def sample_jwks_env_def)
  have utf8: "utf8_response_subject subj"
    by (simp add: subj utf8_response_subject_def subjectFromCertificate_def SubjectCN_def SubjectIDCode_def
        SubjectCountryCode_def SubjectGivenName_def SubjectSurname_def sample_cert_def oidSurname_def json_simps)
  have iss: "h_assertionIssuer (sample_handler session_store :: unit Handler) = Some sample_issuer"
    "h_publishedKeys (sample_handler session_store :: unit Handler) = Some (Issuer_KeySet sample_issuer)" by simp_all
  have t: "go_time (w_now (re_world sample_env))" "go_time (w_now (re_world sample_env) + i_ttl sample_issuer)"
    "w_now (re_world sample_env) \<le> w_now (sample_world (unix_time 90)) + 30 * second"
    "w_now (sample_world (unix_time 90)) \<le> w_now (re_world sample_env) + i_ttl sample_issuer + 29 * second"
    by (simp_all add: go_time_def sample_env_def sample_world_def sample_issuer_def in_int64_def min_int64_def
        max_int64_def unixToInternal_def minute_def second_def unix_time_small)
  from login_assertion_verifiable [OF key(1) sample_signs_for key(2) sample_ascii(2, 3) utf8
      sample_issuer_new iss it t(1, 2) login d t(3, 4)] login d
  show ?thesis by blast
qed

end
